(* ===== verification/Prelude.thy ===== *)
theory Prelude
  imports Main "HOL-Library.Word" "HOL-Library.Sublist"
begin

text \<open>
  Shared base of the verification of the electronic lock firmware
  (\<^verbatim>\<open>src/proyecto/CerraduraElectronica\<close> on top of the sAPI library).

  It holds the machine integer types, the outcome type of a C function that
  runs against the hardware, the sequencing operators the translated functions
  are written with, a weakest-precondition style judgement \<open>sat\<close> on outcomes
  with its rules, and the locale \<open>stable\<close>: a preorder on states that every
  statement of a program respects. The locale is what later theories use for
  frame conditions and for monotonicity facts.
\<close>

unbundle bit_operations_syntax

named_theorems wp_simps \<open>evaluation of the sequencing operators on a state\<close>
named_theorems sat_intros \<open>backward rules for outcome judgements\<close>

type_synonym u8 = "8 word"
type_synonym u16 = "16 word"
type_synonym u32 = "32 word"
type_synonym u64 = "64 word"

section \<open>Outcomes\<close>

text \<open>
  The undefined behaviours the C code can run into.
\<close>

datatype fault =
    BufferOverflow \<comment> \<open>write past the end of an array\<close>
  | OutOfBounds    \<comment> \<open>read past the end of an array\<close>
  | Uninitialised  \<comment> \<open>read of an array element that was never written\<close>
  | NullPointer    \<comment> \<open>a null pointer where a string is read\<close>
  | DivByZero      \<comment> \<open>a division by zero\<close>
  | ShiftTooFar    \<comment> \<open>a shift by the width of the type or more\<close>

text \<open>
  The outcome of running a C function from a state. \<open>Ret\<close> is a return with its
  value. \<open>More\<close> is a run that is still waiting for its environment when the
  observed part of the environment ends. \<open>Fault\<close> is undefined behaviour, with
  the state right before it. \<open>Hang\<close> is a loop that spins without ever looking
  at the hardware.
\<close>

datatype ('a, 's) res = Ret 'a 's | More 's | Fault fault 's | Hang 's

primrec final :: "('a, 's) res \<Rightarrow> 's" where
  "final (Ret x s) = s"
| "final (More s) = s"
| "final (Fault e s) = s"
| "final (Hang s) = s"

type_synonym ('a, 's) prog = "'s \<Rightarrow> ('a, 's) res"

section \<open>Sequencing\<close>

abbreviation ret :: "'a \<Rightarrow> ('a, 's) prog" where
  "ret \<equiv> Ret"

definition bind :: "('a, 's) prog \<Rightarrow> ('a \<Rightarrow> ('b, 's) prog) \<Rightarrow> ('b, 's) prog" where
  "bind m f = (\<lambda>s. case m s of
       Ret x s' \<Rightarrow> f x s'
     | More s' \<Rightarrow> More s'
     | Fault e s' \<Rightarrow> Fault e s'
     | Hang s' \<Rightarrow> Hang s')"

definition gets :: "('s \<Rightarrow> 'a) \<Rightarrow> ('a, 's) prog" where
  "gets f = (\<lambda>s. Ret (f s) s)"

definition modify :: "('s \<Rightarrow> 's) \<Rightarrow> (unit, 's) prog" where
  "modify f = (\<lambda>s. Ret () (f s))"

abbreviation fault :: "fault \<Rightarrow> ('a, 's) prog" where
  "fault \<equiv> Fault"

text \<open>A statement list: each statement in turn.\<close>

primrec block :: "(unit, 's) prog list \<Rightarrow> (unit, 's) prog" where
  "block [] = ret ()"
| "block (m # ms) = bind m (\<lambda>_. block ms)"

text \<open>A counted loop: the body for each element of a list in order.\<close>

primrec for_each :: "'a list \<Rightarrow> ('a \<Rightarrow> (unit, 's) prog) \<Rightarrow> (unit, 's) prog" where
  "for_each [] body = ret ()"
| "for_each (x # xs) body = bind (body x) (\<lambda>_. for_each xs body)"

text \<open>A search loop: the body for each element until it returns something.\<close>

primrec for_find :: "'a list \<Rightarrow> ('a \<Rightarrow> ('b option, 's) prog) \<Rightarrow> ('b option, 's) prog" where
  "for_find [] body = ret None"
| "for_find (x # xs) body =
     bind (body x) (\<lambda>r. case r of None \<Rightarrow> for_find xs body | Some y \<Rightarrow> ret (Some y))"

text \<open>A call whose result is not used.\<close>

definition void :: "('a, 's) prog \<Rightarrow> (unit, 's) prog" where
  "void m = bind m (\<lambda>_. ret ())"

text \<open>
  A loop with local variables \<open>x\<close>: the body either goes on with new values
  (\<open>Inl\<close>) or leaves the loop with a result (\<open>Inr\<close>), after at most \<open>n\<close> rounds.
\<close>

primrec iter :: "nat \<Rightarrow> ('a \<Rightarrow> ('a + 'b, 's) prog) \<Rightarrow> 'a \<Rightarrow> ('b, 's) prog" where
  "iter 0 body x = (\<lambda>s. Hang s)"
| "iter (Suc n) body x =
     bind (body x) (\<lambda>r. case r of Inl y \<Rightarrow> iter n body y | Inr z \<Rightarrow> ret z)"

lemma gets_apply [simp, wp_simps]: "gets f s = Ret (f s) s"
  by (simp add: gets_def)

lemma modify_apply [simp, wp_simps]: "modify f s = Ret () (f s)"
  by (simp add: modify_def)

lemma bind_apply [wp_simps]:
  "bind m f s = (case m s of
       Ret x s' \<Rightarrow> f x s'
     | More s' \<Rightarrow> More s'
     | Fault e s' \<Rightarrow> Fault e s'
     | Hang s' \<Rightarrow> Hang s')"
  by (simp add: bind_def)

lemma bind_Ret: "m s = Ret x s' \<Longrightarrow> bind m f s = f x s'"
  by (simp add: bind_def)

lemma bind_eq_Ret:
  "bind m f s = Ret y t \<longleftrightarrow> (\<exists>x s'. m s = Ret x s' \<and> f x s' = Ret y t)"
  by (auto simp: bind_def split: res.splits)

lemma bind_ret [simp]: "bind (ret x) f = f x"
  by (simp add: bind_def)

lemma ret_bind [simp]: "bind m ret = m"
  by (rule ext) (simp add: bind_def split: res.splits)

lemma bind_assoc: "bind (bind m f) g = bind m (\<lambda>x. bind (f x) g)"
  by (rule ext) (simp add: bind_def split: res.splits)

lemma bind_gets: "bind (gets f) g s = g (f s) s"
  by (simp add: bind_def)

lemma bind_modify: "bind (modify f) g s = g () (f s)"
  by (simp add: bind_def)

lemma block_append: "block (ms @ ns) = bind (block ms) (\<lambda>_. block ns)"
  by (induction ms) (simp_all add: bind_assoc)

lemma for_each_append:
  "for_each (xs @ ys) body = bind (for_each xs body) (\<lambda>_. for_each ys body)"
  by (induction xs) (simp_all add: bind_assoc)

lemma bind_block_Nil [simp]: "bind (block []) f = f ()"
  by simp

lemma bind_block_Cons [simp]: "bind (block (m # ms)) f = bind m (\<lambda>_. bind (block ms) f)"
  by (simp add: bind_assoc)

lemma for_each_modify: "for_each xs (\<lambda>x. modify (g x)) s = Ret () (fold g xs s)"
  by (induction xs arbitrary: s) (simp_all add: bind_modify)

section \<open>Judgements on outcomes\<close>

text \<open>
  \<open>sat E Q R r\<close>: the outcome \<open>r\<close> is a return that satisfies \<open>Q\<close>, or a run still
  waiting in a state that satisfies \<open>R\<close>, or a fault among \<open>E\<close> in a state that
  satisfies \<open>R\<close>; it never hangs.
\<close>

primrec sat ::
  "fault set \<Rightarrow> ('a \<Rightarrow> 's \<Rightarrow> bool) \<Rightarrow> ('s \<Rightarrow> bool) \<Rightarrow> ('a, 's) res \<Rightarrow> bool" where
  "sat E Q R (Ret x s) = Q x s"
| "sat E Q R (More s) = R s"
| "sat E Q R (Fault e s) = (e \<in> E \<and> R s)"
| "sat E Q R (Hang s) = False"

lemma sat_mono:
  assumes "sat E Q R r" and "\<And>x s. Q x s \<Longrightarrow> Q' x s" and "\<And>s. R s \<Longrightarrow> R' s"
    and "E \<subseteq> E'"
  shows "sat E' Q' R' r"
  using assms by (cases r) auto

lemma sat_weaken:
  assumes "sat E Q R r" and "\<And>x s. Q x s \<Longrightarrow> Q' x s" and "\<And>s. R s \<Longrightarrow> R' s"
  shows "sat E Q' R' r"
  using assms by (cases r) auto

lemma sat_bind_iff:
  "sat E Q R (bind m f s) = sat E (\<lambda>x s'. sat E Q R (f x s')) R (m s)"
  by (simp add: bind_def split: res.splits)

lemma sat_bind [sat_intros]:
  "sat E (\<lambda>x s'. sat E Q R (f x s')) R (m s) \<Longrightarrow> sat E Q R (bind m f s)"
  by (simp add: sat_bind_iff)

lemma sat_conjI:
  assumes "sat E Q R r" and "sat E Q' R' r"
  shows "sat E (\<lambda>x s. Q x s \<and> Q' x s) (\<lambda>s. R s \<and> R' s) r"
  using assms by (cases r) auto

lemma sat_conj_Ret:
  assumes "sat E Q R r" and "\<And>x s. r = Ret x s \<Longrightarrow> P x"
  shows "sat E (\<lambda>x s. Q x s \<and> P x) R r"
  using assms by (cases r) auto

lemma sat_block_Cons [sat_intros]:
  "sat E (\<lambda>x s'. sat E Q R (block ms s')) R (m s) \<Longrightarrow> sat E Q R (block (m # ms) s)"
  by (simp add: sat_bind_iff)

lemma sat_RetD: "sat E Q R r \<Longrightarrow> r = Ret x s \<Longrightarrow> Q x s"
  by simp

text \<open>Loop rule: an invariant together with a measure that the body decreases.\<close>

lemma sat_iter:
  assumes "I x s" and "\<mu> s < n"
    and step: "\<And>x s. I x s \<Longrightarrow>
      sat E (\<lambda>r s'. case r of Inl y \<Rightarrow> I y s' \<and> \<mu> s' < \<mu> s | Inr z \<Rightarrow> Q z s') R (body x s)"
  shows "sat E Q R (iter n body x s)"
  using assms(1,2)
proof (induction n arbitrary: x s)
  case 0
  then show ?case by simp
next
  case (Suc n)
  show ?case unfolding iter.simps
  proof (rule sat_bind, rule sat_weaken [OF step [OF Suc.prems(1)]])
    fix r s'
    assume "case r of Inl y \<Rightarrow> I y s' \<and> \<mu> s' < \<mu> s | Inr z \<Rightarrow> Q z s'"
    with Suc.prems(2)
    show "sat E Q R ((case r of Inl y \<Rightarrow> iter n body y | Inr z \<Rightarrow> ret z) s')"
      by (auto split: sum.splits intro: Suc.IH)
  qed
qed

declare iter.simps [simp del]

text \<open>
  \<open>keeps E I m\<close>: from a state that satisfies \<open>I\<close>, \<open>m\<close> does not hang, has no fault
  outside \<open>E\<close>, and returns to a state that satisfies \<open>I\<close>. \<open>safe E m\<close> is the case
  without an invariant.
\<close>

definition keeps :: "fault set \<Rightarrow> ('s \<Rightarrow> bool) \<Rightarrow> ('a, 's) prog \<Rightarrow> bool" where
  "keeps E I m \<longleftrightarrow> (\<forall>s. I s \<longrightarrow> sat E (\<lambda>_. I) (\<lambda>_. True) (m s))"

abbreviation safe :: "fault set \<Rightarrow> ('a, 's) prog \<Rightarrow> bool" where
  "safe E \<equiv> keeps E (\<lambda>_. True)"

lemma keepsI: "(\<And>s. I s \<Longrightarrow> sat E (\<lambda>_. I) (\<lambda>_. True) (m s)) \<Longrightarrow> keeps E I m"
  by (simp add: keeps_def)

lemma keepsD: "keeps E I m \<Longrightarrow> I s \<Longrightarrow> sat E (\<lambda>_. I) (\<lambda>_. True) (m s)"
  by (simp add: keeps_def)

lemma keeps_ret: "keeps E I (ret x)"
  by (simp add: keeps_def)

lemma keeps_gets: "keeps E I (gets f)"
  by (simp add: keeps_def)

lemma keeps_modify: "(\<And>s. I s \<Longrightarrow> I (f s)) \<Longrightarrow> keeps E I (modify f)"
  by (simp add: keeps_def)

lemma keeps_bind: "keeps E I m \<Longrightarrow> (\<And>x. keeps E I (f x)) \<Longrightarrow> keeps E I (bind m f)"
  unfolding keeps_def sat_bind_iff by (blast intro: sat_weaken)

lemma keeps_void: "keeps E I m \<Longrightarrow> keeps E I (void m)"
  unfolding void_def by (intro keeps_bind keeps_ret)

lemma keeps_block: "(\<And>m. m \<in> set ms \<Longrightarrow> keeps E I m) \<Longrightarrow> keeps E I (block ms)"
  by (induction ms) (auto intro: keeps_ret keeps_bind)

lemma keeps_for_each: "(\<And>x. x \<in> set xs \<Longrightarrow> keeps E I (body x)) \<Longrightarrow> keeps E I (for_each xs body)"
  by (induction xs) (auto intro: keeps_ret keeps_bind)

lemma keeps_for_find: "(\<And>x. x \<in> set xs \<Longrightarrow> keeps E I (body x)) \<Longrightarrow> keeps E I (for_find xs body)"
  by (induction xs) (auto intro!: keeps_ret keeps_bind split: option.splits)

lemma keeps_If:
  "(c \<Longrightarrow> keeps E I m) \<Longrightarrow> (\<not> c \<Longrightarrow> keeps E I n) \<Longrightarrow> keeps E I (if c then m else n)"
  by simp

lemma keeps_case_option:
  "(x = None \<Longrightarrow> keeps E I m) \<Longrightarrow> (\<And>y. x = Some y \<Longrightarrow> keeps E I (f y)) \<Longrightarrow>
   keeps E I (case x of None \<Rightarrow> m | Some y \<Rightarrow> f y)"
  by (cases x) auto

lemma keeps_case_prod:
  "(\<And>a b. x = (a, b) \<Longrightarrow> keeps E I (f a b)) \<Longrightarrow> keeps E I (case x of (a, b) \<Rightarrow> f a b)"
  by (cases x) auto

lemma keeps_case_list:
  "(x = [] \<Longrightarrow> keeps E I m) \<Longrightarrow> (\<And>y ys. x = y # ys \<Longrightarrow> keeps E I (f y ys)) \<Longrightarrow>
   keeps E I (case x of [] \<Rightarrow> m | y # ys \<Rightarrow> f y ys)"
  by (cases x) auto

lemmas keeps_rules = keeps_ret keeps_gets keeps_bind keeps_void keeps_for_each keeps_for_find
lemmas keeps_splits = keeps_If keeps_case_option keeps_case_prod keeps_case_list

lemma keeps_mono: "keeps E I m \<Longrightarrow> E \<subseteq> E' \<Longrightarrow> keeps E' I m"
  unfolding keeps_def by (blast intro: sat_mono)

text \<open>A search loop: what holds of every hit holds of the result.\<close>

lemma sat_for_find:
  assumes "I s"
    and "\<And>x s. x \<in> set xs \<Longrightarrow> I s \<Longrightarrow>
      sat E (\<lambda>r s'. I s' \<and> (case r of None \<Rightarrow> True | Some y \<Rightarrow> Q y)) R (body x s)"
  shows "sat E (\<lambda>r s'. I s' \<and> (case r of None \<Rightarrow> True | Some y \<Rightarrow> Q y)) R (for_find xs body s)"
  using assms
proof (induction xs arbitrary: s)
  case Nil
  then show ?case by simp
next
  case (Cons x xs)
  show ?case unfolding for_find.simps
  proof (rule sat_bind, rule sat_weaken [OF Cons.prems(2)])
    show "x \<in> set (x # xs)" and "I s" using Cons.prems by simp_all
  next
    fix r s'
    assume "I s' \<and> (case r of None \<Rightarrow> True | Some y \<Rightarrow> Q y)"
    then show "sat E (\<lambda>r s'. I s' \<and> (case r of None \<Rightarrow> True | Some y \<Rightarrow> Q y)) R
        ((case r of None \<Rightarrow> for_find xs body | Some y \<Rightarrow> ret (Some y)) s')"
      using Cons by (cases r) auto
  qed
qed

section \<open>Relations every statement respects\<close>

definition respeta :: "('s \<Rightarrow> 's \<Rightarrow> bool) \<Rightarrow> ('a, 's) prog \<Rightarrow> bool" where
  "respeta r m \<longleftrightarrow> (\<forall>s. r s (final (m s)))"

lemma withinI: "(\<And>s. r s (final (m s))) \<Longrightarrow> respeta r m"
  by (simp add: respeta_def)

lemma withinD: "respeta r m \<Longrightarrow> r s (final (m s))"
  by (simp add: respeta_def)

lemma within_Ret: "respeta r m \<Longrightarrow> m s = Ret x s' \<Longrightarrow> r s s'"
  by (metis withinD final.simps(1))

lemma within_If: "(c \<Longrightarrow> respeta r m) \<Longrightarrow> (\<not> c \<Longrightarrow> respeta r n) \<Longrightarrow> respeta r (if c then m else n)"
  by simp

lemma within_case_option:
  "(x = None \<Longrightarrow> respeta r m) \<Longrightarrow> (\<And>y. x = Some y \<Longrightarrow> respeta r (f y)) \<Longrightarrow>
   respeta r (case x of None \<Rightarrow> m | Some y \<Rightarrow> f y)"
  by (cases x) auto

lemma within_case_sum:
  "(\<And>y. x = Inl y \<Longrightarrow> respeta r (f y)) \<Longrightarrow> (\<And>y. x = Inr y \<Longrightarrow> respeta r (g y)) \<Longrightarrow>
   respeta r (case x of Inl y \<Rightarrow> f y | Inr y \<Rightarrow> g y)"
  by (cases x) auto

lemma within_case_prod:
  "(\<And>a b. x = (a, b) \<Longrightarrow> respeta r (f a b)) \<Longrightarrow> respeta r (case x of (a, b) \<Rightarrow> f a b)"
  by (cases x) auto

lemma within_case_list:
  "(x = [] \<Longrightarrow> respeta r m) \<Longrightarrow> (\<And>y ys. x = y # ys \<Longrightarrow> respeta r (f y ys)) \<Longrightarrow>
   respeta r (case x of [] \<Rightarrow> m | y # ys \<Rightarrow> f y ys)"
  by (cases x) auto

lemma within_Let: "(\<And>y. respeta r (f y)) \<Longrightarrow> respeta r (let y = x in f y)"
  by simp

lemmas within_splits =
  within_If within_case_option within_case_sum within_case_prod within_case_list within_Let

text \<open>A program without other faults that respects an invariant keeps it.\<close>

lemma keepsI_within:
  assumes "safe E m" and "respeta (\<lambda>s s'. I s \<longrightarrow> I s') m"
  shows "keeps E I m"
proof (rule keepsI)
  fix s
  assume "I s"
  with keepsD [OF assms(1), of s] withinD [OF assms(2), of s]
  show "sat E (\<lambda>_. I) (\<lambda>_. True) (m s)" by (cases "m s") auto
qed

lemma sat_safe_within:
  assumes "safe E m" and "respeta r m"
  shows "sat E (\<lambda>_ s'. r s s') (\<lambda>s'. r s s') (m s)"
  using keepsD [OF assms(1), of s] withinD [OF assms(2), of s] by (cases "m s") auto

text \<open>Running a frame-respecting statement first.\<close>

lemma sat_frame_bind:
  assumes "safe E m" and "respeta r m"
    and "\<And>x s'. r s s' \<Longrightarrow> sat E Q (\<lambda>_. True) (f x s')"
  shows "sat E Q (\<lambda>_. True) (bind m f s)"
  by (rule sat_bind, rule sat_weaken [OF sat_safe_within [OF assms(1,2)]]) (use assms(3) in auto)

text \<open>
  A reflexive and transitive relation: whatever is composed of statements that
  respect it respects it.
\<close>

locale stable =
  fixes r :: "'s \<Rightarrow> 's \<Rightarrow> bool"
  assumes r_refl: "r s s"
    and r_trans: "r s t \<Longrightarrow> r t u \<Longrightarrow> r s u"
begin

lemma within_ret: "respeta r (ret x)"
  by (simp add: respeta_def r_refl)

lemma within_gets: "respeta r (gets f)"
  by (simp add: respeta_def r_refl)

lemma within_fault: "respeta r (fault e)"
  by (simp add: respeta_def r_refl)

lemma within_modify: "(\<And>s. r s (f s)) \<Longrightarrow> respeta r (modify f)"
  by (simp add: respeta_def)

lemma within_bind:
  assumes "respeta r m" and "\<And>x. respeta r (f x)"
  shows "respeta r (bind m f)"
proof (rule withinI)
  fix s
  show "r s (final (bind m f s))"
    using withinD [OF assms(1), of s] withinD [OF assms(2)]
    by (auto simp: bind_def split: res.splits intro: r_trans)
qed

lemma within_block: "(\<And>m. m \<in> set ms \<Longrightarrow> respeta r m) \<Longrightarrow> respeta r (block ms)"
  by (induction ms) (auto intro: within_ret within_bind)

lemma within_for_each: "(\<And>x. respeta r (body x)) \<Longrightarrow> respeta r (for_each xs body)"
  by (induction xs) (auto intro: within_ret within_bind)

lemma within_for_find: "(\<And>x. respeta r (body x)) \<Longrightarrow> respeta r (for_find xs body)"
  by (induction xs) (auto intro!: within_ret within_bind within_case_option)

lemma within_void: "respeta r m \<Longrightarrow> respeta r (void m)"
  unfolding void_def by (intro within_bind within_ret)

lemma within_iter: "(\<And>x. respeta r (body x)) \<Longrightarrow> respeta r (iter n body x)"
proof (induction n arbitrary: x)
  case 0
  show ?case by (simp add: respeta_def r_refl iter.simps)
next
  case (Suc n)
  then show ?case
    unfolding iter.simps by (auto intro!: within_bind within_case_sum within_ret)
qed

lemmas within_rules =
  within_ret within_gets within_fault within_modify within_bind within_for_each within_for_find
  within_void within_iter

end

end
