(* ===== verification/CString.thy ===== *)
theory CString
  imports Prelude
begin

text \<open>
  The C string functions the firmware calls, on the text of a string (its
  characters up to the terminator): searching (\<^verbatim>\<open>strstr\<close>, \<^verbatim>\<open>strchr\<close>), copying into
  an array of known size (\<^verbatim>\<open>strcpy\<close>, \<^verbatim>\<open>sprintf\<close>), decimal printing and reading
  (\<^verbatim>\<open>%d\<close>, \<^verbatim>\<open>%u\<close>, \<^verbatim>\<open>%04d\<close>, \<^verbatim>\<open>atoi\<close>). Two strings are equal when \<^verbatim>\<open>strcmp\<close> gives 0,
  so comparisons are equality of texts. A position in a string is its index.
\<close>

section \<open>Texts in memory\<close>

abbreviation NUL :: char where "NUL \<equiv> CHR 0x00"

definition byte_char :: "u8 \<Rightarrow> char" where
  "byte_char b = char_of (unat b)"

text \<open>The text an array of bytes holds.\<close>

definition cstr :: "u8 list \<Rightarrow> string" where
  "cstr bs = takeWhile (\<lambda>c. c \<noteq> NUL) (map byte_char bs)"

text \<open>
  Storing a text and its terminator into an array of \<open>n\<close> characters
  (\<^verbatim>\<open>strcpy\<close>, \<^verbatim>\<open>sprintf\<close>): undefined when it does not fit.
\<close>

definition store_str :: "nat \<Rightarrow> string \<Rightarrow> (string, 's) prog" where
  "store_str n s = (if length s < n then ret s else fault BufferOverflow)"

text \<open>\<^verbatim>\<open>snprintf\<close> cuts the text instead.\<close>

definition cut_str :: "nat \<Rightarrow> string \<Rightarrow> string" where
  "cut_str n s = take (n - 1) s"

section \<open>Searching\<close>

fun strstr :: "string \<Rightarrow> string \<Rightarrow> nat option" where
  "strstr [] pat = (if pat = [] then Some 0 else None)"
| "strstr (c # s) pat =
     (if prefix pat (c # s) then Some 0 else map_option Suc (strstr s pat))"

fun strchr :: "string \<Rightarrow> char \<Rightarrow> nat option" where
  "strchr [] c = None"
| "strchr (d # s) c = (if d = c then Some 0 else map_option Suc (strchr s c))"

definition contains :: "string \<Rightarrow> string \<Rightarrow> bool" where
  "contains s pat \<longleftrightarrow> strstr s pat \<noteq> None"

text \<open>Searching from a position on gives a position of the whole string.\<close>

definition strstr_at :: "string \<Rightarrow> nat \<Rightarrow> string \<Rightarrow> nat option" where
  "strstr_at s i pat = map_option (\<lambda>j. i + j) (strstr (drop i s) pat)"

definition strchr_at :: "string \<Rightarrow> nat \<Rightarrow> char \<Rightarrow> nat option" where
  "strchr_at s i c = map_option (\<lambda>j. i + j) (strchr (drop i s) c)"

section \<open>Decimal numbers\<close>

definition digit :: "nat \<Rightarrow> char" where
  "digit d = char_of (48 + d)"

fun fmt_u :: "nat \<Rightarrow> string" where
  "fmt_u n = (if n < 10 then [digit n] else fmt_u (n div 10) @ [digit (n mod 10)])"

declare fmt_u.simps [simp del]

definition fmt_d :: "int \<Rightarrow> string" where
  "fmt_d i = (if i < 0 then ''-'' @ fmt_u (nat (- i)) else fmt_u (nat i))"

definition fmt_04u :: "nat \<Rightarrow> string" where
  "fmt_04u n = replicate (4 - length (fmt_u n)) (CHR ''0'') @ fmt_u n"

definition is_digit :: "char \<Rightarrow> bool" where
  "is_digit c \<longleftrightarrow> (48::nat) \<le> of_char c \<and> of_char c \<le> (57::nat)"

definition digit_val :: "char \<Rightarrow> nat" where
  "digit_val c = of_char c - 48"

fun read_digits :: "nat \<Rightarrow> string \<Rightarrow> nat" where
  "read_digits acc [] = acc"
| "read_digits acc (c # s) =
     (if is_digit c then read_digits (10 * acc + digit_val c) s else acc)"

definition is_space :: "char \<Rightarrow> bool" where
  "is_space c \<longleftrightarrow> c = CHR '' '' \<or> (9::nat) \<le> of_char c \<and> of_char c \<le> (13::nat)"

definition atoi :: "string \<Rightarrow> int" where
  "atoi s = (case dropWhile is_space s of
       [] \<Rightarrow> 0
     | c # t \<Rightarrow>
         if c = CHR ''-'' then - int (read_digits 0 t)
         else if c = CHR ''+'' then int (read_digits 0 t)
         else int (read_digits 0 (c # t)))"

section \<open>Lemmas\<close>

lemma store_str_Ret: "store_str n s w = Ret t w' \<longleftrightarrow> length s < n \<and> t = s \<and> w' = w"
  by (auto simp: store_str_def)

lemma strstr_Some:
  "strstr s pat = Some i \<Longrightarrow>
     i + length pat \<le> length s \<and> take (length pat) (drop i s) = pat"
proof (induction s pat arbitrary: i rule: strstr.induct)
  case (1 pat)
  then show ?case by (auto split: if_splits)
next
  case (2 c s pat)
  show ?case
  proof (cases "prefix pat (c # s)")
    case True
    with 2 have "i = 0" by simp
    with True show ?thesis
      using prefix_length_le [OF True] by (auto simp: prefix_def)
  next
    case False
    with 2 show ?thesis by auto
  qed
qed

lemma strstr_None: "strstr s pat = None \<longleftrightarrow> \<not> sublist pat s"
  by (induction s pat rule: strstr.induct) (auto simp: sublist_Cons_right)

lemma contains_sublist: "contains s pat \<longleftrightarrow> sublist pat s"
  by (simp add: contains_def strstr_None)

lemma strchr_Some:
  "strchr s c = Some i \<Longrightarrow> i < length s \<and> s ! i = c \<and> c \<notin> set (take i s)"
  by (induction s c arbitrary: i rule: strchr.induct) (auto split: if_splits)

lemma strchr_None: "strchr s c = None \<longleftrightarrow> c \<notin> set s"
  by (induction s c rule: strchr.induct) auto

lemma strchr_append: "c \<notin> set s \<Longrightarrow> strchr (s @ c # t) c = Some (length s)"
  by (induction s) auto

lemma strstr_at_bounds:
  "strstr_at s i pat = Some j \<Longrightarrow> i \<le> j \<and> (i \<le> length s \<longrightarrow> j + length pat \<le> length s)"
  by (auto simp: strstr_at_def dest!: strstr_Some)

lemma strchr_at_bounds: "strchr_at s i c = Some j \<Longrightarrow> i \<le> j \<and> j < length s"
  by (auto simp: strchr_at_def dest!: strchr_Some)

lemma of_char_digit: "d < 10 \<Longrightarrow> (of_char (digit d) :: nat) = 48 + d"
  by (simp add: digit_def)

lemma digit_lits [simp]:
  "digit 0 = CHR ''0''" "digit (Suc 0) = CHR ''1''" "digit 1 = CHR ''1''" "digit 2 = CHR ''2''"
  "digit 3 = CHR ''3''" "digit 4 = CHR ''4''" "digit 5 = CHR ''5''" "digit 6 = CHR ''6''"
  "digit 7 = CHR ''7''" "digit 8 = CHR ''8''" "digit 9 = CHR ''9''"
  by (code_simp+)

lemma is_digit_digit: "d < 10 \<Longrightarrow> is_digit (digit d)"
  by (simp add: is_digit_def of_char_digit)

lemma digit_val_digit: "d < 10 \<Longrightarrow> digit_val (digit d) = d"
  by (simp add: digit_val_def of_char_digit)

lemma fmt_u_digits: "c \<in> set (fmt_u n) \<Longrightarrow> is_digit c"
proof (induction n rule: fmt_u.induct)
  case (1 n)
  then show ?case
    by (subst (asm) (2) fmt_u.simps) (auto simp: is_digit_digit split: if_splits)
qed

lemma fmt_u_nonempty: "fmt_u n \<noteq> []"
  by (subst fmt_u.simps) simp

lemma read_digits_append:
  "(\<And>c. c \<in> set s \<Longrightarrow> is_digit c) \<Longrightarrow> read_digits acc (s @ t) = read_digits (read_digits acc s) t"
  by (induction s arbitrary: acc) auto

lemma read_digits_fmt_u: "read_digits 0 (fmt_u n) = n"
proof (induction n rule: fmt_u.induct)
  case (1 n)
  show ?case
  proof (cases "n < 10")
    case True
    then show ?thesis
      by (subst fmt_u.simps) (simp add: is_digit_digit digit_val_digit)
  next
    case False
    with 1 have "read_digits 0 (fmt_u (n div 10)) = n div 10" by simp
    with False show ?thesis
      by (subst fmt_u.simps)
        (simp add: read_digits_append fmt_u_digits is_digit_digit digit_val_digit)
  qed
qed

lemma fmt_04u_digits: "c \<in> set (fmt_04u n) \<Longrightarrow> is_digit c"
  by (auto simp: fmt_04u_def is_digit_def fmt_u_digits [unfolded is_digit_def])

lemma read_digits_zeros: "read_digits 0 (replicate k (CHR ''0'') @ s) = read_digits 0 s"
  by (induction k) (auto simp: is_digit_def digit_val_def)

lemma read_digits_fmt_04u: "read_digits 0 (fmt_04u n) = n"
  by (simp add: fmt_04u_def read_digits_zeros read_digits_fmt_u)

lemma fmt_04u_inj: "fmt_04u m = fmt_04u n \<longleftrightarrow> m = n"
  by (metis read_digits_fmt_04u)

lemma fmt_u_length: "n < 10 ^ Suc k \<Longrightarrow> length (fmt_u n) \<le> Suc k"
proof (induction k arbitrary: n)
  case 0
  then show ?case by (subst fmt_u.simps) simp
next
  case (Suc k)
  then have "n div 10 < 10 ^ Suc k" by (simp add: div_less_iff_less_mult mult.commute)
  from Suc.IH [OF this] show ?case by (subst fmt_u.simps) simp
qed

lemma fmt_04u_length: "n < 10000 \<Longrightarrow> length (fmt_04u n) = 4"
  using fmt_u_length [of n 3] by (simp add: fmt_04u_def)

lemma fmt_d_id: "length (fmt_d (sint (x :: 16 word))) \<le> 6"
proof -
  have "- 32768 \<le> sint x" "sint x < 32768" using sint_range_size [of x] by (simp_all add: word_size)
  then have "nat (sint x) < 10 ^ Suc 4" "nat (- sint x) < 10 ^ Suc 4" by simp_all
  from this [THEN fmt_u_length] show ?thesis by (simp add: fmt_d_def)
qed

lemma fmt_04u_length_ge: "4 \<le> length (fmt_04u n)"
  by (simp add: fmt_04u_def)

lemma fmt_04u_not_Nil [simp]: "fmt_04u n \<noteq> []" "[] \<noteq> fmt_04u n"
  by (simp_all add: fmt_04u_def fmt_u_nonempty)

lemma digit_not_space: "is_digit c \<Longrightarrow> \<not> is_space c"
  by (auto simp: is_digit_def is_space_def)

lemma atoi_digits:
  assumes "s \<noteq> []" and "\<And>c. c \<in> set s \<Longrightarrow> is_digit c"
  shows "atoi s = int (read_digits 0 s)"
proof -
  obtain c t where s: "s = c # t" using assms(1) by (cases s) auto
  have c: "is_digit c" using assms(2) s by simp
  then have "c \<noteq> CHR ''-''" "c \<noteq> CHR ''+''" by (auto simp: is_digit_def)
  then show ?thesis by (simp add: atoi_def s digit_not_space [OF c])
qed

lemma atoi_fmt_04u: "atoi (fmt_04u n) = int n"
  by (simp add: atoi_digits fmt_04u_digits read_digits_fmt_04u)

end
