(* ===== verification/Double.thy ===== *)
theory Double
  imports Complex_Main CString
begin

text \<open>
  The C \<^verbatim>\<open>double\<close> of the server's time stamp: the values of IEEE binary64, the
  comparison \<^verbatim>\<open>>\<close>, and \<^verbatim>\<open>atof\<close> with all the forms C accepts (decimal and
  hexadecimal numbers, \<^verbatim>\<open>inf\<close>, \<^verbatim>\<open>nan\<close>), rounded to nearest, ties to even. The two
  zeros are one value: the program only compares.
\<close>

section \<open>Values\<close>

datatype double = Fin rat | PInf | MInf | NaN

fun mayor :: "double \<Rightarrow> double \<Rightarrow> bool" where
  "mayor NaN y = False"
| "mayor x NaN = False"
| "mayor (Fin x) (Fin y) = (y < x)"
| "mayor PInf y = (y \<noteq> PInf)"
| "mayor x MInf = (x \<noteq> MInf)"
| "mayor x y = False"

fun opuesto :: "double \<Rightarrow> double" where
  "opuesto (Fin x) = Fin (- x)"
| "opuesto PInf = MInf"
| "opuesto MInf = PInf"
| "opuesto NaN = NaN"

section \<open>Rounding\<close>

definition escala :: "nat \<Rightarrow> int \<Rightarrow> rat" where
  "escala b e = (if 0 \<le> e then of_nat b ^ nat e else 1 / of_nat b ^ nat (- e))"

fun bits :: "nat \<Rightarrow> nat" where
  "bits n = (if n = 0 then 0 else Suc (bits (n div 2)))"

declare bits.simps [simp del]

definition log2_piso :: "rat \<Rightarrow> int" where
  "log2_piso q = (case quotient_of q of (n, d) \<Rightarrow>
     let k = int (bits (nat n)) - int (bits (nat d))
     in if escala 2 k \<le> q then k else k - 1)"

definition redondeo_par :: "rat \<Rightarrow> int" where
  "redondeo_par q = (let m = \<lfloor>q\<rfloor>; r = q - of_int m
     in if r < 1 / 2 then m else if 1 / 2 < r then m + 1 else if even m then m else m + 1)"

text \<open>The double nearest to a non-negative rational.\<close>

definition a_double :: "rat \<Rightarrow> double" where
  "a_double q =
     (if q = 0 then Fin 0
      else let e = max (- 1074) (log2_piso q - 52);
               r = of_int (redondeo_par (q / escala 2 e)) * escala 2 e
           in if 2 ^ 1024 \<le> r then PInf else Fin r)"

section \<open>Reading\<close>

definition digito_base :: "nat \<Rightarrow> char \<Rightarrow> nat option" where
  "digito_base b c =
     (let n = (of_char c :: nat);
          v = (if 48 \<le> n \<and> n \<le> 57 then n - 48
               else if 65 \<le> n \<and> n \<le> 70 then n - 55
               else if 97 \<le> n \<and> n \<le> 102 then n - 87 else b)
      in if v < b then Some v else None)"

text \<open>The value so far, the number of digits read, what is left.\<close>

fun leer_digitos :: "nat \<Rightarrow> nat \<Rightarrow> nat \<Rightarrow> string \<Rightarrow> nat \<times> nat \<times> string" where
  "leer_digitos b acc k [] = (acc, k, [])"
| "leer_digitos b acc k (c # s) = (case digito_base b c of
       None \<Rightarrow> (acc, k, c # s)
     | Some v \<Rightarrow> leer_digitos b (b * acc + v) (Suc k) s)"

text \<open>The digits without the point, how many stand behind it, how many there are, what is left.\<close>

definition mantisa :: "nat \<Rightarrow> string \<Rightarrow> nat \<times> nat \<times> nat \<times> string" where
  "mantisa b s = (case leer_digitos b 0 0 s of (n, k, r) \<Rightarrow>
     case r of
       [] \<Rightarrow> (n, 0, k, r)
     | c # r' \<Rightarrow>
         if c = CHR ''.'' then (case leer_digitos b n 0 r' of (m, f, r2) \<Rightarrow> (m, f, k + f, r2))
         else (n, 0, k, r))"

definition signo :: "string \<Rightarrow> bool \<times> string" where
  "signo s = (case s of
       [] \<Rightarrow> (False, [])
     | c # t \<Rightarrow> if c = CHR ''-'' then (True, t) else if c = CHR ''+'' then (False, t) else (False, s))"

definition exponente :: "char list \<Rightarrow> string \<Rightarrow> int" where
  "exponente letras s = (case s of
       [] \<Rightarrow> 0
     | c # t \<Rightarrow>
         if c \<in> set letras then
           (case signo t of (neg, u) \<Rightarrow> case leer_digitos 10 0 0 u of (e, k, _) \<Rightarrow>
            if neg then - int e else int e)
         else 0)"

definition minuscula :: "char \<Rightarrow> char" where
  "minuscula c = (let n = (of_char c :: nat) in if 65 \<le> n \<and> n \<le> 90 then char_of (n + 32) else c)"

definition atof :: "string \<Rightarrow> double" where
  "atof s = (case signo (dropWhile is_space s) of (neg, t) \<Rightarrow>
     let low = map minuscula t;
         v = (if prefix ''inf'' low then PInf
              else if prefix ''nan'' low then NaN
              else case mantisa 16 (drop 2 t) of (hm, hf, hk, hr) \<Rightarrow>
                if prefix ''0x'' low \<and> 0 < hk
                then a_double (of_nat hm / 16 ^ hf * escala 2 (exponente ''pP'' hr))
                else case mantisa 10 t of (m, f, k, r) \<Rightarrow>
                  if k = 0 then Fin 0
                  else a_double (of_nat m / 10 ^ f * escala 10 (exponente ''eE'' r)))
     in if neg then opuesto v else v)"

section \<open>Integers are read exactly\<close>

lemma escala_pos: "0 < b \<Longrightarrow> 0 < escala b e"
  by (simp add: escala_def)

lemma bits_bounds: "0 < n \<Longrightarrow> 2 ^ (bits n - 1) \<le> n \<and> n < 2 ^ bits n \<and> 0 < bits n"
proof (induction n rule: bits.induct)
  case (1 n)
  show ?case
  proof (cases "n div 2 = 0")
    case True
    then have "n = 1" using 1(2) by auto
    then show ?thesis by (simp add: bits.simps [of "Suc 0"] bits.simps [of 0])
  next
    case False
    then have b: "bits n = Suc (bits (n div 2))" "n \<noteq> 0" by (auto simp: bits.simps [of n])
    have ih: "2 ^ (bits (n div 2) - 1) \<le> n div 2" "n div 2 < 2 ^ bits (n div 2)" "0 < bits (n div 2)"
      using 1(1) b False by auto
    obtain k where k: "bits (n div 2) = Suc k" using ih(3) by (cases "bits (n div 2)") auto
    show ?thesis using ih(1,2) unfolding b(1) k by simp linarith
  qed
qed

lemma log2_entero:
  assumes "0 < n" and "n < 2 ^ k"
  shows "log2_piso (of_nat n) < int k"
proof -
  have q: "quotient_of (of_nat n) = (int n, 1)"
    using quotient_of_int [of "int n"] by simp
  have "bits 1 = 1" by (simp add: bits.simps [of "Suc 0"] bits.simps [of 0])
  moreover have "bits n \<le> k"
  proof (rule ccontr)
    assume "\<not> bits n \<le> k"
    then have "(2::nat) ^ k \<le> 2 ^ (bits n - 1)" by (intro power_increasing) auto
    also have "\<dots> \<le> n" using bits_bounds [OF assms(1)] by blast
    finally show False using assms(2) by simp
  qed
  ultimately show ?thesis using bits_bounds [OF assms(1)]
    by (auto simp: log2_piso_def q Let_def)
qed

lemma redondeo_par_of_int: "redondeo_par (of_int m) = m"
  by (simp add: redondeo_par_def)

lemma a_double_entero:
  assumes "n < 2 ^ 53"
  shows "a_double (of_nat n) = Fin (of_nat n)"
proof (cases "n = 0")
  case True
  then show ?thesis by (simp add: a_double_def)
next
  case False
  define e where "e = max (- 1074) (log2_piso (of_nat n) - 52)"
  have "e \<le> 0" using log2_entero [of n 53] False assms by (simp add: e_def)
  then have "of_nat n / escala 2 e = of_int (int n * 2 ^ nat (- e))"
    by (cases "e = 0") (simp_all add: escala_def)
  then have "of_int (redondeo_par (of_nat n / escala 2 e)) * escala 2 e
      = of_int (int n * 2 ^ nat (- e)) * escala 2 e"
    by (simp only: redondeo_par_of_int)
  also have "\<dots> = of_nat n"
    using \<open>e \<le> 0\<close> by (cases "e = 0") (simp_all add: escala_def)
  finally have r: "of_int (redondeo_par (of_nat n / escala 2 e)) * escala 2 e = of_nat n" .
  have "(of_nat n :: rat) < 2 ^ 53" using assms by (metis of_nat_less_iff of_nat_numeral of_nat_power)
  also have "(2 :: rat) ^ 53 \<le> 2 ^ 1024" by (intro power_increasing) auto
  finally show ?thesis
    using False r by (simp add: a_double_def Let_def flip: e_def)
qed

section \<open>Decimal numbers\<close>

lemma digito_base_digit: "is_digit c \<Longrightarrow> digito_base 10 c = Some (digit_val c)"
  by (auto simp: digito_base_def is_digit_def digit_val_def Let_def)

lemma digito_base_otro: "\<not> is_digit c \<Longrightarrow> digito_base 10 c = None"
  by (auto simp: digito_base_def is_digit_def Let_def)

lemma leer_digitos_append:
  assumes "\<And>c. c \<in> set s \<Longrightarrow> is_digit c" and "t = [] \<or> \<not> is_digit (hd t)"
  shows "leer_digitos 10 acc k (s @ t) = (read_digits acc s, k + length s, t)"
  using assms
proof (induction s arbitrary: acc k)
  case Nil
  then show ?case by (cases t) (simp_all add: digito_base_otro)
next
  case (Cons c s)
  then show ?case by (simp add: digito_base_digit)
qed

text \<open>The value of the digits \<open>ds\<close> before the point and \<open>fs\<close> behind it.\<close>

definition decimal :: "string \<Rightarrow> string \<Rightarrow> rat" where
  "decimal ds fs = of_nat (read_digits 0 (ds @ fs)) / 10 ^ length fs"

lemma atof_decimal:
  assumes "ds \<noteq> []" and d: "\<And>c. c \<in> set ds \<Longrightarrow> is_digit c" and "\<And>c. c \<in> set fs \<Longrightarrow> is_digit c"
    and r: "r = [] \<or> \<not> is_digit (hd r) \<and> hd r \<notin> set ''eE''"
  shows "atof (ds @ CHR ''.'' # fs @ r) = a_double (decimal ds fs)"
proof -
  let ?s = "ds @ CHR ''.'' # fs @ r"
  obtain c t where ds: "ds = c # t" using assms(1) by (cases ds) auto
  then have c: "is_digit c" using d by simp
  then have n: "c \<noteq> CHR ''-''" "c \<noteq> CHR ''+''" "\<not> is_space c" "minuscula c \<noteq> CHR ''i''"
      "minuscula c \<noteq> CHR ''n''"
    by (auto simp: is_digit_def is_space_def minuscula_def Let_def)
  have x: "\<not> prefix ''0x'' (map minuscula (ds @ CHR ''.'' # fs @ r))"
  proof (cases t)
    case (Cons c' t')
    then have "is_digit c'" using d ds by simp
    then have "minuscula c' \<noteq> CHR ''x''" by (auto simp: is_digit_def minuscula_def Let_def)
    with Cons ds show ?thesis by simp
  qed (simp add: ds minuscula_def)
  have "leer_digitos 10 0 0 (ds @ CHR ''.'' # fs @ r) = (read_digits 0 ds, length ds, CHR ''.'' # fs @ r)"
    using leer_digitos_append [OF d, where acc = 0 and k = 0 and t = "CHR ''.'' # fs @ r"] by (simp add: is_digit_def)
  moreover have "leer_digitos 10 (read_digits 0 ds) 0 (fs @ r) = (read_digits 0 (ds @ fs), length fs, r)"
    using leer_digitos_append [OF assms(3), where acc = "read_digits 0 ds" and k = 0 and t = r] r
    by (auto simp: read_digits_append [OF d])
  ultimately have "mantisa 10 (ds @ CHR ''.'' # fs @ r) =
      (read_digits 0 (ds @ fs), length fs, length ds + length fs, r)"
    by (simp add: mantisa_def)
  moreover have "exponente ''eE'' r = 0" using r by (cases r) (auto simp: exponente_def)
  ultimately have m: "mantisa 10 ?s = (read_digits 0 (ds @ fs), length fs, length ds + length fs, r)"
      "exponente ''eE'' r = 0"
    by simp_all
  have s: "signo (dropWhile is_space ?s) = (False, ?s)" "\<not> prefix ''inf'' (map minuscula ?s)"
      "\<not> prefix ''nan'' (map minuscula ?s)" "0 < length ds"
    using n by (simp_all add: ds signo_def)
  show ?thesis
    unfolding atof_def s(1) decimal_def using x s(2-4) m
    by (simp add: escala_def split: prod.split del: list.map map_append)
qed

end
