(* ===== verification/Usuarios.thy ===== *)
theory Usuarios
  imports CString
begin

text \<open>
  The user table of \<^verbatim>\<open>validacion.c\<close>: the record \<^verbatim>\<open>PinUsuario_t\<close> (\<^verbatim>\<open>espAT.h\<close>), the
  table \<^verbatim>\<open>listaPins\<close> of \<^verbatim>\<open>MAX_PINS\<close> entries, and the operations on it as functions
  from the table to the result and the new table. A character array of the
  record is the text it holds; a copy that does not fit is a \<open>BufferOverflow\<close>.
  The functions that also talk to the server are in theory Validacion.
\<close>

section \<open>Data\<close>

definition PIN_LENGTH :: nat where "PIN_LENGTH = 5"
definition MAX_PINS :: nat where "MAX_PINS = 99"

record PinUsuario =
  codigo :: string  \<comment> \<open>\<^verbatim>\<open>char[PIN_LENGTH + 1]\<close>\<close>
  activo :: bool
  rfid :: string    \<comment> \<open>\<^verbatim>\<open>char[20]\<close>\<close>
  huella :: string  \<comment> \<open>\<^verbatim>\<open>char[5]\<close>\<close>
  tag :: string     \<comment> \<open>\<^verbatim>\<open>char[20]\<close>\<close>

type_synonym tabla = "PinUsuario list"

definition usuario_cero :: PinUsuario where
  "usuario_cero = \<lparr>codigo = [], activo = False, rfid = [], huella = [], tag = []\<rparr>"

definition listaPins_init :: tabla where
  "listaPins_init =
     [\<lparr>codigo = ''11111'', activo = True, rfid = '''', huella = '''', tag = ''master''\<rparr>,
      \<lparr>codigo = ''22222'', activo = True, rfid = ''9876543210FF'', huella = ''0001'', tag = ''andy''\<rparr>,
      \<lparr>codigo = ''33333'', activo = True, rfid = ''1234567890AB'', huella = ''0002'', tag = ''pepe''\<rparr>,
      \<lparr>codigo = ''44444'', activo = True, rfid = ''1211899891AA'', huella = ''0003'', tag = ''juan''\<rparr>,
      \<lparr>codigo = ''55555'', activo = True, rfid = '''', huella = ''0004'', tag = ''invitado''\<rparr>,
      \<lparr>codigo = ''66666'', activo = True, rfid = '''', huella = '''', tag = ''usuario6''\<rparr>]
     @ replicate (MAX_PINS - 6) usuario_cero"

section \<open>Operations\<close>

text \<open>The loops look for the first entry that matches, by PIN, card or fingerprint.\<close>

definition es_pin :: "string \<Rightarrow> PinUsuario \<Rightarrow> bool" where
  "es_pin pin u \<longleftrightarrow> activo u \<and> codigo u = pin"

definition es_rfid :: "string \<Rightarrow> PinUsuario \<Rightarrow> bool" where
  "es_rfid r u \<longleftrightarrow> activo u \<and> rfid u \<noteq> [] \<and> rfid u = r"

definition es_huella :: "string \<Rightarrow> PinUsuario \<Rightarrow> bool" where
  "es_huella h u \<longleftrightarrow> activo u \<and> huella u \<noteq> [] \<and> huella u = h"

definition actualizarBaseDeDatos :: "tabla \<Rightarrow> int \<Rightarrow> fault + tabla" where
  "actualizarBaseDeDatos nuevosUsuarios cantidad =
     (let cantidad = (if cantidad > int MAX_PINS then int MAX_PINS else cantidad)
      in if cantidad < 0 \<or> int (length nuevosUsuarios) < cantidad then Inl OutOfBounds
         else Inr (take (nat cantidad) nuevosUsuarios
                   @ replicate (MAX_PINS - nat cantidad) usuario_cero))"

fun validarPin :: "tabla \<Rightarrow> string \<Rightarrow> bool" where
  "validarPin [] pin = False"
| "validarPin (u # us) pin = (if es_pin pin u then True else validarPin us pin)"

fun obtenerTagPorPin :: "tabla \<Rightarrow> string \<Rightarrow> string option" where
  "obtenerTagPorPin [] pin = None"
| "obtenerTagPorPin (u # us) pin =
     (if es_pin pin u then (if 0 < length (tag u) then Some (tag u) else Some ''usuario'')
      else obtenerTagPorPin us pin)"

text \<open>\<open>Inl\<close>: undefined behaviour. \<open>Inr\<close>: the returned truth value and the new table.\<close>

type_synonym 'a op = "fault + 'a \<times> tabla"

fun agregarPin :: "tabla \<Rightarrow> string \<Rightarrow> bool op" where
  "agregarPin [] nuevoPin = Inr (False, [])"
| "agregarPin (u # us) nuevoPin =
     (if \<not> activo u then
        (if length nuevoPin < PIN_LENGTH + 1
         then Inr (True, u\<lparr>codigo := nuevoPin, activo := True\<rparr> # us) else Inl BufferOverflow)
      else map_sum id (apsnd (\<lambda>us'. u # us')) (agregarPin us nuevoPin))"

fun asociarRFIDaPin :: "tabla \<Rightarrow> string \<Rightarrow> string \<Rightarrow> bool op" where
  "asociarRFIDaPin [] pin r = Inr (False, [])"
| "asociarRFIDaPin (u # us) pin r =
     (if es_pin pin u then
        (if length r < 20 then Inr (True, u\<lparr>rfid := r\<rparr> # us) else Inl BufferOverflow)
      else map_sum id (apsnd (\<lambda>us'. u # us')) (asociarRFIDaPin us pin r))"

text \<open>\<^verbatim>\<open>strncpy(.., 4)\<close> and a terminator at index 4.\<close>

fun asociarHuellaaPin :: "tabla \<Rightarrow> string \<Rightarrow> string \<Rightarrow> bool \<times> tabla" where
  "asociarHuellaaPin [] pin idHuella = (False, [])"
| "asociarHuellaaPin (u # us) pin idHuella =
     (if es_pin pin u then (True, u\<lparr>huella := take 4 idHuella\<rparr> # us)
      else apsnd (\<lambda>us'. u # us') (asociarHuellaaPin us pin idHuella))"

fun validarRFID :: "tabla \<Rightarrow> string \<Rightarrow> bool" where
  "validarRFID [] r = False"
| "validarRFID (u # us) r = (if es_rfid r u then True else validarRFID us r)"

fun obtenerTagPorRFID :: "tabla \<Rightarrow> string \<Rightarrow> string option" where
  "obtenerTagPorRFID [] r = None"
| "obtenerTagPorRFID (u # us) r =
     (if es_rfid r u then (if 0 < length (tag u) then Some (tag u) else None)
      else obtenerTagPorRFID us r)"

fun obtenerTagPorHuella :: "tabla \<Rightarrow> string \<Rightarrow> string option" where
  "obtenerTagPorHuella [] h = None"
| "obtenerTagPorHuella (u # us) h =
     (if es_huella h u then (if 0 < length (tag u) then Some (tag u) else Some ''usuario'')
      else obtenerTagPorHuella us h)"

fun validarHuella :: "tabla \<Rightarrow> string \<Rightarrow> bool" where
  "validarHuella [] h = False"
| "validarHuella (u # us) h = (if es_huella h u then True else validarHuella us h)"

text \<open>
  The automatic identifier: the first number from 1 on whose four-digit text no
  active user holds. The search is a loop without a bound in the source; it
  ends because every number it skips is held by an entry of the table.
\<close>

definition id_en_uso :: "tabla \<Rightarrow> nat \<Rightarrow> bool" where
  "id_en_uso us n \<longleftrightarrow> list_ex (\<lambda>u. activo u \<and> huella u = fmt_04u n) us"

lemma ids_en_uso_finite: "finite {n. id_en_uso us n}"
proof -
  have "fmt_04u ` {n. id_en_uso us n} \<subseteq> huella ` set us"
    by (auto simp: id_en_uso_def list_ex_iff intro: rev_image_eqI)
  then have "finite (fmt_04u ` {n. id_en_uso us n})" by (rule finite_subset) simp
  then show ?thesis by (rule finite_imageD) (simp add: inj_on_def fmt_04u_inj)
qed

function idLibre_desde :: "tabla \<Rightarrow> nat \<Rightarrow> nat" where
  "idLibre_desde us n = (if id_en_uso us n then idLibre_desde us (Suc n) else n)"
  by pat_completeness auto
termination
proof (relation "measure (\<lambda>(us, n). card {k. n \<le> k \<and> id_en_uso us k})", simp_all)
  fix us n
  assume "id_en_uso us n"
  then have "{k. Suc n \<le> k \<and> id_en_uso us k} \<subset> {k. n \<le> k \<and> id_en_uso us k}"
    by (metis (mono_tags, lifting) CollectI Suc_leD mem_Collect_eq not_less_eq_eq order_refl
        psubsetI subsetI)
  moreover have "finite {k. n \<le> k \<and> id_en_uso us k}"
    by (rule finite_subset [OF _ ids_en_uso_finite [of us]]) auto
  ultimately show "card {k. Suc n \<le> k \<and> id_en_uso us k} < card {k. n \<le> k \<and> id_en_uso us k}"
    by (rule psubset_card_mono [rotated])
qed

declare idLibre_desde.simps [simp del]

definition store5 :: "string \<Rightarrow> fault + string option" where
  "store5 s = (if length s < 5 then Inr (Some s) else Inl BufferOverflow)"

text \<open>
  The result is written into a caller's \<^verbatim>\<open>char[5]\<close>; \<open>Inr None\<close> is \<^verbatim>\<open>false\<close>.
  The inner loop over all users reads the whole table, not the rest of it.
\<close>

fun obtenerHuella_desde :: "tabla \<Rightarrow> tabla \<Rightarrow> string \<Rightarrow> fault + string option" where
  "obtenerHuella_desde todos [] pin = Inr None"
| "obtenerHuella_desde todos (u # us) pin =
     (if es_pin pin u then
        (if 0 < length (huella u) then store5 (huella u)
         else store5 (fmt_04u (idLibre_desde todos 1)))
      else obtenerHuella_desde todos us pin)"

definition obtenerHuellaAsignadaPorPin :: "tabla \<Rightarrow> string \<Rightarrow> fault + string option" where
  "obtenerHuellaAsignadaPorPin us pin = obtenerHuella_desde us us pin"

definition esPinMaster :: "tabla \<Rightarrow> string \<Rightarrow> bool" where
  "esPinMaster us pin = (case us of [] \<Rightarrow> False | u # _ \<Rightarrow> es_pin pin u)"

fun eliminarHuellaLocal :: "tabla \<Rightarrow> string \<Rightarrow> bool \<times> tabla" where
  "eliminarHuellaLocal [] pin = (False, [])"
| "eliminarHuellaLocal (u # us) pin =
     (if es_pin pin u then (True, u\<lparr>huella := []\<rparr> # us)
      else apsnd (\<lambda>us'. u # us') (eliminarHuellaLocal us pin))"

definition eliminarTodasHuellasLocal :: "tabla \<Rightarrow> tabla" where
  "eliminarTodasHuellasLocal us = map (\<lambda>u. u\<lparr>huella := []\<rparr>) us"

section \<open>Well-formed tables\<close>

definition wf_usuario :: "PinUsuario \<Rightarrow> bool" where
  "wf_usuario u \<longleftrightarrow> length (codigo u) \<le> PIN_LENGTH \<and> length (rfid u) \<le> 19 \<and>
     length (huella u) \<le> 4 \<and> length (tag u) \<le> 19"

definition wf_tabla :: "tabla \<Rightarrow> bool" where
  "wf_tabla us \<longleftrightarrow> length us = MAX_PINS \<and> list_all wf_usuario us"

text \<open>No two entries hold the same fingerprint slot.\<close>

definition huellas_unicas :: "tabla \<Rightarrow> bool" where
  "huellas_unicas us \<longleftrightarrow> distinct (map huella (filter (\<lambda>u. activo u \<and> huella u \<noteq> []) us))"

section \<open>The first entry with a PIN\<close>

lemma primero:
  assumes "validarPin us pin"
  obtains xs u ys where "us = xs @ u # ys" and "es_pin pin u" and "\<forall>x \<in> set xs. \<not> es_pin pin x"
proof -
  from assms have "\<exists>u \<in> set us. es_pin pin u" by (induction us) (auto split: if_splits)
  from split_list_first_prop [OF this] show thesis using that by blast
qed

lemma sin_pin: "\<not> validarPin us pin \<longleftrightarrow> (\<forall>u \<in> set us. \<not> es_pin pin u)"
  by (induction us) auto

lemma validarPin_append: "validarPin (xs @ ys) pin \<longleftrightarrow> validarPin xs pin \<or> validarPin ys pin"
  by (induction xs) auto

text \<open>What each operation does when the first entry with the PIN is known.\<close>

lemma asociarHuella_primero:
  "es_pin pin u \<Longrightarrow> \<forall>x \<in> set xs. \<not> es_pin pin x \<Longrightarrow>
   asociarHuellaaPin (xs @ u # ys) pin h = (True, xs @ u\<lparr>huella := take 4 h\<rparr> # ys)"
  by (induction xs) auto

lemma eliminarHuella_primero:
  "es_pin pin u \<Longrightarrow> \<forall>x \<in> set xs. \<not> es_pin pin x \<Longrightarrow>
   eliminarHuellaLocal (xs @ u # ys) pin = (True, xs @ u\<lparr>huella := []\<rparr> # ys)"
  by (induction xs) auto

lemma asociarRFID_primero:
  "es_pin pin u \<Longrightarrow> \<forall>x \<in> set xs. \<not> es_pin pin x \<Longrightarrow> length r < 20 \<Longrightarrow>
   asociarRFIDaPin (xs @ u # ys) pin r = Inr (True, xs @ u\<lparr>rfid := r\<rparr> # ys)"
  by (induction xs) auto

lemma obtenerHuella_primero:
  "es_pin pin u \<Longrightarrow> \<forall>x \<in> set xs. \<not> es_pin pin x \<Longrightarrow>
   obtenerHuella_desde todos (xs @ u # ys) pin =
     (if huella u \<noteq> [] then store5 (huella u) else store5 (fmt_04u (idLibre_desde todos 1)))"
  by (induction xs) auto

lemma obtenerTag_primero:
  "es_pin pin u \<Longrightarrow> \<forall>x \<in> set xs. \<not> es_pin pin x \<Longrightarrow>
   obtenerTagPorPin (xs @ u # ys) pin = Some (if tag u \<noteq> [] then tag u else ''usuario'')"
  by (induction xs) auto

lemmas primero_simps = asociarHuella_primero eliminarHuella_primero asociarRFID_primero
  obtenerHuella_primero obtenerTag_primero

lemma asociarHuella_falla: "\<not> validarPin us pin \<Longrightarrow> asociarHuellaaPin us pin h = (False, us)"
  by (induction us) (auto split: if_splits)

lemma eliminarHuella_falla: "\<not> validarPin us pin \<Longrightarrow> eliminarHuellaLocal us pin = (False, us)"
  by (induction us) (auto split: if_splits)

lemma asociarRFID_falla: "\<not> validarPin us pin \<Longrightarrow> asociarRFIDaPin us pin r = Inr (False, us)"
  by (induction us) (auto split: if_splits)

lemma obtenerHuella_falla: "\<not> validarPin us pin \<Longrightarrow> obtenerHuella_desde todos us pin = Inr None"
  by (induction us) (auto split: if_splits)

lemmas falla_simps = asociarHuella_falla eliminarHuella_falla asociarRFID_falla obtenerHuella_falla

lemma find_primero: "P u \<Longrightarrow> \<forall>x \<in> set xs. \<not> P x \<Longrightarrow> find P (xs @ u # ys) = Some u"
  by (induction xs) auto

section \<open>Credentials\<close>

text \<open>
  PIN, card and fingerprint share one contract: a credential is valid when some
  entry matches it, and its owner's name is the tag of the first such entry.
  They differ in what a matching entry without a tag gets.
\<close>

locale credencial =
  fixes coincide :: "string \<Rightarrow> PinUsuario \<Rightarrow> bool"
    and valida :: "tabla \<Rightarrow> string \<Rightarrow> bool"
    and tag_de :: "tabla \<Rightarrow> string \<Rightarrow> string option"
    and sin_tag :: "string option"
  assumes valida_iff: "valida us c \<longleftrightarrow> list_ex (coincide c) us"
    and tag_de_find: "tag_de us c = (case find (coincide c) us of None \<Rightarrow> None
          | Some u \<Rightarrow> if tag u \<noteq> [] then Some (tag u) else sin_tag)"
    and coincide_activo: "coincide c u \<Longrightarrow> activo u"
begin

lemma tag_valida: "tag_de us c = Some t \<Longrightarrow> valida us c"
  by (auto simp: valida_iff tag_de_find list_ex_iff find_Some_iff split: option.splits)

lemma valida_tag:
  assumes "valida us c" and "sin_tag \<noteq> None"
  shows "\<exists>t. tag_de us c = Some t"
proof -
  from assms(1) obtain u where "find (coincide c) us = Some u"
    by (cases "find (coincide c) us") (auto simp: valida_iff list_ex_iff find_None_iff)
  with assms(2) show ?thesis by (auto simp: tag_de_find)
qed

lemma valida_activo: "valida us c \<Longrightarrow> \<exists>u \<in> set us. activo u \<and> coincide c u"
  using coincide_activo by (auto simp: valida_iff list_ex_iff)

lemma tag_duenio:
  "tag_de us c = Some t \<Longrightarrow> \<exists>u \<in> set us. activo u \<and> coincide c u \<and> (t = tag u \<or> sin_tag = Some t)"
  using coincide_activo
  by (fastforce simp: tag_de_find find_Some_iff split: option.splits if_splits)

lemma sin_activos: "(\<And>u. u \<in> set us \<Longrightarrow> \<not> activo u) \<Longrightarrow> \<not> valida us c \<and> tag_de us c = None"
proof -
  assume inact: "\<And>u. u \<in> set us \<Longrightarrow> \<not> activo u"
  then have "\<not> valida us c" using valida_activo by blast
  moreover have "tag_de us c = None" using tag_valida calculation by (cases "tag_de us c") auto
  ultimately show ?thesis by simp
qed

end

interpretation cred_pin: credencial es_pin validarPin obtenerTagPorPin "Some ''usuario''"
proof unfold_locales
  fix us c
  show "validarPin us c \<longleftrightarrow> list_ex (es_pin c) us" by (induction us) auto
  show "obtenerTagPorPin us c = (case find (es_pin c) us of None \<Rightarrow> None
          | Some u \<Rightarrow> if tag u \<noteq> [] then Some (tag u) else Some ''usuario'')"
    by (induction us) auto
qed (simp add: es_pin_def)

interpretation cred_rfid: credencial es_rfid validarRFID obtenerTagPorRFID None
proof unfold_locales
  fix us c
  show "validarRFID us c \<longleftrightarrow> list_ex (es_rfid c) us" by (induction us) auto
  show "obtenerTagPorRFID us c = (case find (es_rfid c) us of None \<Rightarrow> None
          | Some u \<Rightarrow> if tag u \<noteq> [] then Some (tag u) else None)"
    by (induction us) auto
qed (simp add: es_rfid_def)

interpretation cred_huella: credencial es_huella validarHuella obtenerTagPorHuella "Some ''usuario''"
proof unfold_locales
  fix us c
  show "validarHuella us c \<longleftrightarrow> list_ex (es_huella c) us" by (induction us) auto
  show "obtenerTagPorHuella us c = (case find (es_huella c) us of None \<Rightarrow> None
          | Some u \<Rightarrow> if tag u \<noteq> [] then Some (tag u) else Some ''usuario'')"
    by (induction us) auto
qed (simp add: es_huella_def)

section \<open>The automatic identifier\<close>

lemma idLibre_paso: "id_en_uso us n \<Longrightarrow> idLibre_desde us n = idLibre_desde us (Suc n)"
  by (simp add: idLibre_desde.simps [of us n])

lemma idLibre_fin: "\<not> id_en_uso us n \<Longrightarrow> idLibre_desde us n = n"
  by (simp add: idLibre_desde.simps [of us n])

lemma idLibre_libre: "\<not> id_en_uso us (idLibre_desde us n)"
proof (induction us n rule: idLibre_desde.induct)
  case (1 us n)
  then show ?case by (cases "id_en_uso us n") (simp_all add: idLibre_desde.simps [of us n])
qed

lemma idLibre_ge: "n \<le> idLibre_desde us n"
proof (induction us n rule: idLibre_desde.induct)
  case (1 us n)
  then show ?case by (cases "id_en_uso us n") (auto simp: idLibre_desde.simps [of us n])
qed

lemma idLibre_minimo: "n \<le> k \<Longrightarrow> k < idLibre_desde us n \<Longrightarrow> id_en_uso us k"
proof (induction us n rule: idLibre_desde.induct)
  case (1 us n)
  show ?case
  proof (cases "id_en_uso us n")
    case True
    with 1 show ?thesis
      by (cases "k = n") (auto simp: idLibre_desde.simps [of us n])
  next
    case False
    with "1.prems" show ?thesis by (simp add: idLibre_desde.simps [of us n])
  qed
qed

text \<open>Every number below it is held by some entry, and no entry holds two.\<close>

lemma idLibre_cota: "idLibre_desde us 1 \<le> length (filter activo us) + 1"
proof -
  let ?k = "idLibre_desde us 1"
  have "fmt_04u ` {1..<?k} \<subseteq> huella ` set (filter activo us)"
  proof
    fix s assume "s \<in> fmt_04u ` {1..<?k}"
    then obtain n where "1 \<le> n" "n < ?k" and s: "s = fmt_04u n" by auto
    then have "id_en_uso us n" using idLibre_minimo by blast
    then show "s \<in> huella ` set (filter activo us)"
      by (auto simp: id_en_uso_def list_ex_iff s intro: rev_image_eqI)
  qed
  then have "card (fmt_04u ` {1..<?k}) \<le> card (huella ` set (filter activo us))"
    by (rule card_mono [rotated]) simp
  also have "\<dots> \<le> length (filter activo us)"
    by (rule le_trans [OF card_image_le card_length]) simp
  finally have "?k - 1 \<le> length (filter activo us)"
    by (simp add: card_image inj_on_def fmt_04u_inj)
  then show ?thesis by simp
qed

lemma activos_cota: "wf_tabla us \<Longrightarrow> length (filter activo us) \<le> 99"
  using length_filter_le [of activo us] by (simp add: wf_tabla_def MAX_PINS_def)

lemma idLibre_rango: "wf_tabla us \<Longrightarrow> 1 \<le> idLibre_desde us 1 \<and> idLibre_desde us 1 \<le> 100"
  using idLibre_cota [of us] idLibre_ge [of 1 us] activos_cota [of us] by simp

lemma obtenerHuella_sin_fallo:
  assumes "wf_tabla us"
  obtains h where "obtenerHuellaAsignadaPorPin us pin = Inr h" and "h \<noteq> None \<longleftrightarrow> validarPin us pin"
    and "\<And>i. h = Some i \<Longrightarrow> length i \<le> 4"
proof (cases "validarPin us pin")
  case True
  then obtain xs u ys where us: "us = xs @ u # ys" and u: "es_pin pin u" "\<forall>x \<in> set xs. \<not> es_pin pin x"
    by (rule primero)
  have "length (fmt_04u (idLibre_desde us 1)) = 4"
    by (rule fmt_04u_length) (use idLibre_rango [OF assms] in simp)
  moreover have "length (huella u) \<le> 4" using assms us by (simp add: wf_tabla_def wf_usuario_def)
  moreover have "obtenerHuellaAsignadaPorPin us pin =
    (if huella u \<noteq> [] then store5 (huella u) else store5 (fmt_04u (idLibre_desde us 1)))"
    unfolding obtenerHuellaAsignadaPorPin_def
    by (subst (2) us) (rule obtenerHuella_primero [OF u])
  ultimately show thesis
    using that [of "Some (huella u)"] that [of "Some (fmt_04u (idLibre_desde us 1))"] True
    by (auto simp: store5_def split: if_splits)
next
  case False
  then show thesis
    using that [of None] by (simp add: obtenerHuellaAsignadaPorPin_def obtenerHuella_falla)
qed

section \<open>Properties\<close>

text \<open>The fingerprint slot of a valid PIN. For a well-formed table the search for a free
  identifier ends and its result fits the caller's five-character buffer: a user who already
  has a slot gets it back; any other user gets the four digits of the lowest number from 1 on
  that no active user holds, which is at most 100.\<close>

lemma huella_asignada:
  assumes "wf_tabla us" and "us = xs @ u # ys" and "es_pin pin u"
    and "\<forall>x \<in> set xs. \<not> es_pin pin x"
  shows "if huella u \<noteq> [] then obtenerHuellaAsignadaPorPin us pin = Inr (Some (huella u))
     else \<exists>k. 1 \<le> k \<and> k \<le> 100 \<and>
       obtenerHuellaAsignadaPorPin us pin = Inr (Some (fmt_04u k)) \<and>
       \<not> id_en_uso us k \<and> (\<forall>j. 1 \<le> j \<and> j < k \<longrightarrow> id_en_uso us j)"
proof -
  have "wf_usuario u" using assms(1,2) by (simp add: wf_tabla_def)
  moreover have r: "1 \<le> idLibre_desde us 1" "idLibre_desde us 1 \<le> 100"
    using idLibre_rango [OF assms(1)] by auto
  moreover have "length (fmt_04u (idLibre_desde us 1)) = 4"
    by (rule fmt_04u_length) (use r in simp)
  moreover have "obtenerHuellaAsignadaPorPin us pin =
    (if huella u \<noteq> [] then store5 (huella u) else store5 (fmt_04u (idLibre_desde us 1)))"
    unfolding obtenerHuellaAsignadaPorPin_def
    by (subst (2) assms(2)) (rule obtenerHuella_primero [OF assms(3,4)])
  ultimately show ?thesis
    using idLibre_libre [of us 1] idLibre_minimo [of 1 _ us]
    by (auto simp: store5_def wf_usuario_def)
qed

lemma huella_asignada_witness:
  "if huella (listaPins_init ! 5) \<noteq> []
   then obtenerHuellaAsignadaPorPin listaPins_init ''66666'' = Inr (Some (huella (listaPins_init ! 5)))
   else \<exists>k. 1 \<le> k \<and> k \<le> 100 \<and>
       obtenerHuellaAsignadaPorPin listaPins_init ''66666'' = Inr (Some (fmt_04u k)) \<and>
       \<not> id_en_uso listaPins_init k \<and> (\<forall>j. 1 \<le> j \<and> j < k \<longrightarrow> id_en_uso listaPins_init j)"
proof (rule huella_asignada)
  show "wf_tabla listaPins_init"
    by (simp add: wf_tabla_def listaPins_init_def MAX_PINS_def wf_usuario_def usuario_cero_def
        PIN_LENGTH_def list_all_iff)
  show "listaPins_init = take 5 listaPins_init @ listaPins_init ! 5 # drop 6 listaPins_init"
    by (simp add: listaPins_init_def)
  show "es_pin ''66666'' (listaPins_init ! 5)"
    by (simp add: listaPins_init_def es_pin_def)
  show "\<forall>x \<in> set (take 5 listaPins_init). \<not> es_pin ''66666'' x"
    by (simp add: listaPins_init_def es_pin_def)
qed

text \<open>C25: Registering a fingerprint keeps the slots of the active users apart. If no two active
  users share a slot, then enrolling the slot that \<^verbatim>\<open>obtenerHuellaAsignadaPorPin\<close> gives for a
  PIN and storing it with \<^verbatim>\<open>asociarHuellaaPin\<close> succeeds, keeps the table well-formed and the
  slots apart, and the same slot is then given for the PIN.\<close>

theorem registro_huella_unica:
  assumes "wf_tabla us" and "huellas_unicas us"
    and "obtenerHuellaAsignadaPorPin us pin = Inr (Some h)"
  shows "\<exists>us'. asociarHuellaaPin us pin h = (True, us') \<and> wf_tabla us' \<and> huellas_unicas us' \<and>
     obtenerHuellaAsignadaPorPin us' pin = Inr (Some h)"
proof -
  have "validarPin us pin"
    using assms(3) obtenerHuella_falla [of us pin us]
    by (auto simp: obtenerHuellaAsignadaPorPin_def)
  then obtain xs u ys where us: "us = xs @ u # ys" and u: "es_pin pin u"
    and xs: "\<forall>x \<in> set xs. \<not> es_pin pin x" by (rule primero)
  let ?u = "u\<lparr>huella := take 4 h\<rparr>"
  have u': "es_pin pin ?u" using u by (simp add: es_pin_def)
  have res: "(if huella u \<noteq> [] then store5 (huella u) else store5 (fmt_04u (idLibre_desde us 1)))
     = Inr (Some h)"
    using assms(3) obtenerHuella_primero [OF u xs, of us ys]
    by (simp add: obtenerHuellaAsignadaPorPin_def us)
  then have h: "take 4 h = h" "h \<noteq> []" "length h \<le> 4"
    by (auto simp: store5_def split: if_splits)
  have "huellas_unicas (xs @ ?u # ys)"
  proof (cases "huella u = []")
    case False
    with res have "h = huella u" by (simp add: store5_def split: if_splits)
    then have "?u = u" using h(1) by simp
    then show ?thesis using assms(2) us by simp
  next
    case True
    with res have hk: "h = fmt_04u (idLibre_desde us 1)" by (simp add: store5_def split: if_splits)
    have "\<not> id_en_uso us (idLibre_desde us 1)" by (rule idLibre_libre)
    then have "\<forall>v \<in> set us. activo v \<longrightarrow> huella v \<noteq> h"
      by (auto simp: hk id_en_uso_def list_ex_iff)
    then show ?thesis
      using assms(2) True h by (auto simp: us huellas_unicas_def)
  qed
  moreover have "wf_tabla (xs @ ?u # ys)"
    using assms(1) h(3) by (simp add: us wf_tabla_def wf_usuario_def)
  moreover have "obtenerHuellaAsignadaPorPin (xs @ ?u # ys) pin = Inr (Some h)"
    unfolding obtenerHuellaAsignadaPorPin_def
    by (subst obtenerHuella_primero [OF u' xs]) (use h in \<open>simp add: store5_def\<close>)
  ultimately show ?thesis using asociarHuella_primero [OF u xs] by (auto simp: us)
qed

text \<open>The table the firmware starts with.\<close>

lemma wf_listaPins_init: "wf_tabla listaPins_init"
  by (simp add: wf_tabla_def listaPins_init_def MAX_PINS_def wf_usuario_def usuario_cero_def
      PIN_LENGTH_def list_all_iff)

lemma unicas_listaPins_init: "huellas_unicas listaPins_init"
  by (simp add: huellas_unicas_def listaPins_init_def usuario_cero_def)

lemma id_en_uso_init:
  "id_en_uso listaPins_init n \<longleftrightarrow>
     fmt_04u n = ''0001'' \<or> fmt_04u n = ''0002'' \<or> fmt_04u n = ''0003'' \<or> fmt_04u n = ''0004''"
  by (auto simp: id_en_uso_def listaPins_init_def list_ex_iff usuario_cero_def)

lemma fmt_04u_small:
  "n < 10 \<Longrightarrow> fmt_04u n = ''000'' @ [digit n]"
  by (simp add: fmt_04u_def fmt_u.simps [of n] numeral_3_eq_3)

lemma idLibre_init: "idLibre_desde listaPins_init (Suc 0) = 5"
  by (simp add: idLibre_paso idLibre_fin id_en_uso_init fmt_04u_small numeral_2_eq_2 [symmetric])

theorem registro_huella_unica_witness:
  "\<exists>us'. asociarHuellaaPin listaPins_init ''66666'' ''0005'' = (True, us') \<and> wf_tabla us' \<and>
     huellas_unicas us' \<and> obtenerHuellaAsignadaPorPin us' ''66666'' = Inr (Some ''0005'')"
proof (rule registro_huella_unica [OF wf_listaPins_init unicas_listaPins_init])
  show "obtenerHuellaAsignadaPorPin listaPins_init ''66666'' = Inr (Some ''0005'')"
    unfolding obtenerHuellaAsignadaPorPin_def
    by (subst (2) listaPins_init_def)
      (simp add: es_pin_def idLibre_init fmt_04u_small store5_def)
qed

lemma length_asociarHuella: "length (snd (asociarHuellaaPin us p h)) = length us"
  by (induction us) auto

lemma wf_asociarHuella:
  "list_all wf_usuario us \<Longrightarrow> list_all wf_usuario (snd (asociarHuellaaPin us p h))"
  by (induction us) (auto simp: wf_usuario_def)

lemma wf_eliminarHuella:
  "list_all wf_usuario us \<Longrightarrow> list_all wf_usuario (snd (eliminarHuellaLocal us p)) \<and>
     length (snd (eliminarHuellaLocal us p)) = length us"
  by (induction us) (auto simp: wf_usuario_def)

lemma wf_asociarRFID:
  "list_all wf_usuario us \<Longrightarrow> asociarRFIDaPin us p r = Inr (b, us') \<Longrightarrow>
     list_all wf_usuario us' \<and> length us' = length us"
proof (induction us arbitrary: us')
  case (Cons u us)
  then show ?case
    by (cases "asociarRFIDaPin us p r") (auto simp: wf_usuario_def split: if_splits)
qed simp

lemma wf_agregarPin:
  "list_all wf_usuario us \<Longrightarrow> agregarPin us p = Inr (b, us') \<Longrightarrow>
     list_all wf_usuario us' \<and> length us' = length us"
proof (induction us arbitrary: us')
  case (Cons u us)
  then show ?case
    by (cases "agregarPin us p") (auto simp: wf_usuario_def split: if_splits)
qed simp

lemma wf_usuario_cero: "wf_usuario usuario_cero"
  by (simp add: wf_usuario_def usuario_cero_def)

lemma actualizar_eq:
  assumes "actualizarBaseDeDatos nuevos n = Inr us"
  obtains m where "m \<le> MAX_PINS" and "m \<le> length nuevos"
    and "us = take m nuevos @ replicate (MAX_PINS - m) usuario_cero" and "m = nat (min n 99)"
  using assms
  by (auto simp: actualizarBaseDeDatos_def Let_def MAX_PINS_def min_def split: if_splits)

lemma wf_actualizar:
  assumes "list_all wf_usuario nuevos" and "actualizarBaseDeDatos nuevos n = Inr us"
  shows "wf_tabla us"
proof -
  obtain m where "m \<le> MAX_PINS" "m \<le> length nuevos"
    and us: "us = take m nuevos @ replicate (MAX_PINS - m) usuario_cero"
    using assms(2) by (rule actualizar_eq)
  moreover have "list_all wf_usuario (take m nuevos)"
    using assms(1) by (auto simp: list_all_iff dest: in_set_takeD)
  ultimately show ?thesis
    by (auto simp: wf_tabla_def list_all_iff wf_usuario_cero)
qed

lemma agregarPin_Inl: "agregarPin us p = Inl e \<Longrightarrow> e = BufferOverflow"
  by (induction us) (auto simp: map_sum_def split: if_splits sum.splits)

lemma asociarRFID_Inl: "asociarRFIDaPin us p r = Inl e \<Longrightarrow> e = BufferOverflow"
  by (induction us) (auto simp: map_sum_def split: if_splits sum.splits)

lemma actualizar_Inl: "actualizarBaseDeDatos nuevos n = Inl e \<Longrightarrow> e = OutOfBounds"
  by (auto simp: actualizarBaseDeDatos_def Let_def split: if_splits)

text \<open>Every operation on the user table keeps it well-formed: 99 entries, each text within
  its array. Copies that would not fit are faults, never a malformed table.\<close>

lemma tabla_bien_formada:
  assumes "wf_tabla us" and "list_all wf_usuario nuevos"
  shows "(case agregarPin us p of Inl e \<Rightarrow> e = BufferOverflow | Inr (b, us1) \<Rightarrow> wf_tabla us1) \<and>
     (case asociarRFIDaPin us p r of Inl e \<Rightarrow> e = BufferOverflow | Inr (b, us1) \<Rightarrow> wf_tabla us1) \<and>
     wf_tabla (snd (asociarHuellaaPin us p h)) \<and>
     wf_tabla (snd (eliminarHuellaLocal us p)) \<and>
     wf_tabla (eliminarTodasHuellasLocal us) \<and>
     (case actualizarBaseDeDatos nuevos n of Inl e \<Rightarrow> e = OutOfBounds | Inr us1 \<Rightarrow> wf_tabla us1)"
proof -
  have wf: "list_all wf_usuario us" and l: "length us = MAX_PINS"
    using assms(1) by (auto simp: wf_tabla_def)
  have "wf_tabla (eliminarTodasHuellasLocal us)"
    using wf l by (auto simp: eliminarTodasHuellasLocal_def wf_tabla_def list_all_iff wf_usuario_def)
  moreover have "case agregarPin us p of Inl e \<Rightarrow> e = BufferOverflow | Inr (b, us1) \<Rightarrow> wf_tabla us1"
    using wf_agregarPin [OF wf] l by (auto simp: wf_tabla_def agregarPin_Inl split: sum.splits)
  moreover have "case asociarRFIDaPin us p r of Inl e \<Rightarrow> e = BufferOverflow | Inr (b, us1) \<Rightarrow> wf_tabla us1"
    using wf_asociarRFID [OF wf] l by (auto simp: wf_tabla_def asociarRFID_Inl split: sum.splits)
  moreover have "case actualizarBaseDeDatos nuevos n of Inl e \<Rightarrow> e = OutOfBounds | Inr us1 \<Rightarrow> wf_tabla us1"
    using wf_actualizar [OF assms(2)] by (auto simp: actualizar_Inl split: sum.splits)
  ultimately show ?thesis
    using wf_asociarHuella [OF wf] wf_eliminarHuella [OF wf] l
    by (simp add: wf_tabla_def length_asociarHuella)
qed

text \<open>Associating a card. For a valid PIN and a card number that no other active user holds,
  \<^verbatim>\<open>asociarRFIDaPin\<close> succeeds, the card is valid afterwards and belongs to that user, and no PIN
  changes its validity.\<close>

lemma asociar_rfid_correcto:
  assumes "us = xs @ u # ys" and "es_pin pin u" and "\<forall>x \<in> set xs. \<not> es_pin pin x"
    and "r \<noteq> []" and "length r < 20" and "\<forall>v \<in> set xs \<union> set ys. \<not> es_rfid r v"
  shows "\<exists>us'. asociarRFIDaPin us pin r = Inr (True, us') \<and> validarRFID us' r \<and>
     obtenerTagPorRFID us' r = (if tag u \<noteq> [] then Some (tag u) else None) \<and>
     (\<forall>p. validarPin us' p \<longleftrightarrow> validarPin us p)"
proof -
  let ?u = "u\<lparr>rfid := r\<rparr>" and ?us = "xs @ u\<lparr>rfid := r\<rparr> # ys"
  have "es_rfid r ?u" using assms(2,4) by (simp add: es_rfid_def es_pin_def)
  moreover have "find (es_rfid r) ?us = Some ?u"
    using calculation assms(6) by (simp add: find_primero)
  moreover have "validarPin ?us p \<longleftrightarrow> validarPin us p" for p
    by (simp add: assms(1) validarPin_append es_pin_def)
  ultimately show ?thesis
    using asociarRFID_primero [OF assms(2,3,5), of ys]
    by (auto simp: assms(1) cred_rfid.valida_iff cred_rfid.tag_de_find)
qed

lemma asociar_rfid_correcto_witness:
  "\<exists>us'. asociarRFIDaPin listaPins_init ''66666'' ''0A1B2C3D'' = Inr (True, us') \<and>
     validarRFID us' ''0A1B2C3D'' \<and> obtenerTagPorRFID us' ''0A1B2C3D'' =
       (if tag (listaPins_init ! 5) \<noteq> [] then Some (tag (listaPins_init ! 5)) else None) \<and>
     (\<forall>p. validarPin us' p \<longleftrightarrow> validarPin listaPins_init p)"
  by (rule asociar_rfid_correcto [of _ "take 5 listaPins_init" _ "drop 6 listaPins_init"])
    (simp_all add: listaPins_init_def es_pin_def es_rfid_def usuario_cero_def)

text \<open>Deleting a fingerprint. When the slots of the active users are apart, deleting the
  fingerprint of a valid PIN revokes exactly that slot: the slot is no longer valid, and every
  other slot is valid exactly when it was.\<close>

lemma eliminar_huella_correcto:
  assumes "huellas_unicas us" and "us = xs @ u # ys" and "es_pin pin u"
    and "\<forall>x \<in> set xs. \<not> es_pin pin x"
  shows "\<exists>us'. eliminarHuellaLocal us pin = (True, us') \<and> \<not> validarHuella us' (huella u) \<and>
     (\<forall>h. h \<noteq> huella u \<longrightarrow> (validarHuella us' h \<longleftrightarrow> validarHuella us h))"
proof -
  let ?us = "xs @ u\<lparr>huella := []\<rparr> # ys"
  have "\<not> es_huella (huella u) v" if "v \<in> set xs \<union> set ys" for v
    using assms(1,3) that
    by (auto simp: huellas_unicas_def assms(2) es_huella_def es_pin_def image_iff split: if_splits)
  then have "\<not> validarHuella ?us (huella u)"
    by (auto simp: cred_huella.valida_iff list_ex_iff es_huella_def)
  moreover have "validarHuella ?us h \<longleftrightarrow> validarHuella us h" if "h \<noteq> huella u" for h
    using that by (auto simp: cred_huella.valida_iff assms(2) es_huella_def)
  ultimately show ?thesis
    using eliminarHuella_primero [OF assms(3,4), of ys] by (auto simp: assms(2))
qed

lemma eliminar_huella_correcto_witness:
  "\<exists>us'. eliminarHuellaLocal listaPins_init ''22222'' = (True, us') \<and>
     \<not> validarHuella us' (huella (listaPins_init ! 1)) \<and>
     (\<forall>h. h \<noteq> huella (listaPins_init ! 1) \<longrightarrow>
        (validarHuella us' h \<longleftrightarrow> validarHuella listaPins_init h))"
  by (rule eliminar_huella_correcto
      [OF unicas_listaPins_init, of "take 1 listaPins_init" _ "drop 2 listaPins_init"])
    (simp_all add: listaPins_init_def es_pin_def)

text \<open>Replacing the table with what the server sent leaves no other credential behind. When
  \<open>n\<close> users are copied, a PIN, card or fingerprint is valid afterwards exactly when one of the
  first \<open>n\<close> received users holds it, and the master PIN is the PIN of the first of them.\<close>

lemma actualizar_exacto:
  assumes "actualizarBaseDeDatos nuevos n = Inr us" and "0 < n" and "n \<le> 99"
  shows "(\<forall>c. validarPin us c \<longleftrightarrow> validarPin (take (nat n) nuevos) c) \<and>
     (\<forall>c. validarRFID us c \<longleftrightarrow> validarRFID (take (nat n) nuevos) c) \<and>
     (\<forall>c. validarHuella us c \<longleftrightarrow> validarHuella (take (nat n) nuevos) c) \<and>
     (\<forall>c. esPinMaster us c \<longleftrightarrow> es_pin c (hd nuevos))"
proof -
  obtain m where m: "m \<le> length nuevos" "m = nat n"
    and us: "us = take m nuevos @ replicate (MAX_PINS - m) usuario_cero"
    using assms by (auto elim!: actualizar_eq simp: min_def)
  obtain k where "m = Suc k" using m(2) assms(2) by (metis gr0_implies_Suc zero_less_nat_eq)
  then have "esPinMaster us c \<longleftrightarrow> es_pin c (hd nuevos)" for c
    using m(1) by (cases nuevos) (auto simp: us esPinMaster_def)
  then show ?thesis
    by (auto simp: us m(2) cred_pin.valida_iff cred_rfid.valida_iff cred_huella.valida_iff
        es_pin_def es_rfid_def es_huella_def usuario_cero_def list_ex_iff)
qed

lemma actualizar_exacto_witness:
  "let us = [listaPins_init ! 1] @ replicate 98 usuario_cero in
     (\<forall>c. validarPin us c \<longleftrightarrow> validarPin (take (nat 1) [listaPins_init ! 1]) c) \<and>
     (\<forall>c. validarRFID us c \<longleftrightarrow> validarRFID (take (nat 1) [listaPins_init ! 1]) c) \<and>
     (\<forall>c. validarHuella us c \<longleftrightarrow> validarHuella (take (nat 1) [listaPins_init ! 1]) c) \<and>
     (\<forall>c. esPinMaster us c \<longleftrightarrow> es_pin c (hd [listaPins_init ! 1]))"
  unfolding Let_def
  by (rule actualizar_exacto) (simp_all add: actualizarBaseDeDatos_def MAX_PINS_def)

text \<open>A card whose owner has no tag is refused, although it is registered. The comment on
  \<^verbatim>\<open>obtenerTagPorRFID\<close> promises the name "usuario" for a registered card without a tag, as
  \<^verbatim>\<open>obtenerTagPorHuella\<close> gives for a fingerprint; the code returns NULL.\<close>

theorem rfid_sin_tag_rechazado:
  assumes "us = xs @ u # ys" and "es_rfid r u" and "\<forall>x \<in> set xs. \<not> es_rfid r x" and "tag u = []"
  shows "validarRFID us r \<and> obtenerTagPorRFID us r = None"
proof -
  have "find (es_rfid r) us = Some u" using assms(2,3) by (simp add: assms(1) find_primero)
  then show ?thesis using assms by (auto simp: cred_rfid.valida_iff cred_rfid.tag_de_find)
qed

theorem rfid_sin_tag_rechazado_witness:
  "validarRFID [(listaPins_init ! 1)\<lparr>tag := []\<rparr>] ''9876543210FF'' \<and>
   obtenerTagPorRFID [(listaPins_init ! 1)\<lparr>tag := []\<rparr>] ''9876543210FF'' = None"
  by (rule rfid_sin_tag_rechazado [of _ "[]" "(listaPins_init ! 1)\<lparr>tag := []\<rparr>" "[]"])
    (simp_all add: es_rfid_def listaPins_init_def)

text \<open>The search for a fingerprint slot, a loop over numbers that scans the whole table for each one,
  computes the least positive number that no active user of the table holds.\<close>

lemma id_libre_es_el_minimo:
  "idLibre_desde us 1 = (LEAST n. 1 \<le> n \<and> \<not> id_en_uso us n)"
proof (rule Least_equality [symmetric])
  show "1 \<le> idLibre_desde us 1 \<and> \<not> id_en_uso us (idLibre_desde us 1)"
    using idLibre_ge idLibre_libre by blast
next
  fix n
  assume "1 \<le> n \<and> \<not> id_en_uso us n"
  then show "idLibre_desde us 1 \<le> n" using idLibre_minimo [of 1 n us] by (meson not_le)
qed

end
