(* ===== verification/Esp_Json.thy ===== *)
theory Esp_Json
  imports Usuarios
begin

text \<open>
  The parser for the user list the server sends (\<^verbatim>\<open>buscarValorJSON\<close> and
  \<^verbatim>\<open>parsearJSONPins\<close> of \<^verbatim>\<open>espAT.c\<close>). The response buffer is a text \<open>s\<close>; a pointer
  into it is an index. The parser searches, it does not tokenise: every step is
  a \<^verbatim>\<open>strstr\<close> or \<^verbatim>\<open>strchr\<close> from the current position followed by a comparison
  with the end of the object or of the document.
\<close>

section \<open>Definitions\<close>

abbreviation QUOTE :: char where "QUOTE \<equiv> CHR 0x22"

definition entre_comillas :: "string \<Rightarrow> string" where
  "entre_comillas k = QUOTE # k @ [QUOTE]"

text \<open>The copy loop, on the characters between the opening quote and \<^verbatim>\<open>fin\<close>.\<close>

fun copiar_valor :: "string \<Rightarrow> nat \<Rightarrow> string" where
  "copiar_valor [] maxLen = []"
| "copiar_valor (c # cs) maxLen =
     (if c \<noteq> QUOTE \<and> 0 < maxLen then c # copiar_valor cs (maxLen - 1) else [])"

text \<open>\<open>None\<close>: the destination is left as it was.\<close>

definition buscarValorJSON :: "string \<Rightarrow> nat \<Rightarrow> nat \<Rightarrow> string \<Rightarrow> nat \<Rightarrow> string option" where
  "buscarValorJSON s fuente fin clave maxLen =
     (let keyPatron = entre_comillas clave in
      case strstr_at s fuente keyPatron of None \<Rightarrow> None | Some k \<Rightarrow>
      if fin \<le> k then None else
      case strchr_at s (k + length keyPatron) (CHR '':'') of None \<Rightarrow> None | Some dosPuntos \<Rightarrow>
      if fin \<le> dosPuntos then None else
      case strchr_at s dosPuntos QUOTE of None \<Rightarrow> None | Some inicioValor \<Rightarrow>
      if fin \<le> inicioValor then None else
      Some (copiar_valor (take (fin - Suc inicioValor) (drop (Suc inicioValor) s)) maxLen))"

definition valor_o_vacio :: "string option \<Rightarrow> string" where
  "valor_o_vacio v = (case v of None \<Rightarrow> [] | Some t \<Rightarrow> t)"

definition parsear_activo :: "string \<Rightarrow> nat \<Rightarrow> nat \<Rightarrow> bool" where
  "parsear_activo s objStart objEnd =
     (case strstr_at s objStart (entre_comillas ''activo'') of None \<Rightarrow> False | Some pActivo \<Rightarrow>
      if objEnd \<le> pActivo then False else
      case strchr_at s pActivo (CHR '':'') of None \<Rightarrow> False | Some dosPuntos \<Rightarrow>
      if objEnd \<le> dosPuntos then False else
      case strstr_at s dosPuntos ''true'' of None \<Rightarrow> False | Some t \<Rightarrow> t < objEnd)"

text \<open>One object: the record starts zeroed, each field is filled if its key is found.\<close>

definition parsear_objeto :: "string \<Rightarrow> nat \<Rightarrow> nat \<Rightarrow> PinUsuario" where
  "parsear_objeto s objStart objEnd =
     \<lparr>codigo = valor_o_vacio (buscarValorJSON s objStart objEnd ''codigo'' PIN_LENGTH),
      activo = parsear_activo s objStart objEnd,
      rfid = valor_o_vacio (buscarValorJSON s objStart objEnd ''rfid'' 19),
      huella = valor_o_vacio (buscarValorJSON s objStart objEnd ''huella'' 4),
      tag = valor_o_vacio (buscarValorJSON s objStart objEnd ''tag'' 19)\<rparr>"

function parsear_objetos ::
  "string \<Rightarrow> nat \<Rightarrow> nat \<Rightarrow> nat \<Rightarrow> PinUsuario list \<Rightarrow> PinUsuario list" where
  "parsear_objetos s end maxPins ptr pinsOut =
     (if ptr < end \<and> length pinsOut < maxPins then
        case strchr_at s ptr (CHR ''{'') of None \<Rightarrow> pinsOut | Some objStart \<Rightarrow>
        if end \<le> objStart then pinsOut else
        case strchr_at s objStart (CHR ''}'') of None \<Rightarrow> pinsOut | Some objEnd \<Rightarrow>
        if end \<le> objEnd then pinsOut else
        let pin = parsear_objeto s objStart objEnd in
        parsear_objetos s end maxPins (Suc objEnd)
          (if 0 < length (codigo pin) then pinsOut @ [pin] else pinsOut)
      else pinsOut)"
  by pat_completeness auto
termination
  by (relation "measure (\<lambda>(s, end, maxPins, ptr, pinsOut). end - ptr)")
    (auto dest!: strchr_at_bounds)

declare parsear_objetos.simps [simp del]

definition parsearJSONPins :: "string \<Rightarrow> nat \<Rightarrow> nat \<Rightarrow> nat \<Rightarrow> PinUsuario list" where
  "parsearJSONPins s json jsonLen maxPins =
     (let end = json + jsonLen in
      case strstr_at s json (entre_comillas ''pins'') of None \<Rightarrow> [] | Some keyPins \<Rightarrow>
      case strchr_at s keyPins (CHR ''['') of None \<Rightarrow> [] | Some arrayStart \<Rightarrow>
      if end \<le> arrayStart then [] else
      parsear_objetos s end maxPins (Suc arrayStart) [])"

text \<open>
  The document inside the response (\<^verbatim>\<open>espHTTPGetPins\<close>): from the first opening
  brace to the last closing one.
\<close>

definition ultimo_cierre :: "string \<Rightarrow> nat option" where
  "ultimo_cierre s = map_option (\<lambda>j. length s - Suc j) (strchr (rev s) (CHR ''}''))"

definition extraer_usuarios :: "string \<Rightarrow> nat \<Rightarrow> PinUsuario list" where
  "extraer_usuarios s maxPins =
     (case strchr s (CHR ''{'') of None \<Rightarrow> [] | Some jsonStart \<Rightarrow>
      case ultimo_cierre s of None \<Rightarrow> [] | Some jsonEnd \<Rightarrow>
      if jsonEnd < jsonStart then [] else
      parsearJSONPins s jsonStart (jsonEnd - jsonStart + 1) maxPins)"

section \<open>Bounds\<close>

lemma length_copiar_valor: "length (copiar_valor s n) \<le> n"
  by (induction s n rule: copiar_valor.induct) auto

lemma length_buscarValor: "length (valor_o_vacio (buscarValorJSON s f e k n)) \<le> n"
  by (auto simp: buscarValorJSON_def valor_o_vacio_def Let_def length_copiar_valor
      split: option.splits)

lemma wf_parsear_objeto: "wf_usuario (parsear_objeto s a b)"
  by (simp add: wf_usuario_def parsear_objeto_def length_buscarValor)

text \<open>The loop of \<^verbatim>\<open>parsearJSONPins\<close> keeps every property of the records it builds.\<close>

lemma parsear_objetos_induct:
  assumes "P acc"
    and step: "\<And>acc a b. P acc \<Longrightarrow> length acc < mx \<Longrightarrow>
      codigo (parsear_objeto s a b) \<noteq> [] \<Longrightarrow> P (acc @ [parsear_objeto s a b])"
  shows "P (parsear_objetos s e mx p acc)"
  using assms
proof (induction s e mx p acc rule: parsear_objetos.induct)
  case (1 s e mx p acc)
  show ?case
  proof (cases "p < e \<and> length acc < mx")
    case False
    then have "parsear_objetos s e mx p acc = acc"
      by (subst parsear_objetos.simps) (simp only: if_False)
    then show ?thesis using 1(2) by simp
  next
    case c: True
    show ?thesis
    proof (cases "strchr_at s p (CHR ''{'')")
      case None
      then show ?thesis using 1(2) by (subst parsear_objetos.simps) simp
    next
      case a: (Some a)
      show ?thesis
      proof (cases "e \<le> a \<or> strchr_at s a (CHR ''}'') = None")
        case True
        then show ?thesis using 1(2) a by (subst parsear_objetos.simps) (auto split: option.splits)
      next
        case nb: False
        then obtain b where b: "strchr_at s a (CHR ''}'') = Some b" by auto
        show ?thesis
        proof (cases "e \<le> b")
          case True
          then show ?thesis using 1(2) a b nb by (subst parsear_objetos.simps) simp
        next
          case False
          let ?acc = "if 0 < length (codigo (parsear_objeto s a b))
            then acc @ [parsear_objeto s a b] else acc"
          have "P ?acc" using 1(2,3) c by simp
          moreover have "P (parsear_objetos s e mx (Suc b) ?acc)"
            using 1(1) [OF c a _ b False refl calculation 1(3)] nb by simp
          ultimately show ?thesis
            using c a b nb False by (subst parsear_objetos.simps) (simp add: Let_def)
        qed
      qed
    qed
  qed
qed

lemma parsear_objetos_cotas:
  assumes "length acc \<le> mx" and "\<forall>u \<in> set acc. wf_usuario u \<and> codigo u \<noteq> []"
  shows "length (parsear_objetos s e mx p acc) \<le> mx \<and>
     (\<forall>u \<in> set (parsear_objetos s e mx p acc). wf_usuario u \<and> codigo u \<noteq> [])"
  by (rule parsear_objetos_induct) (use assms wf_parsear_objeto in auto)

lemma extraer_usuarios_cotas:
  "length (extraer_usuarios s mx) \<le> mx \<and>
   (\<forall>u \<in> set (extraer_usuarios s mx). wf_usuario u \<and> codigo u \<noteq> [])"
proof -
  have "length (parsearJSONPins s a n mx) \<le> mx \<and>
     (\<forall>u \<in> set (parsearJSONPins s a n mx). wf_usuario u \<and> codigo u \<noteq> [])" for a n
    unfolding parsearJSONPins_def Let_def
    using parsear_objetos_cotas [of "[]" mx s "a + n"] by (auto split: option.splits)
  then show ?thesis
    unfolding extraer_usuarios_def by (auto split: option.splits)
qed

section \<open>Reading what the server writes\<close>

text \<open>
  The document \<^verbatim>\<open>sync_pins\<close> of \<^verbatim>\<open>Server/server.py\<close> writes: compact JSON, one object
  per user. \<open>qs ps\<close> is a quoted text cut at its quotes: every piece stands
  behind a quote.
\<close>

primrec qs :: "string list \<Rightarrow> string" where
  "qs [] = []"
| "qs (p # ps) = QUOTE # p @ qs ps"

definition json_objeto :: "PinUsuario \<Rightarrow> string" where
  "json_objeto u = ''{'' @ qs [''codigo'', '':'', codigo u, '','',
     ''activo'', '':'' @ (if activo u then ''true'' else ''false'') @ '','',
     ''rfid'', '':'', rfid u, '','', ''huella'', '':'', huella u, '','', ''tag'', '':'', tag u, ''}'']"

fun json_lista :: "PinUsuario list \<Rightarrow> string" where
  "json_lista [] = []"
| "json_lista [u] = json_objeto u"
| "json_lista (u # v # us) = json_objeto u @ '','' @ json_lista (v # us)"

definition json_usuarios :: "PinUsuario list \<Rightarrow> string" where
  "json_usuarios us = ''{'' @ qs [''pins'', '':[''] @ json_lista us @ '']}''"

text \<open>A user the table can hold whose texts need no escape and are not names of fields.\<close>

definition claves :: "string list" where
  "claves = [''codigo'', ''activo'', ''rfid'', ''huella'', ''tag'']"

definition enviable :: "PinUsuario \<Rightarrow> bool" where
  "enviable u \<longleftrightarrow> wf_usuario u \<and> activo u \<and> codigo u \<noteq> [] \<and>
     list_all (\<lambda>t. QUOTE \<notin> set t \<and> CHR ''}'' \<notin> set t \<and> t \<notin> set claves)
       [codigo u, rfid u, huella u, tag u]"

subsection \<open>Searching in a quoted text\<close>

lemma qs_append [simp]: "qs (ps @ rs) = qs ps @ qs rs"
  by (induction ps) auto

lemma strstr_skip:
  "c \<notin> set v \<Longrightarrow> strstr (v @ t) (c # pat) = map_option (\<lambda>j. length v + j) (strstr t (c # pat))"
  by (induction v) (cases "strstr t (c # pat)"; auto)+

lemma strchr_skip:
  "c \<notin> set v \<Longrightarrow> strchr (v @ t) c = map_option (\<lambda>j. length v + j) (strchr t c)"
  by (induction v) (cases "strchr t c"; auto)+

lemma prefix_quoted:
  "q \<notin> set k \<Longrightarrow> q \<notin> set v \<Longrightarrow> prefix (k @ [q]) (v @ q # t) \<longleftrightarrow> k = v"
proof (induction k arbitrary: v)
  case Nil
  then show ?case by (cases v) auto
next
  case (Cons a k)
  then show ?case by (cases v) auto
qed

lemma strstr_qs:
  assumes "QUOTE \<notin> set k" and "\<forall>p \<in> set ps. QUOTE \<notin> set p \<and> p \<noteq> k"
  shows "strstr (qs ps @ QUOTE # k @ QUOTE # t) (entre_comillas k) = Some (length (qs ps))"
  using assms(2)
proof (induction ps)
  case Nil
  then show ?case by (simp add: entre_comillas_def prefix_def)
next
  case (Cons p ps)
  obtain r where r: "qs ps @ QUOTE # k @ QUOTE # t = QUOTE # r" by (cases ps) auto
  have "\<not> prefix (k @ [QUOTE]) (p @ QUOTE # r)"
    using Cons.prems assms(1) by (subst prefix_quoted) auto
  then have "strstr (qs (p # ps) @ QUOTE # k @ QUOTE # t) (entre_comillas k) =
      map_option Suc (strstr (p @ qs ps @ QUOTE # k @ QUOTE # t) (entre_comillas k))"
    by (simp add: entre_comillas_def r)
  also have "strstr (p @ qs ps @ QUOTE # k @ QUOTE # t) (entre_comillas k) =
      map_option (\<lambda>j. length p + j) (Some (length (qs ps)))"
    using Cons by (simp add: entre_comillas_def strstr_skip del: strstr.simps)
  finally show ?case by simp
qed

lemma copiar_valor_hasta:
  "QUOTE \<notin> set v \<Longrightarrow> length v \<le> n \<Longrightarrow> copiar_valor (v @ QUOTE # t) n = v"
  by (induction v arbitrary: n) auto

text \<open>A field is found when its key is not the text of a piece in front of it.\<close>

lemma buscarValor_qs:
  assumes s: "drop f s = CHR ''{'' # qs ps @ QUOTE # k @ QUOTE # CHR '':'' # QUOTE # v @ QUOTE # t"
    and ps: "QUOTE \<notin> set k" "\<forall>p \<in> set ps. QUOTE \<notin> set p \<and> p \<noteq> k"
    and v: "QUOTE \<notin> set v" "length v \<le> n"
    and fin: "f + length (qs ps) + length k + length v + 5 < fin"
  shows "buscarValorJSON s f fin k n = Some v"
proof -
  let ?i = "Suc (f + length (qs ps))"
  have "strstr (drop f s) (entre_comillas k) = Some (Suc (length (qs ps)))"
    using strstr_qs [OF ps] by (simp add: s entre_comillas_def)
  then have k: "strstr_at s f (entre_comillas k) = Some ?i" by (simp add: strstr_at_def)
  define j where "j = ?i + length (entre_comillas k)"
  have "drop j s = drop (Suc (length (qs ps)) + length (entre_comillas k)) (drop f s)"
    by (simp add: j_def ac_simps)
  also have "\<dots> = CHR '':'' # QUOTE # v @ QUOTE # t" by (simp add: s entre_comillas_def)
  finally have d1: "drop j s = CHR '':'' # QUOTE # v @ QUOTE # t" .
  have c: "strchr_at s j (CHR '':'') = Some j" by (simp add: strchr_at_def d1)
  have q: "strchr_at s j QUOTE = Some (Suc j)" by (simp add: strchr_at_def d1)
  have d2: "drop (Suc (Suc j)) s = v @ QUOTE # t"
    using arg_cong [OF d1, of "drop 2"] by (simp add: numeral_2_eq_2)
  have less: "?i < fin" "Suc (Suc j) + length v < fin"
    using fin by (simp_all add: j_def entre_comillas_def)
  obtain m' where "fin = Suc (Suc (Suc j) + length v + m')" using less_imp_Suc_add [OF less(2)] by blast
  then have m: "fin - Suc (Suc j) = length v + Suc m'" by simp
  have j: "?i + length (entre_comillas k) = j" by (simp add: j_def)
  show ?thesis
    unfolding buscarValorJSON_def Let_def k option.case j c q
    using less by (simp add: d2 m copiar_valor_hasta v)
qed

subsection \<open>One object and the list\<close>

lemma enviableD:
  assumes "enviable u" and "t \<in> {codigo u, rfid u, huella u, tag u}"
  shows "QUOTE \<notin> set t" "CHR ''}'' \<notin> set t" "t \<notin> set claves"
  using assms by (auto simp: enviable_def)

lemma enviable_largo:
  assumes "enviable u"
  shows "length (codigo u) \<le> PIN_LENGTH" "length (rfid u) \<le> 19" "length (huella u) \<le> 4"
    "length (tag u) \<le> 19" "activo u" "codigo u \<noteq> []"
  using assms by (simp_all add: enviable_def wf_usuario_def)

lemma parsear_activo_qs:
  assumes s: "drop f s = CHR ''{'' # qs ps @ QUOTE # ''activo'' @ QUOTE # '':true'' @ t"
    and ps: "\<forall>p \<in> set ps. QUOTE \<notin> set p \<and> p \<noteq> ''activo''"
    and fin: "f + length (qs ps) + 15 < fin"
  shows "parsear_activo s f fin"
proof -
  define i where "i = Suc (f + length (qs ps))"
  have "strstr (drop f s) (entre_comillas ''activo'') = Some (Suc (length (qs ps)))"
    using strstr_qs [OF _ ps] by (simp add: s entre_comillas_def)
  then have a: "strstr_at s f (entre_comillas ''activo'') = Some i"
    by (simp add: strstr_at_def i_def)
  have di: "drop i s = QUOTE # ''activo'' @ QUOTE # '':true'' @ t"
    using arg_cong [OF s, of "drop (Suc (length (qs ps)))"] by (simp add: i_def add.commute)
  have c: "strchr_at s i (CHR '':'') = Some (i + 8)" by (simp add: strchr_at_def di)
  have "drop (i + 8) s = '':true'' @ t"
    using arg_cong [OF di, of "drop 8"] by (simp add: add.commute)
  then have "strstr_at s (i + 8) ''true'' = Some (Suc (i + 8))" by (simp add: strstr_at_def)
  moreover have "i + 14 < fin" using fin by (simp add: i_def)
  ultimately show ?thesis by (simp add: parsear_activo_def a c)
qed

lemma parsear_json_objeto:
  assumes u: "enviable u" and s: "drop f s = json_objeto u @ t"
    and fin: "Suc fin = f + length (json_objeto u)"
  shows "parsear_objeto s f fin = u"
proof -
  note d = enviableD [OF u] and l = enviable_largo [OF u]
  have ne: "t \<noteq> k" if "t \<in> {codigo u, rfid u, huella u, tag u}" "k \<in> set claves" for t k
    using d(3) that by auto
  have c: "buscarValorJSON s f fin ''codigo'' PIN_LENGTH = Some (codigo u)"
    by (rule buscarValor_qs [where ps = "[]"])
      (use fin d l in \<open>simp_all add: s json_objeto_def\<close>)
  have r: "buscarValorJSON s f fin ''rfid'' 19 = Some (rfid u)"
    by (rule buscarValor_qs [where ps = "[''codigo'', '':'', codigo u, '','', ''activo'', '':true,'']"])
      (use fin d l ne [of _ "''rfid''"] in \<open>simp_all add: s json_objeto_def claves_def\<close>)
  have h: "buscarValorJSON s f fin ''huella'' 4 = Some (huella u)"
    by (rule buscarValor_qs [where ps = "[''codigo'', '':'', codigo u, '','', ''activo'', '':true,'',
            ''rfid'', '':'', rfid u, '','']"])
      (use fin d l ne [of _ "''huella''"] in \<open>simp_all add: s json_objeto_def claves_def\<close>)
  have g: "buscarValorJSON s f fin ''tag'' 19 = Some (tag u)"
    by (rule buscarValor_qs [where ps = "[''codigo'', '':'', codigo u, '','', ''activo'', '':true,'',
            ''rfid'', '':'', rfid u, '','', ''huella'', '':'', huella u, '','']"])
      (use fin d l ne [of _ "''tag''"] in \<open>simp_all add: s json_objeto_def claves_def\<close>)
  have "parsear_activo s f fin"
    by (rule parsear_activo_qs [where ps = "[''codigo'', '':'', codigo u, '','']"])
      (use fin d l ne [of _ "''activo''"] in \<open>simp_all add: s json_objeto_def claves_def\<close>)
  then show ?thesis using l(5) by (simp add: parsear_objeto_def valor_o_vacio_def c r h g)
qed

lemma json_lista_Cons:
  "json_lista (u # us) = json_objeto u @ (if us = [] then [] else '','' @ json_lista us)"
  by (cases us) auto

lemma strchr_json_objeto:
  assumes "enviable u"
  shows "strchr (json_objeto u @ t) (CHR ''{'') = Some 0"
    and "strchr (json_objeto u @ t) (CHR ''}'') = Some (length (json_objeto u) - 1)"
proof -
  show "strchr (json_objeto u @ t) (CHR ''{'') = Some 0" by (simp add: json_objeto_def)
  obtain v where "json_objeto u = v @ ''}''" "CHR ''}'' \<notin> set v"
    using enviableD(2) [OF assms] enviable_largo(5) [OF assms]
    by (rule_tac v = "butlast (json_objeto u)" in that)
      (simp_all add: json_objeto_def butlast_append)
  then show "strchr (json_objeto u @ t) (CHR ''}'') = Some (length (json_objeto u) - 1)"
    by (simp add: strchr_skip)
qed

lemma parsear_objetos_lista:
  assumes "list_all enviable us" and "drop p s = pre @ json_lista us @ '']}'' @ post"
    and "CHR ''{'' \<notin> set pre" and "fin = p + length pre + length (json_lista us) + 2"
    and "length acc + length us \<le> mx"
  shows "parsear_objetos s fin mx p acc = acc @ us"
  using assms
proof (induction us arbitrary: p pre acc)
  case Nil
  have "\<exists>j. strchr_at s p (CHR ''{'') = Some j \<and> fin \<le> j" if "strchr_at s p (CHR ''{'') \<noteq> None"
    using that Nil by (auto simp: strchr_at_def strchr_skip)
  then show ?case by (subst parsear_objetos.simps) (auto split: option.splits)
next
  case (Cons u us)
  define q where "q = p + length pre"
  define r where "r = (if us = [] then [] else '','' @ json_lista us) @ '']}'' @ post"
  have u: "enviable u" using Cons.prems by simp
  have dq: "drop q s = json_objeto u @ r"
    using arg_cong [OF Cons.prems(2), of "drop (length pre)"]
    by (simp add: q_def r_def json_lista_Cons add.commute)
  have q: "strchr_at s p (CHR ''{'') = Some q"
    using Cons.prems(2,3) strchr_json_objeto(1) [OF u, of r]
    by (simp add: strchr_at_def strchr_skip json_lista_Cons q_def r_def)
  have len: "0 < length (json_objeto u)" by (simp add: json_objeto_def)
  define e where "e = q + (length (json_objeto u) - 1)"
  have e: "strchr_at s q (CHR ''}'') = Some e"
    using strchr_json_objeto(2) [OF u, of r] by (simp add: strchr_at_def dq e_def)
  have Suc_e: "Suc e = q + length (json_objeto u)" using len by (simp add: e_def)
  have fin: "Suc e < fin" using Cons.prems(4) Suc_e by (simp add: q_def json_lista_Cons)
  have de: "drop (Suc e) s = r"
    using arg_cong [OF dq, of "drop (length (json_objeto u))"] by (simp add: Suc_e add.commute)
  have pu: "parsear_objeto s q e = u" by (rule parsear_json_objeto [OF u dq Suc_e])
  have rest: "parsear_objetos s fin mx (Suc e) (acc @ [u]) = (acc @ [u]) @ us"
  proof (rule Cons.IH [where pre = "if us = [] then [] else '',''"])
    show "drop (Suc e) s = (if us = [] then [] else '','') @ json_lista us @ '']}'' @ post"
      by (simp add: de r_def)
    show "fin = Suc e + length (if us = [] then [] else '','') + length (json_lista us) + 2"
      using Cons.prems(4) by (simp add: Suc_e q_def json_lista_Cons)
  qed (use Cons.prems in simp_all)
  have "p < fin" "q < fin" "e < fin" using fin Suc_e by (simp_all add: q_def e_def)
  then show ?case
    using Cons.prems(5) rest enviable_largo(6) [OF u]
    by (subst parsear_objetos.simps) (simp add: q e pu Let_def)
qed

lemma extraer_json:
  assumes "list_all enviable us" and "length us \<le> maxPins"
    and "CHR ''{'' \<notin> set pre" and "CHR ''}'' \<notin> set post"
  shows "extraer_usuarios (pre @ json_usuarios us @ post) maxPins = us"
proof -
  let ?s = "pre @ json_usuarios us @ post"
  define a where "a = length pre"
  define J where "J = json_usuarios us"
  have lenJ: "length J = 11 + length (json_lista us)" by (simp add: J_def json_usuarios_def)
  have st: "strchr ?s (CHR ''{'') = Some a"
    using assms(3) by (simp add: strchr_skip json_usuarios_def a_def)
  have "strchr (rev ?s) (CHR ''}'') = Some (length post)"
    using assms(4) by (simp add: strchr_skip json_usuarios_def)
  then have en: "ultimo_cierre ?s = Some (a + (length J - 1))"
    using lenJ by (simp add: ultimo_cierre_def a_def J_def)
  have da: "drop a ?s = CHR ''{'' # QUOTE # ''pins'' @ QUOTE # '':['' @ json_lista us @ '']}'' @ post"
    by (simp add: a_def json_usuarios_def)
  have k: "strstr_at ?s a (entre_comillas ''pins'') = Some (Suc a)"
    unfolding strstr_at_def da by (simp add: entre_comillas_def)
  have d1: "drop (Suc a) ?s = QUOTE # ''pins'' @ QUOTE # '':['' @ json_lista us @ '']}'' @ post"
    using arg_cong [OF da, of tl] by (simp add: drop_Suc tl_drop del: drop_append)
  have c: "strchr_at ?s (Suc a) (CHR ''['') = Some (a + 8)"
    unfolding strchr_at_def d1 by simp
  have "drop (a + 9) ?s = json_lista us @ '']}'' @ post"
    using arg_cong [OF da, of "drop 9"] by (simp add: add.commute del: drop_append)
  then have "parsear_objetos ?s (a + length J) maxPins (a + 9) [] = [] @ us"
    by (intro parsear_objetos_lista [where pre = "[]"]) (use assms lenJ in simp_all)
  moreover have "Suc (a + 8) = a + 9" "\<not> a + length J \<le> a + 8" "a + (a + (length J - 1) - a + 1) = a + length J"
    using lenJ by simp_all
  ultimately show ?thesis
    unfolding extraer_usuarios_def st en option.case parsearJSONPins_def Let_def k c
    by (simp add: add.commute [of 9])
qed

section \<open>Properties\<close>

text \<open>C24: Whatever the server answers, the parser writes at most \<open>maxPins\<close> records, every text
  it stores fits the array it is stored in with its terminator, and no stored user has an empty
  code.\<close>

theorem parser_en_cotas:
  "length (extraer_usuarios s maxPins) \<le> maxPins \<and>
   list_all (\<lambda>u. wf_usuario u \<and> codigo u \<noteq> []) (extraer_usuarios s maxPins)"
  using extraer_usuarios_cotas [of s maxPins] by (simp add: list_all_iff)



end
