(* ===== verification/Hardware.thy ===== *)
theory Hardware
  imports Prelude
begin

text \<open>
  The LPC4337 as the firmware sees it: the peripheral registers it writes, the
  environment it reads, and the two interrupt handlers that run between its
  statements (\<^verbatim>\<open>SysTick_Handler\<close> of \<^verbatim>\<open>sapi_tick.c\<close> and \<^verbatim>\<open>GPIO0_IRQHandler\<close> of
  \<^verbatim>\<open>MEF.c\<close>).

  The environment is a script: one list of events for every moment the program
  looks at the hardware (\<open>poll\<close>). A run over a finite script is a finite prefix
  of an execution; when the script ends, the run stops with \<open>More\<close>. Theorems
  quantify over all scripts. A loop that looks at the hardware in every round is
  written with \<open>loop\<close>, which takes the length of the script as its bound: each
  round consumes at least one element, so the bound is never what ends it
  (lemma \<open>sat_loop\<close>).
\<close>

section \<open>State and events\<close>

type_synonym pin = "nat \<times> nat" \<comment> \<open>GPIO port and bit\<close>

text \<open>
  What can happen between two looks at the hardware. \<open>Ticks n\<close>: the SysTick
  timer fires \<open>n\<close> times. \<open>RxByte u b\<close>: USART \<open>u\<close> receives \<open>b\<close>. \<open>Wire f\<close>: the
  circuit on the pins changes; \<open>f\<close> gives the level of an input from the levels
  the chip drives. \<open>Miso b\<close>: the byte the SPI slave shifts out next.
  \<open>I2cAck a\<close>: whether the I2C slave acknowledges. \<open>Presencia\<close>: a rising edge on
  the presence sensor (GPIO0[12]).
\<close>

datatype ev =
    Ticks nat
  | RxByte nat u8
  | Wire "(pin \<Rightarrow> bool) \<Rightarrow> pin \<Rightarrow> bool"
  | Miso u8
  | I2cAck bool
  | Presencia

text \<open>What the program does to the GPIO block, in order.\<close>

datatype gpio_ev =
    PinSet pin bool \<comment> \<open>drive a pin\<close>
  | Busy u64        \<comment> \<open>a counted busy wait, in loop rounds\<close>

record hw =
  script :: "ev list list"
  tickCounter :: u64
  tickRateMS :: u64
  sysTickOn :: bool                   \<comment> \<open>SysTick CTRL.ENABLE\<close>
  sysTickInt :: bool                  \<comment> \<open>SysTick CTRL.TICKINT\<close>
  rxFifo :: "nat \<Rightarrow> u8 list"           \<comment> \<open>receive FIFO of each USART\<close>
  txLog :: "nat \<Rightarrow> u8 list"            \<comment> \<open>bytes sent on each USART, oldest first\<close>
  uartBaud :: "nat \<Rightarrow> u32"
  wire :: "(pin \<Rightarrow> bool) \<Rightarrow> pin \<Rightarrow> bool"
  pinOut :: "pin \<Rightarrow> bool"              \<comment> \<open>output latches\<close>
  pinDir :: "pin \<Rightarrow> bool"              \<comment> \<open>True: output\<close>
  pinMux :: "nat \<times> nat \<Rightarrow> nat"        \<comment> \<open>SCU function and mode word of a pad\<close>
  gpioLog :: "gpio_ev list"           \<comment> \<open>newest first\<close>
  miso :: u8
  spiLog :: "u8 list"                 \<comment> \<open>bytes sent on SPI, newest first\<close>
  i2cAck :: bool
  i2cLog :: "(u8 \<times> u8 list) list"     \<comment> \<open>I2C writes, newest first\<close>
  pinintSel :: "pin option"           \<comment> \<open>GPIO selected for PININT channel 0\<close>
  pinintEdge :: bool                  \<comment> \<open>PININT ISEL: channel 0 is edge sensitive\<close>
  pinintHigh :: bool                  \<comment> \<open>PININT SIENR: rising edge enabled\<close>
  pinintStatus :: bool                \<comment> \<open>PININT channel 0 latched\<close>
  nvicPend :: bool                    \<comment> \<open>PIN_INT0 pending\<close>
  nvicEnabled :: bool                 \<comment> \<open>PIN_INT0 enabled\<close>
  eventoPresencia :: bool             \<comment> \<open>flag shared with the handler\<close>
  awake :: bool                       \<comment> \<open>an interrupt was taken since the last WFI\<close>

text \<open>Power-up, with the script of what the environment will do.\<close>

definition hw0 :: "ev list list \<Rightarrow> 'z \<Rightarrow> 'z hw_scheme" where
  "hw0 sc z = \<lparr>script = sc, tickCounter = 0, tickRateMS = 1, sysTickOn = False, sysTickInt = False,
     rxFifo = (\<lambda>u. []), txLog = (\<lambda>u. []), uartBaud = (\<lambda>u. 0), wire = (\<lambda>out p. True),
     pinOut = (\<lambda>p. False), pinDir = (\<lambda>p. False), pinMux = (\<lambda>p. 0), gpioLog = [], miso = 0,
     spiLog = [], i2cAck = False, i2cLog = [], pinintSel = None, pinintEdge = False,
     pinintHigh = False, pinintStatus = False, nvicPend = False, nvicEnabled = False,
     eventoPresencia = False, awake = False, \<dots> = z\<rparr>"

type_synonym ('a, 'z) hwprog = "('a, 'z hw_scheme) prog"

section \<open>Interrupt handlers\<close>

text \<open>
  \<^verbatim>\<open>tickerCallback\<close> (\<^verbatim>\<open>SysTick_Handler\<close>). The hook function pointer is never set
  in this program (\<^verbatim>\<open>tickCallbackSet\<close> has no caller), so only the counter moves.
\<close>

definition tickerCallback :: "'z hw_scheme \<Rightarrow> 'z hw_scheme" where
  "tickerCallback w = w\<lparr>tickCounter := tickCounter w + 1\<rparr>"

text \<open>\<^verbatim>\<open>GPIO0_IRQHandler\<close>.\<close>

definition GPIO0_IRQHandler :: "'z hw_scheme \<Rightarrow> 'z hw_scheme" where
  "GPIO0_IRQHandler w = w\<lparr>pinintStatus := False, eventoPresencia := True\<rparr>"

text \<open>The NVIC enters the handler when the line is pending and enabled.\<close>

definition nvic_dispatch :: "'z hw_scheme \<Rightarrow> 'z hw_scheme" where
  "nvic_dispatch w =
     (if nvicEnabled w \<and> nvicPend w
      then (GPIO0_IRQHandler w)\<lparr>nvicPend := False, awake := True\<rparr>
      else w)"

text \<open>The receive FIFO of a USART is 16 bytes deep; a byte that finds it full is lost.\<close>

definition UART_RX_FIFO_SIZE :: nat where
  "UART_RX_FIFO_SIZE = 16"

fun apply_ev :: "ev \<Rightarrow> 'z hw_scheme \<Rightarrow> 'z hw_scheme" where
  "apply_ev (Ticks n) w =
     (if sysTickOn w \<and> sysTickInt w \<and> 0 < n
      then ((tickerCallback ^^ n) w)\<lparr>awake := True\<rparr> else w)"
| "apply_ev (RxByte u b) w =
     (if length (rxFifo w u) < UART_RX_FIFO_SIZE
      then w\<lparr>rxFifo := (rxFifo w)(u := rxFifo w u @ [b])\<rparr> else w)"
| "apply_ev (Wire f) w = w\<lparr>wire := f\<rparr>"
| "apply_ev (Miso b) w = w\<lparr>miso := b\<rparr>"
| "apply_ev (I2cAck a) w = w\<lparr>i2cAck := a\<rparr>"
| "apply_ev Presencia w =
     (if pinintSel w = Some (0, 12) \<and> pinintEdge w \<and> pinintHigh w
      then nvic_dispatch (w\<lparr>pinintStatus := True, nvicPend := True\<rparr>) else w)"

section \<open>Looking at the environment\<close>

definition poll :: "(unit, 'z) hwprog" where
  "poll w = (case script w of
       [] \<Rightarrow> More w
     | evs # rest \<Rightarrow> Ret () (fold apply_ev evs (w\<lparr>script := rest\<rparr>)))"

definition loop ::
  "('a \<Rightarrow> ('a + 'b, 'z) hwprog) \<Rightarrow> 'a \<Rightarrow> ('b, 'z) hwprog" where
  "loop body x w = iter (Suc (length (script w))) body x w"

section \<open>Registers\<close>

text \<open>\<^verbatim>\<open>Chip_GPIO_SetPinState\<close>, \<^verbatim>\<open>Chip_GPIO_GetPinState\<close> and \<^verbatim>\<open>Chip_GPIO_ReadPortBit\<close>.\<close>

definition Chip_GPIO_SetPinState :: "nat \<Rightarrow> nat \<Rightarrow> bool \<Rightarrow> (unit, 'z) hwprog" where
  "Chip_GPIO_SetPinState port pin setting = modify (\<lambda>w.
     w\<lparr>pinOut := (pinOut w)((port, pin) := setting),
       gpioLog := PinSet (port, pin) setting # gpioLog w\<rparr>)"

definition Chip_GPIO_GetPinState :: "nat \<Rightarrow> nat \<Rightarrow> (bool, 'z) hwprog" where
  "Chip_GPIO_GetPinState port pin =
     bind poll (\<lambda>_. gets (\<lambda>w. wire w (pinOut w) (port, pin)))"

definition Chip_GPIO_SetDir :: "nat \<Rightarrow> nat \<Rightarrow> bool \<Rightarrow> (unit, 'z) hwprog" where
  "Chip_GPIO_SetDir port pin out = modify (\<lambda>w.
     w\<lparr>pinDir := (pinDir w)((port, pin) := out)\<rparr>)"

definition Chip_SCU_PinMux :: "nat \<Rightarrow> nat \<Rightarrow> nat \<Rightarrow> nat \<Rightarrow> (unit, 'z) hwprog" where
  "Chip_SCU_PinMux port pin mode func = modify (\<lambda>w.
     w\<lparr>pinMux := (pinMux w)((port, pin) := mode OR func)\<rparr>)"

text \<open>\<^verbatim>\<open>Chip_PININT_ClearIntStatus\<close> and the NVIC operations on \<^verbatim>\<open>PIN_INT0_IRQn\<close>.\<close>

definition Chip_PININT_ClearIntStatus :: "(unit, 'z) hwprog" where
  "Chip_PININT_ClearIntStatus = modify (\<lambda>w. w\<lparr>pinintStatus := False\<rparr>)"

definition Chip_SCU_GPIOIntPinSel :: "nat \<Rightarrow> nat \<Rightarrow> (unit, 'z) hwprog" where
  "Chip_SCU_GPIOIntPinSel port pin = modify (\<lambda>w. w\<lparr>pinintSel := Some (port, pin)\<rparr>)"

definition Chip_PININT_SetPinModeEdge :: "(unit, 'z) hwprog" where
  "Chip_PININT_SetPinModeEdge = modify (\<lambda>w. w\<lparr>pinintEdge := True\<rparr>)"

definition Chip_PININT_EnableIntHigh :: "(unit, 'z) hwprog" where
  "Chip_PININT_EnableIntHigh = modify (\<lambda>w. w\<lparr>pinintHigh := True\<rparr>)"

definition NVIC_ClearPendingIRQ :: "(unit, 'z) hwprog" where
  "NVIC_ClearPendingIRQ = modify (\<lambda>w. w\<lparr>nvicPend := False\<rparr>)"

definition NVIC_EnableIRQ :: "(unit, 'z) hwprog" where
  "NVIC_EnableIRQ = modify (\<lambda>w. nvic_dispatch (w\<lparr>nvicEnabled := True\<rparr>))"

definition NVIC_DisableIRQ :: "(unit, 'z) hwprog" where
  "NVIC_DisableIRQ = modify (\<lambda>w. w\<lparr>nvicEnabled := False\<rparr>)"

text \<open>\<^verbatim>\<open>SysTick->CTRL\<close>, the TICKINT bit.\<close>

definition SysTick_setTickInt :: "bool \<Rightarrow> (unit, 'z) hwprog" where
  "SysTick_setTickInt b = modify (\<lambda>w. w\<lparr>sysTickInt := b\<rparr>)"

text \<open>\<^verbatim>\<open>__WFI\<close>: sleep until an interrupt is taken.\<close>

definition WFI :: "(unit, 'z) hwprog" where
  "WFI =
     bind (modify (\<lambda>w. w\<lparr>awake := False\<rparr>)) (\<lambda>_.
     loop (\<lambda>_.
       bind poll (\<lambda>_.
       bind (gets awake) (\<lambda>a. ret (if a then Inr () else Inl ())))) ())"

section \<open>Lemmas\<close>

lemma tickerCallback_funpow:
  "(tickerCallback ^^ n) w = w\<lparr>tickCounter := tickCounter w + of_nat n\<rparr>"
  by (induction n) (simp_all add: tickerCallback_def algebra_simps)

lemma apply_Ticks [simp]:
  "apply_ev (Ticks n) w =
     (if sysTickOn w \<and> sysTickInt w \<and> 0 < n
      then w\<lparr>tickCounter := tickCounter w + of_nat n, awake := True\<rparr> else w)"
  by (simp add: tickerCallback_funpow)

lemma script_nvic_dispatch [simp]: "script (nvic_dispatch w) = script w"
  by (simp add: nvic_dispatch_def GPIO0_IRQHandler_def)

lemma script_apply_ev [simp]: "script (apply_ev e w) = script w"
  by (cases e) (auto simp: tickerCallback_funpow)

lemma script_fold_apply_ev [simp]: "script (fold apply_ev evs w) = script w"
  by (induction evs arbitrary: w) auto

lemma poll_Cons [simp]:
  "script w = evs # rest \<Longrightarrow> poll w = Ret () (fold apply_ev evs (w\<lparr>script := rest\<rparr>))"
  by (simp add: poll_def)

lemma poll_Nil [simp]: "script w = [] \<Longrightarrow> poll w = More w"
  by (simp add: poll_def)

text \<open>
  The fields of the record that only the environment and its handlers write:
  everything else is untouched by a \<open>poll\<close>.
\<close>

definition env_frame :: "'z hw_scheme \<Rightarrow> 'z hw_scheme \<Rightarrow> bool" where
  "env_frame w w' \<longleftrightarrow>
     w' = w\<lparr>script := script w', tickCounter := tickCounter w', rxFifo := rxFifo w',
            wire := wire w', miso := miso w', i2cAck := i2cAck w',
            pinintStatus := pinintStatus w', nvicPend := nvicPend w',
            eventoPresencia := eventoPresencia w', awake := awake w'\<rparr>"

lemma env_frame_refl: "env_frame w w"
  by (simp add: env_frame_def)

lemma env_frame_trans:
  assumes "env_frame u v" and "env_frame v w"
  shows "env_frame u w"
  using assms unfolding env_frame_def by (cases u, cases v, cases w) simp

lemma env_frame_apply_ev: "env_frame w (apply_ev e w)"
  by (cases e)
    (simp_all add: env_frame_def nvic_dispatch_def GPIO0_IRQHandler_def tickerCallback_funpow)

lemma env_frame_fold: "env_frame w (fold apply_ev evs w)"
proof (induction evs arbitrary: w)
  case Nil
  show ?case by (simp add: env_frame_refl)
next
  case (Cons e evs)
  show ?case by (simp add: env_frame_trans [OF env_frame_apply_ev Cons])
qed

lemma env_frame_script: "env_frame w (w\<lparr>script := x\<rparr>)"
  by (cases w) (simp add: env_frame_def)

lemma env_frame_rxFifo: "env_frame w (w\<lparr>rxFifo := x\<rparr>)"
  by (cases w) (simp add: env_frame_def)

lemma env_frame_poll: "respeta env_frame poll"
proof (rule withinI)
  fix w :: "'a hw_scheme"
  show "env_frame w (final (poll w))"
    by (cases "script w")
      (auto simp: env_frame_refl intro: env_frame_trans [OF env_frame_script env_frame_fold])
qed

lemma within_poll_frame: "(\<And>w w'. env_frame w w' \<Longrightarrow> r w w') \<Longrightarrow> respeta r poll"
  using env_frame_poll unfolding respeta_def by blast

interpretation env: stable env_frame
  by unfold_locales (auto intro: env_frame_refl env_frame_trans)

section \<open>Progress\<close>

text \<open>A program never gives script elements back.\<close>

definition shrinks :: "'z hw_scheme \<Rightarrow> 'z hw_scheme \<Rightarrow> bool" where
  "shrinks w w' \<longleftrightarrow> length (script w') \<le> length (script w)"

text \<open>A program that looks at the environment at least once before it returns.\<close>

definition consumes :: "('a, 'z) hwprog \<Rightarrow> bool" where
  "consumes m \<longleftrightarrow> (\<forall>w x w'. m w = Ret x w' \<longrightarrow> length (script w') < length (script w))"

interpretation shr: stable shrinks
  by unfold_locales (auto simp: shrinks_def)

lemma shrinks_poll: "respeta shrinks poll"
  by (rule withinI) (simp add: shrinks_def poll_def split: list.splits)

lemma consumes_poll: "consumes poll"
  by (auto simp: consumes_def poll_def split: list.splits)

lemma consumes_bind: "consumes m \<Longrightarrow> (\<And>x. respeta shrinks (f x)) \<Longrightarrow> consumes (bind m f)"
proof -
  assume m: "consumes m" and f: "\<And>x. respeta shrinks (f x)"
  show "consumes (bind m f)"
    unfolding consumes_def bind_eq_Ret
  proof (intro allI impI, elim exE conjE)
    fix w y t x s
    assume "m w = Ret x s" and "f x s = Ret y t"
    with m within_Ret [OF f] show "length (script t) < length (script w)"
      by (fastforce simp: consumes_def shrinks_def)
  qed
qed

lemma consumes_despues: "respeta shrinks m \<Longrightarrow> (\<And>x. consumes (f x)) \<Longrightarrow> consumes (bind m f)"
proof -
  assume m: "respeta shrinks m" and f: "\<And>x. consumes (f x)"
  show "consumes (bind m f)"
    unfolding consumes_def bind_eq_Ret
  proof (intro allI impI, elim exE conjE)
    fix w y t x s
    assume "m w = Ret x s" and "f x s = Ret y t"
    with f within_Ret [OF m] show "length (script t) < length (script w)"
      by (fastforce simp: consumes_def shrinks_def)
  qed
qed

lemma consumes_block:
  assumes "\<And>m. m \<in> set ms \<Longrightarrow> respeta shrinks m" and "m \<in> set ms" and "consumes m"
  shows "consumes (block ms)"
  using assms
proof (induction ms)
  case (Cons n ms)
  have "respeta shrinks (block ms)" using Cons.prems(1) by (intro shr.within_block) simp
  then show ?case
    using Cons by (cases "m = n") (auto intro: consumes_bind consumes_despues)
qed simp

lemma consumes_case_prod:
  "(\<And>a b. x = (a, b) \<Longrightarrow> consumes (f a b)) \<Longrightarrow> consumes (case x of (a, b) \<Rightarrow> f a b)"
  by (cases x) auto

lemma shrinks_loop: "(\<And>x. respeta shrinks (body x)) \<Longrightarrow> respeta shrinks (loop body x)"
  by (rule withinI) (simp add: loop_def withinD [OF shr.within_iter])

text \<open>
  The loop rule: for a body that looks at the hardware in every round that
  continues, an invariant is enough, and the loop does not hang.
\<close>

lemma sat_loop:
  assumes "I x w"
    and body: "\<And>x. consumes (body x)"
    and step: "\<And>x w. I x w \<Longrightarrow>
      sat E (\<lambda>r w'. case r of Inl y \<Rightarrow> I y w' | Inr z \<Rightarrow> Q z w') R (body x w)"
  shows "sat E Q R (loop body x w)"
  unfolding loop_def
proof (rule sat_iter [where I = I and \<mu> = "\<lambda>w. length (script w)"])
  fix x w
  assume "I x w"
  from step [OF this] body [of x]
  show "sat E (\<lambda>r w'. case r of Inl y \<Rightarrow> I y w' \<and> length (script w') < length (script w)
          | Inr z \<Rightarrow> Q z w') R (body x w)"
    by (cases "body x w") (auto simp: consumes_def split: sum.splits)
qed (use assms(1) in simp_all)

lemma keeps_loop:
  assumes "\<And>x. consumes (body x)" and "\<And>x. keeps E I (body x)"
  shows "keeps E I (loop body x)"
proof (rule keepsI, rule sat_loop [where I = "\<lambda>_. I"])
  fix x w
  assume "I w"
  from keepsD [OF assms(2) this]
  show "sat E (\<lambda>r w'. case r of Inl y \<Rightarrow> I w' | Inr z \<Rightarrow> I w') (\<lambda>_. True) (body x w)"
    by (rule sat_weaken) (auto split: sum.splits)
qed (use assms(1) in simp_all)

lemma safe_poll: "safe E poll"
  by (simp add: keeps_def poll_def split: list.splits)

text \<open>Unfolding: one round, then the loop again.\<close>

lemma iter_enough:
  assumes body: "\<And>x. consumes (body x)"
    and "length (script w) < n" and "length (script w) < k"
  shows "iter n body x w = iter k body x w"
  using assms(2,3)
proof (induction n arbitrary: k x w)
  case 0
  then show ?case by simp
next
  case (Suc n)
  obtain k' where k: "k = Suc k'" using Suc.prems(2) by (cases k) auto
  show ?case unfolding k iter.simps
  proof (cases "body x w")
    case (Ret r w')
    with body have "length (script w') < length (script w)" by (simp add: consumes_def)
    with Suc.prems k have "length (script w') < n" "length (script w') < k'" by auto
    from Suc.IH [OF this]
    show "bind (body x) (case_sum (iter n body) ret) w = bind (body x) (case_sum (iter k' body) ret) w"
      using Ret by (simp add: bind_def split: sum.splits)
  qed (simp_all add: bind_def)
qed

lemma loop_unfold:
  assumes "\<And>x. consumes (body x)"
  shows "loop body x = bind (body x) (\<lambda>r. case r of Inl y \<Rightarrow> loop body y | Inr z \<Rightarrow> ret z)"
proof (rule ext)
  fix w
  show "loop body x w = bind (body x) (\<lambda>r. case r of Inl y \<Rightarrow> loop body y | Inr z \<Rightarrow> ret z) w"
  proof (cases "body x w")
    case (Ret r w')
    with assms have "length (script w') < length (script w)" by (simp add: consumes_def)
    with Ret show ?thesis
      by (auto simp: loop_def bind_def iter.simps(2) [of "length (script w)"] split: sum.splits
          intro: iter_enough [OF assms])
  qed (simp_all add: loop_def bind_def iter.simps)
qed

section \<open>The interface of a relation that the hardware layer respects\<close>

text \<open>
  A relation on states that is kept by every primitive of the hardware layer,
  where only the pins of \<open>pins\<close> are driven and only the USARTs of \<open>usarts\<close> are
  written. Each function of the firmware is shown once, in this locale or an
  extension of it, to keep such a relation; a frame condition or a monotonicity
  fact is then an interpretation.
\<close>

locale hw_stable = stable r
  for r :: "'z hw_scheme \<Rightarrow> 'z hw_scheme \<Rightarrow> bool" +
  fixes pins :: "pin set" and usarts :: "nat set"
  assumes r_poll: "respeta r poll"
    and r_rx: "r w (w\<lparr>rxFifo := rx\<rparr>)"
    and r_tx: "u \<in> usarts \<Longrightarrow> r w (w\<lparr>txLog := (txLog w)(u := txLog w u @ bs)\<rparr>)"
    and r_pin: "(port, pin) \<in> pins \<Longrightarrow>
          r w (w\<lparr>pinOut := (pinOut w)((port, pin) := v),
                 gpioLog := PinSet (port, pin) v # gpioLog w\<rparr>)"
    and r_busy: "r w (w\<lparr>gpioLog := Busy n # gpioLog w\<rparr>)"
    and r_i2c: "r w (w\<lparr>i2cLog := a # i2cLog w\<rparr>)"
    and r_spi: "r w (w\<lparr>spiLog := sb # spiLog w\<rparr>)"
    and r_dir: "r w (w\<lparr>pinDir := d\<rparr>)"
    and r_mux: "r w (w\<lparr>pinMux := m\<rparr>)"
    and r_baud: "r w (w\<lparr>uartBaud := bd\<rparr>)"
    and r_pinint: "r w (w\<lparr>pinintStatus := b\<rparr>)"
    and r_pinintSel: "r w (w\<lparr>pinintSel := sel\<rparr>)"
    and r_pinintEdge: "r w (w\<lparr>pinintEdge := b\<rparr>)"
    and r_pinintHigh: "r w (w\<lparr>pinintHigh := b\<rparr>)"
    and r_pend: "r w (w\<lparr>nvicPend := b\<rparr>)"
    and r_nvic: "r w (w\<lparr>nvicEnabled := b\<rparr>)"
    and r_evento: "r w (w\<lparr>eventoPresencia := b\<rparr>)"
    and r_awake: "r w (w\<lparr>awake := b\<rparr>)"
    and r_tickOn: "r w (w\<lparr>sysTickOn := b\<rparr>)"
    and r_tickInt: "r w (w\<lparr>sysTickInt := b\<rparr>)"
    and r_tickRate: "r w (w\<lparr>tickRateMS := t\<rparr>)"
begin

lemma within_loop: "(\<And>x. respeta r (body x)) \<Longrightarrow> respeta r (loop body x)"
  by (rule withinI) (simp add: loop_def withinD [OF within_iter])

lemma within_SetPinState: "(port, pin) \<in> pins \<Longrightarrow> respeta r (Chip_GPIO_SetPinState port pin v)"
  by (simp add: Chip_GPIO_SetPinState_def within_modify r_pin)

lemma within_GetPinState: "respeta r (Chip_GPIO_GetPinState port pin)"
  unfolding Chip_GPIO_GetPinState_def by (intro within_rules r_poll)

lemma within_SetDir: "respeta r (Chip_GPIO_SetDir port pin v)"
  by (simp add: Chip_GPIO_SetDir_def within_modify r_dir)

lemma within_PinMux: "respeta r (Chip_SCU_PinMux port pin mode func)"
  by (simp add: Chip_SCU_PinMux_def within_modify r_mux)

lemma within_ClearIntStatus: "respeta r Chip_PININT_ClearIntStatus"
  by (simp add: Chip_PININT_ClearIntStatus_def within_modify r_pinint)

lemma within_pinint:
  "respeta r (Chip_SCU_GPIOIntPinSel p q)" "respeta r Chip_PININT_SetPinModeEdge"
  "respeta r Chip_PININT_EnableIntHigh"
  by (simp_all add: Chip_SCU_GPIOIntPinSel_def Chip_PININT_SetPinModeEdge_def
      Chip_PININT_EnableIntHigh_def within_modify r_pinintSel r_pinintEdge r_pinintHigh)

lemma within_ClearPendingIRQ: "respeta r NVIC_ClearPendingIRQ"
  by (simp add: NVIC_ClearPendingIRQ_def within_modify r_pend)

lemma within_DisableIRQ: "respeta r NVIC_DisableIRQ"
  by (simp add: NVIC_DisableIRQ_def within_modify r_nvic)

lemma r_dispatch: "r w (nvic_dispatch w)"
  unfolding nvic_dispatch_def GPIO0_IRQHandler_def
  by (simp add: r_refl)
    (blast intro: r_trans [OF r_pinint r_trans [OF r_evento r_trans [OF r_pend r_awake]]])

lemma within_EnableIRQ: "respeta r NVIC_EnableIRQ"
  by (simp add: NVIC_EnableIRQ_def within_modify r_trans [OF r_nvic r_dispatch])

lemma within_setTickInt: "respeta r (SysTick_setTickInt b)"
  by (simp add: SysTick_setTickInt_def within_modify r_tickInt)

lemma within_evento: "respeta r (modify (\<lambda>w. w\<lparr>eventoPresencia := b\<rparr>))"
  by (simp add: within_modify r_evento)

lemma within_awake: "respeta r (modify (\<lambda>w. w\<lparr>awake := b\<rparr>))"
  by (simp add: within_modify r_awake)

lemma within_WFI: "respeta r WFI"
  unfolding WFI_def by (intro within_bind within_loop within_awake r_poll within_gets within_ret)

lemmas hw_rules = within_rules r_poll within_loop within_SetPinState within_GetPinState
  within_SetDir within_PinMux within_ClearIntStatus within_pinint within_ClearPendingIRQ within_DisableIRQ
  within_EnableIRQ within_setTickInt within_evento within_WFI

end

end
