(* ===== verification/Sapi.thy ===== *)
theory Sapi
  imports Hardware
begin

text \<open>
  The part of sAPI v0.6.2 (\<^verbatim>\<open>src/libs/sapi/sapi_v0.6.2\<close>) that the lock uses:
  the tick counter and the delays, GPIO, UART, SPI, I2C, the matrix keypad and
  the board set-up for the EDU-CIAA-NXP. The hardware registers are those of
  theory Hardware.

  Waiting for a free transmit FIFO (\<^verbatim>\<open>uartTxReady\<close>) takes time and nothing else,
  so \<open>uartWriteByte\<close> appends to the log of the USART at once.
\<close>

section \<open>Tick counter (sapi\_tick.c) and delays (sapi\_delay.c)\<close>

definition tickPowerSet :: "bool \<Rightarrow> (unit, 'z) hwprog" where
  "tickPowerSet pwr = modify (\<lambda>w. w\<lparr>sysTickOn := pwr, sysTickInt := pwr\<rparr>)"

definition tickInit :: "u64 \<Rightarrow> (bool, 'z) hwprog" where
  "tickInit tickRateMSvalue =
     (if tickRateMSvalue = 0 then bind (tickPowerSet False) (\<lambda>_. ret False)
      else if 1 \<le> tickRateMSvalue \<and> tickRateMSvalue \<le> 50 then
        bind (modify (\<lambda>w. w\<lparr>tickRateMS := tickRateMSvalue\<rparr>)) (\<lambda>_.
        bind (tickPowerSet True) (\<lambda>_. ret True))
      else ret False)"

definition tickRead :: "(u64, 'z) hwprog" where
  "tickRead = bind poll (\<lambda>_. gets tickCounter)"

definition delay :: "u64 \<Rightarrow> (unit, 'z) hwprog" where
  "delay duration_ms =
     bind tickRead (\<lambda>startTime.
     loop (\<lambda>_.
       bind tickRead (\<lambda>t.
       bind (gets tickRateMS) (\<lambda>rate.
       ret (if t - startTime < duration_ms div rate then Inl () else Inr ())))) ())"

text \<open>The busy waits count down from a number of rounds; they touch nothing else.\<close>

definition INACCURATE_TO_MS :: u64 where "INACCURATE_TO_MS = 20400"
definition INACCURATE_TO_US_x10 :: u64 where "INACCURATE_TO_US_x10 = 204"

definition busy :: "u64 \<Rightarrow> (unit, 'z) hwprog" where
  "busy n = modify (\<lambda>w. w\<lparr>gpioLog := Busy n # gpioLog w\<rparr>)"

definition delayInaccurateMs :: "u64 \<Rightarrow> (unit, 'z) hwprog" where
  "delayInaccurateMs delay_ms = busy (INACCURATE_TO_MS * delay_ms)"

definition delayInaccurateUs :: "u64 \<Rightarrow> (unit, 'z) hwprog" where
  "delayInaccurateUs delay_us = busy ((INACCURATE_TO_US_x10 * delay_us) div 10)"

text \<open>The non-blocking delay.\<close>

record delay_t =
  startTime :: u64
  duration :: u64
  running :: bool

definition delayInit :: "delay_t \<Rightarrow> u64 \<Rightarrow> (delay_t, 'z) hwprog" where
  "delayInit d dur =
     bind (gets tickRateMS) (\<lambda>rate. ret (d\<lparr>duration := dur div rate, running := False\<rparr>))"

definition delayRead :: "delay_t \<Rightarrow> (bool \<times> delay_t, 'z) hwprog" where
  "delayRead d =
     (if \<not> running d then
        bind tickRead (\<lambda>t. ret (False, d\<lparr>startTime := t, running := True\<rparr>))
      else
        bind tickRead (\<lambda>t.
        if duration d \<le> t - startTime d then ret (True, d\<lparr>running := False\<rparr>)
        else ret (False, d)))"

definition delayWrite :: "delay_t \<Rightarrow> u64 \<Rightarrow> (delay_t, 'z) hwprog" where
  "delayWrite d dur = bind (gets tickRateMS) (\<lambda>rate. ret (d\<lparr>duration := dur div rate\<rparr>))"

section \<open>GPIO (sapi\_gpio.c)\<close>

text \<open>
  \<^verbatim>\<open>gpioMap_t\<close> of \<^verbatim>\<open>sapi_peripheral_map.h\<close> is a C enumeration; the pins the
  program names are given their enumeration values.
\<close>

type_synonym gpioMap_t = int

definition VCC :: gpioMap_t where "VCC = -2"
definition GND :: gpioMap_t where "GND = -1"
definition T_FIL1 :: gpioMap_t where "T_FIL1 = 0"
definition T_COL2 :: gpioMap_t where "T_COL2 = 1"
definition T_COL0 :: gpioMap_t where "T_COL0 = 2"
definition T_FIL2 :: gpioMap_t where "T_FIL2 = 3"
definition T_FIL3 :: gpioMap_t where "T_FIL3 = 4"
definition T_FIL0 :: gpioMap_t where "T_FIL0 = 5"
definition T_COL1 :: gpioMap_t where "T_COL1 = 6"
definition GPIO7 :: gpioMap_t where "GPIO7 = 12"
definition GPIO6 :: gpioMap_t where "GPIO6 = 29"

lemmas gpio_map_defs = VCC_def GND_def T_FIL0_def T_FIL1_def T_FIL2_def T_FIL3_def
  T_COL0_def T_COL1_def T_COL2_def GPIO6_def GPIO7_def

datatype gpioInit_t =
    GPIO_OUTPUT | GPIO_INPUT | GPIO_INPUT_PULLUP | GPIO_INPUT_PULLDOWN
  | GPIO_INPUT_PULLUP_PULLDOWN | GPIO_ENABLE

text \<open>The EDU-CIAA-NXP table: pad (port, pin), pad function, GPIO (port, bit).\<close>

definition gpioPinsInit :: "((nat \<times> nat) \<times> nat \<times> pin) list" where
  "gpioPinsInit =
    [((4, 1), 0, (2, 1)), ((7, 5), 0, (3, 13)), ((1, 5), 0, (1, 8)), ((4, 2), 0, (2, 2)),
     ((4, 3), 0, (2, 3)), ((4, 0), 0, (2, 0)), ((7, 4), 0, (3, 12)), ((3, 2), 4, (5, 9)),
     ((3, 1), 4, (5, 8)), ((2, 3), 4, (5, 3)), ((2, 4), 4, (5, 4)), ((6, 12), 0, (2, 8)),
     ((6, 11), 0, (3, 7)), ((6, 9), 0, (3, 5)), ((6, 7), 4, (5, 15)), ((6, 4), 0, (3, 3)),
     ((4, 4), 0, (2, 4)), ((4, 5), 0, (2, 5)), ((4, 6), 0, (2, 6)), ((4, 8), 4, (5, 12)),
     ((4, 10), 4, (5, 14)), ((1, 3), 0, (0, 10)), ((1, 20), 0, (0, 15)), ((1, 18), 0, (0, 13)),
     ((1, 17), 0, (0, 12)), ((1, 16), 0, (0, 3)), ((7, 7), 0, (3, 15)), ((0, 1), 0, (0, 1)),
     ((0, 0), 0, (0, 0)), ((6, 10), 0, (3, 6)), ((6, 8), 4, (5, 16)), ((6, 5), 0, (3, 4)),
     ((6, 1), 0, (3, 0)), ((4, 9), 4, (5, 13)), ((1, 4), 0, (0, 11)), ((1, 15), 0, (0, 2)),
     ((1, 0), 0, (0, 4)), ((1, 1), 0, (0, 8)), ((1, 2), 0, (0, 9)), ((1, 6), 0, (1, 9)),
     ((2, 0), 4, (5, 0)), ((2, 1), 4, (5, 1)), ((2, 2), 4, (5, 2)), ((2, 10), 0, (0, 14)),
     ((2, 11), 0, (1, 11)), ((2, 12), 0, (1, 12))]"

definition gpioObtainPinInit :: "gpioMap_t \<Rightarrow> ((nat \<times> nat) \<times> nat \<times> pin) option" where
  "gpioObtainPinInit pin =
     (if 0 \<le> pin \<and> nat pin < length gpioPinsInit then Some (gpioPinsInit ! nat pin) else None)"

text \<open>Mode words of \<^verbatim>\<open>scu_18xx_43xx.h\<close>.\<close>

definition SCU_MODE_PULLUP :: nat where "SCU_MODE_PULLUP = 0"
definition SCU_MODE_REPEATER :: nat where "SCU_MODE_REPEATER = 8"
definition SCU_MODE_INACT :: nat where "SCU_MODE_INACT = 16"
definition SCU_MODE_PULLDOWN :: nat where "SCU_MODE_PULLDOWN = 24"
definition SCU_MODE_INBUFF_EN :: nat where "SCU_MODE_INBUFF_EN = 64"
definition SCU_MODE_ZIF_DIS :: nat where "SCU_MODE_ZIF_DIS = 128"

definition gpioInit_in :: "(nat \<times> nat) \<times> nat \<times> pin \<Rightarrow> nat \<Rightarrow> (bool, 'z) hwprog" where
  "gpioInit_in e pull = (case e of ((pport, ppin), func, (gport, gpin)) \<Rightarrow>
     bind (Chip_SCU_PinMux pport ppin (pull OR SCU_MODE_INBUFF_EN OR SCU_MODE_ZIF_DIS) func) (\<lambda>_.
     bind (Chip_GPIO_SetDir gport gpin False) (\<lambda>_. ret True)))"

text \<open>An index outside the table is an out-of-bounds read.\<close>

definition gpioInit :: "gpioMap_t \<Rightarrow> gpioInit_t \<Rightarrow> (bool, 'z) hwprog" where
  "gpioInit pin config =
     (if pin = VCC then ret False else if pin = GND then ret False else
      case gpioObtainPinInit pin of None \<Rightarrow> fault OutOfBounds | Some e \<Rightarrow>
      (case config of
         GPIO_ENABLE \<Rightarrow> ret True
       | GPIO_INPUT \<Rightarrow> gpioInit_in e SCU_MODE_INACT
       | GPIO_INPUT_PULLUP \<Rightarrow> gpioInit_in e SCU_MODE_PULLUP
       | GPIO_INPUT_PULLDOWN \<Rightarrow> gpioInit_in e SCU_MODE_PULLDOWN
       | GPIO_INPUT_PULLUP_PULLDOWN \<Rightarrow> gpioInit_in e SCU_MODE_REPEATER
       | GPIO_OUTPUT \<Rightarrow> (case e of ((pport, ppin), func, (gport, gpin)) \<Rightarrow>
           bind (Chip_SCU_PinMux pport ppin
                   (SCU_MODE_INACT OR SCU_MODE_ZIF_DIS OR SCU_MODE_INBUFF_EN) func) (\<lambda>_.
           bind (Chip_GPIO_SetDir gport gpin True) (\<lambda>_.
           bind (Chip_GPIO_SetPinState gport gpin False) (\<lambda>_. ret True))))))"

definition gpioWrite :: "gpioMap_t \<Rightarrow> bool \<Rightarrow> (bool, 'z) hwprog" where
  "gpioWrite pin val =
     (if pin = VCC then ret False else if pin = GND then ret False else
      case gpioObtainPinInit pin of None \<Rightarrow> fault OutOfBounds
      | Some (_, _, (gport, gpin)) \<Rightarrow>
          bind (Chip_GPIO_SetPinState gport gpin val) (\<lambda>_. ret True))"

definition gpioRead :: "gpioMap_t \<Rightarrow> (bool, 'z) hwprog" where
  "gpioRead pin =
     (if pin = VCC then ret True else if pin = GND then ret False else
      case gpioObtainPinInit pin of None \<Rightarrow> fault OutOfBounds
      | Some (_, _, (gport, gpin)) \<Rightarrow> Chip_GPIO_GetPinState gport gpin)"

definition gpioToggle :: "gpioMap_t \<Rightarrow> (bool, 'z) hwprog" where
  "gpioToggle pin = bind (gpioRead pin) (\<lambda>v. gpioWrite pin (\<not> v))"

section \<open>UART (sapi\_uart.c)\<close>

type_synonym uartMap_t = nat

definition UART_GPIO :: uartMap_t where "UART_GPIO = 0"
definition UART_485 :: uartMap_t where "UART_485 = 1"
definition UART_USB :: uartMap_t where "UART_USB = 3"
definition UART_ENET :: uartMap_t where "UART_ENET = 4"
definition UART_232 :: uartMap_t where "UART_232 = 5"

text \<open>USART number, transmit pad and receive pad (port, pin, function) of each map entry.\<close>

definition lpcUarts :: "(nat \<times> (nat \<times> nat \<times> nat) \<times> (nat \<times> nat \<times> nat)) list" where
  "lpcUarts =
    [(0, (6, 4, 2), (6, 5, 2)), (0, (9, 5, 7), (9, 6, 7)), (1, (0, 0, 0), (0, 0, 0)),
     (2, (7, 1, 6), (7, 2, 6)), (2, (1, 15, 1), (1, 16, 1)), (3, (2, 3, 2), (2, 4, 2))]"

definition usart :: "uartMap_t \<Rightarrow> nat" where
  "usart uart = fst (lpcUarts ! uart)"

definition uartRxReady :: "uartMap_t \<Rightarrow> (bool, 'z) hwprog" where
  "uartRxReady uart = bind poll (\<lambda>_. gets (\<lambda>w. rxFifo w (usart uart) \<noteq> []))"

definition uartRxRead :: "uartMap_t \<Rightarrow> (u8, 'z) hwprog" where
  "uartRxRead uart = (\<lambda>w. case rxFifo w (usart uart) of
       [] \<Rightarrow> Ret 0 w
     | b # bs \<Rightarrow> Ret b (w\<lparr>rxFifo := (rxFifo w)(usart uart := bs)\<rparr>))"

definition uartRxFlush :: "uartMap_t \<Rightarrow> (unit, 'z) hwprog" where
  "uartRxFlush uart = loop (\<lambda>_.
     bind (uartRxReady uart) (\<lambda>ready.
     if ready then bind (uartRxRead uart) (\<lambda>_. ret (Inl ())) else ret (Inr ()))) ()"

definition uartTxWrite :: "uartMap_t \<Rightarrow> u8 \<Rightarrow> (unit, 'z) hwprog" where
  "uartTxWrite uart val = modify (\<lambda>w.
     w\<lparr>txLog := (txLog w)(usart uart := txLog w (usart uart) @ [val])\<rparr>)"

definition uartReadByte :: "uartMap_t \<Rightarrow> (u8 option, 'z) hwprog" where
  "uartReadByte uart =
     bind (uartRxReady uart) (\<lambda>ready.
     if ready then bind (uartRxRead uart) (\<lambda>b. ret (Some b)) else ret None)"

definition uartWriteByte :: "uartMap_t \<Rightarrow> u8 \<Rightarrow> (unit, 'z) hwprog" where
  "uartWriteByte uart val = uartTxWrite uart val"

definition uartWriteString :: "uartMap_t \<Rightarrow> string \<Rightarrow> (unit, 'z) hwprog" where
  "uartWriteString uart str = for_each str (\<lambda>c. uartWriteByte uart (of_char c))"

definition uartWriteByteArray :: "uartMap_t \<Rightarrow> u8 list \<Rightarrow> (unit, 'z) hwprog" where
  "uartWriteByteArray uart bs = for_each bs (uartWriteByte uart)"

text \<open>Resetting the FIFOs drops what was received.\<close>

definition uartInit :: "uartMap_t \<Rightarrow> u32 \<Rightarrow> (unit, 'z) hwprog" where
  "uartInit uart baudRate = (case lpcUarts ! uart of (n, (tp, tn, tf), (rp, rn, rf)) \<Rightarrow>
     block [
       modify (\<lambda>w. w\<lparr>uartBaud := (uartBaud w)(n := baudRate)\<rparr>),
       modify (\<lambda>w. w\<lparr>rxFifo := (rxFifo w)(n := [])\<rparr>),
       Chip_SCU_PinMux tp tn SCU_MODE_PULLDOWN tf,
       Chip_SCU_PinMux rp rn (SCU_MODE_INACT OR SCU_MODE_INBUFF_EN OR SCU_MODE_ZIF_DIS) rf,
       if uart = UART_485 then Chip_SCU_PinMux 6 2 SCU_MODE_PULLDOWN 2 else ret ()])"

section \<open>SPI and I2C (sapi\_spi.c, sapi\_i2c.c)\<close>

definition SPI0 :: nat where "SPI0 = 0"

definition spiInit :: "nat \<Rightarrow> (bool, 'z) hwprog" where
  "spiInit spi =
     (if spi = SPI0 then
        bind (block [
          Chip_SCU_PinMux 15 4 SCU_MODE_PULLUP 0,
          Chip_SCU_PinMux 1 3 (SCU_MODE_PULLUP OR SCU_MODE_INBUFF_EN OR SCU_MODE_ZIF_DIS) 5,
          Chip_SCU_PinMux 1 4 SCU_MODE_PULLUP 5,
          Chip_SCU_PinMux 6 1 SCU_MODE_PULLUP 0,
          Chip_GPIO_SetDir 3 0 True]) (\<lambda>_. ret True)
      else ret False)"

text \<open>A read clocks out as many bytes as asked; the slave answers each of them.\<close>

primrec spi_clock_in :: "nat \<Rightarrow> (u8 list, 'z) hwprog" where
  "spi_clock_in 0 = ret []"
| "spi_clock_in (Suc n) =
     bind poll (\<lambda>_. bind (gets miso) (\<lambda>b. bind (spi_clock_in n) (\<lambda>bs. ret (b # bs))))"

definition spiRead :: "nat \<Rightarrow> nat \<Rightarrow> (u8 list option, 'z) hwprog" where
  "spiRead spi bufferSize =
     (if spi = SPI0 then bind (spi_clock_in bufferSize) (\<lambda>bs. ret (Some bs)) else ret None)"

definition spiWrite :: "nat \<Rightarrow> u8 list \<Rightarrow> (bool, 'z) hwprog" where
  "spiWrite spi buffer =
     (if spi = SPI0 then
        bind (for_each buffer (\<lambda>b. modify (\<lambda>w. w\<lparr>spiLog := b # spiLog w\<rparr>))) (\<lambda>_. ret True)
      else ret False)"

definition I2C0 :: nat where "I2C0 = 0"

definition i2cInit :: "nat \<Rightarrow> u32 \<Rightarrow> (bool, 'z) hwprog" where
  "i2cInit i2cNumber clockRateHz = ret (i2cNumber = I2C0)"

definition i2cWrite :: "nat \<Rightarrow> u8 \<Rightarrow> u8 list \<Rightarrow> (bool, 'z) hwprog" where
  "i2cWrite i2cNumber addr bs =
     (if i2cNumber \<noteq> I2C0 then ret False
      else bind (modify (\<lambda>w. w\<lparr>i2cLog := (addr, bs) # i2cLog w\<rparr>)) (\<lambda>_. gets i2cAck))"

section \<open>Matrix keypad (sapi\_keypad.c)\<close>

record keypad_t =
  keypadRowPins :: "gpioMap_t list"
  keypadColPins :: "gpioMap_t list"

definition keypadInit :: "gpioMap_t list \<Rightarrow> gpioMap_t list \<Rightarrow> (bool \<times> keypad_t, 'z) hwprog" where
  "keypadInit rows cols =
     bind (for_each rows (\<lambda>p. void (gpioInit p GPIO_OUTPUT))) (\<lambda>_.
     bind (for_each cols (\<lambda>p. void (gpioInit p GPIO_INPUT_PULLUP))) (\<lambda>_.
     ret (rows \<noteq> [] \<and> cols \<noteq> [], \<lparr>keypadRowPins = rows, keypadColPins = cols\<rparr>)))"

text \<open>The inner search: drive one row low at a time and look at one column.\<close>

definition keypad_rows :: "keypad_t \<Rightarrow> nat \<Rightarrow> (u16 option, 'z) hwprog" where
  "keypad_rows k c =
     for_find [0..<length (keypadRowPins k)] (\<lambda>r.
       bind (if 0 < r then gpioWrite (keypadRowPins k ! (r - 1)) True else ret True) (\<lambda>_.
       bind (gpioWrite (keypadRowPins k ! r) False) (\<lambda>_.
       bind (gpioRead (keypadColPins k ! c)) (\<lambda>level.
       ret (if level then None
            else Some (of_nat r * of_nat (length (keypadColPins k)) + of_nat c))))))"

definition keypadRead :: "keypad_t \<Rightarrow> (u16 option, 'z) hwprog" where
  "keypadRead k =
     bind (for_each (keypadRowPins k) (\<lambda>p. void (gpioWrite p False))) (\<lambda>_.
     for_find [0..<length (keypadColPins k)] (\<lambda>c.
       bind (gpioRead (keypadColPins k ! c)) (\<lambda>level.
       if level then ret None
       else
         bind (delay 50) (\<lambda>_.
         bind (for_each (tl (keypadRowPins k)) (\<lambda>p. void (gpioWrite p True))) (\<lambda>_.
         keypad_rows k c)))))"

section \<open>Board set-up (sapi\_board.c)\<close>

text \<open>TEC1 to TEC4 are entries 36 to 39, the six LEDs entries 40 to 45.\<close>

definition boardInit :: "(unit, 'z) hwprog" where
  "boardInit = block [
     void (tickInit 1),
     void (gpioInit 0 GPIO_ENABLE),
     for_each [36, 37, 38, 39] (\<lambda>p. void (gpioInit p GPIO_INPUT)),
     for_each [40, 41, 42, 43, 44, 45] (\<lambda>p. void (gpioInit p GPIO_OUTPUT))]"

section \<open>What the layer keeps\<close>

definition gpio_of :: "gpioMap_t \<Rightarrow> pin option" where
  "gpio_of p = map_option (\<lambda>e. snd (snd e)) (gpioObtainPinInit p)"

context hw_stable begin

lemma within_tickPowerSet: "respeta r (tickPowerSet b)"
  unfolding tickPowerSet_def by (rule within_modify) (blast intro: r_trans [OF r_tickOn r_tickInt])

lemma within_tickInit: "respeta r (tickInit t)"
  unfolding tickInit_def
  by (intro within_splits hw_rules within_tickPowerSet r_tickRate)

lemma within_tickRead: "respeta r tickRead"
  unfolding tickRead_def by (intro hw_rules)

lemma within_delay: "respeta r (delay d)"
  unfolding delay_def by (intro hw_rules within_tickRead)

lemma within_busy: "respeta r (busy n)"
  unfolding busy_def by (rule within_modify) (rule r_busy)

lemma within_delayInaccurateUs: "respeta r (delayInaccurateUs d)"
  unfolding delayInaccurateUs_def by (rule within_busy)

lemma within_gpioInit_in: "respeta r (gpioInit_in e pull)"
  unfolding gpioInit_in_def by (intro within_splits hw_rules)

lemma within_gpioInit:
  "(\<And>q. gpio_of p = Some q \<Longrightarrow> q \<in> pins) \<Longrightarrow> respeta r (gpioInit p config)"
  unfolding gpioInit_def gpio_of_def
  by (cases config)
    (auto intro!: within_splits hw_rules within_gpioInit_in)

lemma within_gpioWrite:
  "(\<And>q. gpio_of p = Some q \<Longrightarrow> q \<in> pins) \<Longrightarrow> respeta r (gpioWrite p v)"
  unfolding gpioWrite_def gpio_of_def by (auto intro!: within_splits hw_rules)

lemma within_gpioRead: "respeta r (gpioRead p)"
  unfolding gpioRead_def by (intro within_splits hw_rules)

lemma within_uartReadByte: "respeta r (uartReadByte u)"
proof -
  have "respeta r (uartRxRead u)"
    by (rule withinI) (simp add: uartRxRead_def r_refl r_rx split: list.splits)
  then show ?thesis
    unfolding uartReadByte_def uartRxReady_def by (intro within_splits hw_rules)
qed

lemma within_uartWriteByte: "usart u \<in> usarts \<Longrightarrow> respeta r (uartWriteByte u b)"
  unfolding uartWriteByte_def uartTxWrite_def by (rule within_modify) (rule r_tx)

lemma within_uartWriteString: "usart u \<in> usarts \<Longrightarrow> respeta r (uartWriteString u s)"
  unfolding uartWriteString_def by (intro hw_rules within_uartWriteByte)

lemma within_uartInit: "respeta r (uartInit u b)"
  unfolding uartInit_def by (intro within_splits within_block) (auto intro: hw_rules r_baud r_rx)

lemma within_spiInit: "respeta r (spiInit s)"
  unfolding spiInit_def by (intro within_splits within_block hw_rules) (auto intro: hw_rules)

lemma within_spi_clock_in: "respeta r (spi_clock_in n)"
  by (induction n) (auto intro!: hw_rules)

lemma within_spiRead: "respeta r (spiRead s n)"
  unfolding spiRead_def by (intro within_splits hw_rules within_spi_clock_in)

lemma within_spiWrite: "respeta r (spiWrite s bs)"
  unfolding spiWrite_def by (intro within_splits hw_rules r_spi)

lemma within_i2cWrite: "respeta r (i2cWrite n a bs)"
  unfolding i2cWrite_def by (intro within_splits hw_rules r_i2c)

lemma within_keypadRead:
  assumes "\<And>p q. p \<in> set (keypadRowPins k) \<Longrightarrow> gpio_of p = Some q \<Longrightarrow> q \<in> pins"
  shows "respeta r (keypadRead k)"
proof -
  have w: "respeta r (gpioWrite p v)" if "p \<in> set (keypadRowPins k)" for p v
    using assms that by (blast intro: within_gpioWrite)
  have fe: "respeta r (for_each ps (\<lambda>p. void (gpioWrite p v)))"
    if "set ps \<subseteq> set (keypadRowPins k)" for ps v
    using that by (induction ps) (auto intro: hw_rules w)
  have rows: "respeta r (for_find rs (\<lambda>r.
       bind (if 0 < r then gpioWrite (keypadRowPins k ! (r - 1)) True else ret True) (\<lambda>_.
       bind (gpioWrite (keypadRowPins k ! r) False) (\<lambda>_.
       bind (gpioRead (keypadColPins k ! c)) (\<lambda>level.
       ret (if level then None
            else Some (of_nat r * of_nat (length (keypadColPins k)) + of_nat c)))))))"
    if "set rs \<subseteq> {0..<length (keypadRowPins k)}" for rs c
    using that
    by (induction rs) (auto intro!: hw_rules within_splits within_gpioRead w)
  have "respeta r (keypad_rows k c)" for c
    unfolding keypad_rows_def by (rule rows) auto
  then show ?thesis
    unfolding keypadRead_def
    by (intro hw_rules within_splits within_gpioRead within_delay fe)
      (auto intro: list.set_sel(2))
qed

lemmas sapi_rules = hw_rules within_tickInit within_tickRead within_delay within_busy
  within_delayInaccurateUs within_gpioRead within_uartReadByte within_uartWriteByte
  within_uartWriteString within_uartInit within_spiInit within_spiRead within_spiWrite
  within_i2cWrite

end

section \<open>Progress of the layer\<close>

interpretation shr: hw_stable shrinks UNIV UNIV
  by unfold_locales (simp_all add: shrinks_poll, simp_all add: shrinks_def)

lemma consumes_tickRead: "consumes tickRead"
  unfolding tickRead_def by (intro consumes_bind consumes_poll shr.within_gets)

lemma consumes_delay: "consumes (delay d)"
  unfolding delay_def
  by (intro consumes_bind consumes_tickRead shr.within_loop shr.within_rules shr.within_tickRead)

lemma consumes_uartReadByte: "consumes (uartReadByte u)"
proof -
  have "respeta shrinks (uartRxRead u)"
    by (rule withinI) (simp add: shrinks_def uartRxRead_def split: list.splits)
  then show ?thesis
    unfolding uartReadByte_def uartRxReady_def
    by (intro consumes_bind consumes_poll shr.within_gets within_splits shr.within_rules)
qed

text \<open>What a string sends.\<close>

lemma uartWriteString_Ret:
  "uartWriteString u s w =
     Ret () (w\<lparr>txLog := (txLog w)(usart u := txLog w (usart u) @ map of_char s)\<rparr>)"
proof (induction s arbitrary: w)
  case Nil
  then show ?case by (simp add: uartWriteString_def)
next
  case (Cons c s)
  then show ?case
    by (simp add: uartWriteString_def uartWriteByte_def uartTxWrite_def bind_modify cong: if_cong)
qed

section \<open>Absence of undefined behaviour\<close>

text \<open>The pins a program may name: those of the table and the two supply names.\<close>

definition pin_valido :: "gpioMap_t \<Rightarrow> bool" where
  "pin_valido p \<longleftrightarrow> - 2 \<le> p \<and> p < 46"

lemma pin_valido_cases:
  assumes "pin_valido p"
  obtains "p = VCC" | "p = GND" | e where "p \<noteq> VCC" "p \<noteq> GND" "gpioObtainPinInit p = Some e"
proof -
  have "length gpioPinsInit = 46" by (simp add: gpioPinsInit_def)
  then have "gpioObtainPinInit p = Some (gpioPinsInit ! nat p)" if "p \<noteq> VCC" "p \<noteq> GND"
    using assms that by (auto simp: pin_valido_def gpioObtainPinInit_def VCC_def GND_def)
  then show thesis using that by blast
qed

lemma safe_gpioWrite: "pin_valido p \<Longrightarrow> safe E (gpioWrite p v)"
  by (erule pin_valido_cases)
    (auto simp: gpioWrite_def Chip_GPIO_SetPinState_def VCC_def GND_def
      intro!: keeps_rules keeps_modify keeps_case_prod)

lemma safe_gpioRead: "pin_valido p \<Longrightarrow> safe E (gpioRead p)"
  by (erule pin_valido_cases)
    (auto simp: gpioRead_def Chip_GPIO_GetPinState_def VCC_def GND_def
      intro!: keeps_rules keeps_case_prod safe_poll)

lemma safe_gpioInit: "pin_valido p \<Longrightarrow> safe E (gpioInit p config)"
  by (erule pin_valido_cases; cases config)
    (auto simp: gpioInit_def gpioInit_in_def Chip_GPIO_SetPinState_def Chip_GPIO_SetDir_def
      Chip_SCU_PinMux_def VCC_def GND_def
      intro!: keeps_rules keeps_modify keeps_case_prod)

lemma safe_tickRead: "safe E tickRead"
  unfolding tickRead_def by (intro keeps_rules safe_poll)

text \<open>What \<^verbatim>\<open>tickRead\<close> returns is the counter at that moment.\<close>

lemma sat_tickRead_bind:
  assumes "respeta r tickRead" and "\<And>w'. r w w' \<Longrightarrow> sat E Q (\<lambda>_. True) (f (tickCounter w') w')"
  shows "sat E Q (\<lambda>_. True) (bind tickRead f w)"
proof (cases "poll w")
  case (Ret u w')
  then have t: "tickRead w = Ret (tickCounter w') w'" by (simp add: tickRead_def bind_def)
  with assms(1) have "r w w'" by (rule within_Ret)
  with t assms(2) show ?thesis by (simp add: bind_Ret)
qed (auto simp: tickRead_def bind_def poll_def split: list.splits)

lemma safe_delay: "safe E (delay d)"
  unfolding delay_def
  by (intro keeps_bind keeps_loop consumes_bind consumes_tickRead shr.within_rules keeps_rules
      safe_tickRead)

lemma safe_uartReadByte: "safe E (uartReadByte u)"
proof -
  have "safe E (uartRxRead u)" by (simp add: keeps_def uartRxRead_def split: list.splits)
  then show ?thesis
    unfolding uartReadByte_def uartRxReady_def by (intro keeps_rules keeps_splits safe_poll)
qed

lemma safe_uartWriteByte: "safe E (uartWriteByte u b)"
  unfolding uartWriteByte_def uartTxWrite_def by (rule keeps_modify)

lemma safe_uartWriteString: "safe E (uartWriteString u s)"
  unfolding uartWriteString_def by (intro keeps_rules safe_uartWriteByte)

lemma safe_spiRead: "safe E (spiRead s n)"
proof -
  have "safe E (spi_clock_in n)" by (induction n) (auto intro!: keeps_rules safe_poll)
  then show ?thesis unfolding spiRead_def by (intro keeps_rules keeps_splits)
qed

lemma safe_spiWrite: "safe E (spiWrite s bs)"
  unfolding spiWrite_def by (intro keeps_rules keeps_splits keeps_modify)

lemma safe_i2cWrite: "safe E (i2cWrite n a bs)"
  unfolding i2cWrite_def by (intro keeps_rules keeps_splits keeps_modify)

lemmas safe_sapi = safe_gpioWrite safe_gpioRead safe_gpioInit safe_tickRead safe_delay
  safe_uartReadByte safe_uartWriteByte safe_uartWriteString safe_spiRead safe_spiWrite safe_i2cWrite

text \<open>The index a scan reports is inside the matrix.\<close>

lemma sat_safe_bind:
  assumes "safe E m" and "\<And>x s'. sat E Q (\<lambda>_. True) (f x s')"
  shows "sat E Q (\<lambda>_. True) (bind m f s)"
  by (rule sat_bind, rule sat_weaken [OF keepsD [OF assms(1)]]) (use assms(2) in auto)

definition indice_valido :: "keypad_t \<Rightarrow> u16 \<Rightarrow> bool" where
  "indice_valido k key \<longleftrightarrow> unat key < length (keypadRowPins k) * length (keypadColPins k)"

lemma fila_columna_cota:
  assumes "r < n" and "c < (m :: nat)"
  shows "r * m + c < n * m"
proof -
  have "r * m + c < Suc r * m" using assms(2) by simp
  also have "\<dots> \<le> n * m" using assms(1) by (intro mult_right_mono) simp_all
  finally show ?thesis .
qed

lemma indice_fila_columna:
  assumes "r < n" and "c < m" and "n * m \<le> 2 ^ 16"
  shows "unat (of_nat r * of_nat m + of_nat c :: u16) = r * m + c"
proof -
  have "(of_nat r * of_nat m + of_nat c :: u16) = of_nat (r * m + c)" by simp
  then show ?thesis
    using fila_columna_cota [OF assms(1,2)] assms(3)
    by (simp add: unat_of_nat take_bit_nat_eq_self del: of_nat_add of_nat_mult)
qed

definition keypad_valido :: "keypad_t \<Rightarrow> bool" where
  "keypad_valido k \<longleftrightarrow> list_all pin_valido (keypadRowPins k) \<and> list_all pin_valido (keypadColPins k) \<and>
     length (keypadRowPins k) * length (keypadColPins k) \<le> 2 ^ 16"

lemma keypadRead_indice:
  assumes "keypad_valido k"
  shows "sat E (\<lambda>r w'. True \<and> (case r of None \<Rightarrow> True | Some key \<Rightarrow> indice_valido k key)) (\<lambda>_. True)
           (keypadRead k w)"
proof -
  have row: "pin_valido (keypadRowPins k ! r)" if "r < length (keypadRowPins k)" for r
    using assms that by (simp add: keypad_valido_def list_all_length)
  have col: "pin_valido (keypadColPins k ! c)" if "c < length (keypadColPins k)" for c
    using assms that by (simp add: keypad_valido_def list_all_length)
  have fe: "safe E (for_each ps (\<lambda>p. void (gpioWrite p v)))"
    if "set ps \<subseteq> set (keypadRowPins k)" for ps v
    using assms that
    by (intro keeps_for_each keeps_void safe_gpioWrite)
      (auto simp: keypad_valido_def list_all_iff)
  have rows: "sat E (\<lambda>r w'. True \<and> (case r of None \<Rightarrow> True | Some key \<Rightarrow> indice_valido k key))
      (\<lambda>_. True) (keypad_rows k c w)" if c: "c < length (keypadColPins k)" for c w
    unfolding keypad_rows_def
  proof (rule sat_for_find [where I = "\<lambda>_. True"], simp, goal_cases)
    case (1 r w)
    then have r: "r < length (keypadRowPins k)" "r - 1 < length (keypadRowPins k)" by auto
    have "indice_valido k (of_nat r * of_nat (length (keypadColPins k)) + of_nat c)"
      using r c assms indice_fila_columna [OF r(1) c]
      by (simp add: indice_valido_def keypad_valido_def fila_columna_cota)
    then show ?case
      using row r col c
      by (intro sat_safe_bind keeps_splits keeps_ret safe_sapi) simp_all
  qed
  show ?thesis
    unfolding keypadRead_def
  proof (rule sat_safe_bind [OF fe], simp, rule sat_for_find [where I = "\<lambda>_. True"], simp, goal_cases)
    case (1 w w0 c w')
    then have c: "c < length (keypadColPins k)" by simp
    have tl: "set (tl (keypadRowPins k)) \<subseteq> set (keypadRowPins k)"
      by (cases "keypadRowPins k") auto
    show ?case
      using rows [OF c] fe [OF tl] col [OF c]
      by (intro sat_safe_bind safe_sapi) (auto intro!: sat_safe_bind safe_sapi)
  qed
qed

end
