(* ===== verification/Display.thy ===== *)
theory Display
  imports Sapi CString
begin

text \<open>
  The SSD1306 display driver (\<^verbatim>\<open>display.c\<close>): the frame buffer of 128 by 64 pixels,
  the text cursor, and the transfer of the buffer over I2C. The buffer has 1024
  bytes; a write past its end is a \<open>BufferOverflow\<close>. The index arithmetic is
  the one of the source: the cursor is an \<^verbatim>\<open>unsigned char\<close> and wraps.

  The last section gives the condition under which a text can be printed without
  leaving the buffer, and shows where its pixels go.
\<close>

section \<open>State\<close>

record disp = hw +
  buffer :: "nat \<Rightarrow> u8"  \<comment> \<open>\<^verbatim>\<open>buffer[1024]\<close>\<close>
  cursorX :: u8
  cursorY :: u8
  pinBuffer :: string

type_synonym ('a, 'z) dprog = "('a, 'z disp_scheme) prog"

definition SSD1306_I2C_ADDR :: u8 where "SSD1306_I2C_ADDR = 0x3C"
definition BUFFER_SIZE :: nat where "BUFFER_SIZE = 1024"

section \<open>Operations\<close>

definition ssd1306_cmd :: "u8 \<Rightarrow> (unit, 'z) dprog" where
  "ssd1306_cmd cmd = void (i2cWrite I2C0 SSD1306_I2C_ADDR [0x00, cmd])"

definition ssd1306_data :: "u8 list \<Rightarrow> (unit, 'z) dprog" where
  "ssd1306_data data = void (i2cWrite I2C0 SSD1306_I2C_ADDR (0x40 # data))"

definition display_clear :: "(unit, 'z) dprog" where
  "display_clear = modify (\<lambda>w. w\<lparr>buffer := (\<lambda>i. if i < BUFFER_SIZE then 0 else buffer w i)\<rparr>)"

text \<open>
  The transfer takes about 100 ms. Interrupts are taken meanwhile: the \<open>poll\<close>
  at its end is that window.
\<close>

definition display_update :: "(unit, 'z) dprog" where
  "display_update = block [
     for_each [0..<8] (\<lambda>page. block [
       ssd1306_cmd (0xB0 + of_nat page),
       ssd1306_cmd 0x00,
       ssd1306_cmd 0x10,
       bind (gets (\<lambda>w. map (buffer w) [page * 128..<page * 128 + 128])) ssd1306_data]),
     poll]"

definition display_init :: "(unit, 'z) dprog" where
  "display_init = block [
     void (i2cInit I2C0 100000),
     delay 100,
     for_each [0xAE, 0x20, 0x00, 0xB0, 0xC8, 0x00, 0x10, 0x40, 0x81, 0x7F, 0xA1, 0xA6, 0xA8, 0x3F,
               0xD3, 0x00, 0xD5, 0x80, 0xD9, 0x22, 0xDA, 0x12, 0xDB, 0x20, 0x8D, 0x14, 0xAF]
       ssd1306_cmd,
     display_clear,
     display_update,
     modify (\<lambda>w. w\<lparr>pinBuffer := []\<rparr>)]"

definition font6x8 :: "u8 list list" where
  "font6x8 = [
     [0x00, 0x00, 0x00, 0x00, 0x00, 0x00], [0x00, 0x00, 0x5F, 0x00, 0x00, 0x00],
     [0x00, 0x07, 0x00, 0x07, 0x00, 0x00], [0x14, 0x7F, 0x14, 0x7F, 0x14, 0x00],
     [0x24, 0x2A, 0x7F, 0x2A, 0x12, 0x00], [0x23, 0x13, 0x08, 0x64, 0x62, 0x00],
     [0x36, 0x49, 0x55, 0x22, 0x50, 0x00], [0x00, 0x05, 0x03, 0x00, 0x00, 0x00],
     [0x00, 0x1C, 0x22, 0x41, 0x00, 0x00], [0x00, 0x41, 0x22, 0x1C, 0x00, 0x00],
     [0x14, 0x08, 0x3E, 0x08, 0x14, 0x00], [0x08, 0x08, 0x3E, 0x08, 0x08, 0x00],
     [0x00, 0x50, 0x30, 0x00, 0x00, 0x00], [0x08, 0x08, 0x08, 0x08, 0x08, 0x00],
     [0x00, 0x60, 0x60, 0x00, 0x00, 0x00], [0x20, 0x10, 0x08, 0x04, 0x02, 0x00],
     [0x3E, 0x51, 0x49, 0x45, 0x3E, 0x00], [0x00, 0x42, 0x7F, 0x40, 0x00, 0x00],
     [0x42, 0x61, 0x51, 0x49, 0x46, 0x00], [0x21, 0x41, 0x45, 0x4B, 0x31, 0x00],
     [0x18, 0x14, 0x12, 0x7F, 0x10, 0x00], [0x27, 0x45, 0x45, 0x45, 0x39, 0x00],
     [0x3C, 0x4A, 0x49, 0x49, 0x30, 0x00], [0x01, 0x71, 0x09, 0x05, 0x03, 0x00],
     [0x36, 0x49, 0x49, 0x49, 0x36, 0x00], [0x06, 0x49, 0x49, 0x29, 0x1E, 0x00],
     [0x00, 0x36, 0x36, 0x00, 0x00, 0x00], [0x00, 0x56, 0x36, 0x00, 0x00, 0x00],
     [0x08, 0x14, 0x22, 0x41, 0x00, 0x00], [0x14, 0x14, 0x14, 0x14, 0x14, 0x00],
     [0x00, 0x41, 0x22, 0x14, 0x08, 0x00], [0x02, 0x01, 0x51, 0x09, 0x06, 0x00],
     [0x32, 0x49, 0x79, 0x41, 0x3E, 0x00], [0x7E, 0x11, 0x11, 0x11, 0x7E, 0x00],
     [0x7F, 0x49, 0x49, 0x49, 0x36, 0x00], [0x3E, 0x41, 0x41, 0x41, 0x22, 0x00],
     [0x7F, 0x41, 0x41, 0x22, 0x1C, 0x00], [0x7F, 0x49, 0x49, 0x49, 0x41, 0x00],
     [0x7F, 0x09, 0x09, 0x09, 0x01, 0x00], [0x3E, 0x41, 0x49, 0x49, 0x7A, 0x00],
     [0x7F, 0x08, 0x08, 0x08, 0x7F, 0x00], [0x00, 0x41, 0x7F, 0x41, 0x00, 0x00],
     [0x20, 0x40, 0x41, 0x3F, 0x01, 0x00], [0x7F, 0x08, 0x14, 0x22, 0x41, 0x00],
     [0x7F, 0x40, 0x40, 0x40, 0x40, 0x00], [0x7F, 0x02, 0x0C, 0x02, 0x7F, 0x00],
     [0x7F, 0x04, 0x08, 0x10, 0x7F, 0x00], [0x3E, 0x41, 0x41, 0x41, 0x3E, 0x00],
     [0x7F, 0x09, 0x09, 0x09, 0x06, 0x00], [0x3E, 0x41, 0x51, 0x21, 0x5E, 0x00],
     [0x7F, 0x09, 0x19, 0x29, 0x46, 0x00], [0x46, 0x49, 0x49, 0x49, 0x31, 0x00],
     [0x01, 0x01, 0x7F, 0x01, 0x01, 0x00], [0x3F, 0x40, 0x40, 0x40, 0x3F, 0x00],
     [0x1F, 0x20, 0x40, 0x20, 0x1F, 0x00], [0x3F, 0x40, 0x38, 0x40, 0x3F, 0x00],
     [0x63, 0x14, 0x08, 0x14, 0x63, 0x00], [0x07, 0x08, 0x70, 0x08, 0x07, 0x00],
     [0x61, 0x51, 0x49, 0x45, 0x43, 0x00], [0x00, 0x7F, 0x41, 0x41, 0x00, 0x00],
     [0x02, 0x04, 0x08, 0x10, 0x20, 0x00], [0x00, 0x41, 0x41, 0x7F, 0x00, 0x00],
     [0x04, 0x02, 0x01, 0x02, 0x04, 0x00], [0x40, 0x40, 0x40, 0x40, 0x40, 0x00],
     [0x00, 0x03, 0x05, 0x00, 0x00, 0x00], [0x20, 0x54, 0x54, 0x54, 0x78, 0x00],
     [0x7F, 0x48, 0x44, 0x44, 0x38, 0x00], [0x38, 0x44, 0x44, 0x44, 0x20, 0x00],
     [0x38, 0x44, 0x44, 0x48, 0x7F, 0x00], [0x38, 0x54, 0x54, 0x54, 0x18, 0x00],
     [0x08, 0x7E, 0x09, 0x01, 0x02, 0x00], [0x08, 0x54, 0x54, 0x54, 0x3C, 0x00],
     [0x7F, 0x08, 0x04, 0x04, 0x78, 0x00], [0x00, 0x44, 0x7D, 0x40, 0x00, 0x00],
     [0x20, 0x40, 0x44, 0x3D, 0x00, 0x00], [0x7F, 0x10, 0x28, 0x44, 0x00, 0x00],
     [0x00, 0x41, 0x7F, 0x40, 0x00, 0x00], [0x7C, 0x04, 0x18, 0x04, 0x78, 0x00],
     [0x7C, 0x08, 0x04, 0x04, 0x78, 0x00], [0x38, 0x44, 0x44, 0x44, 0x38, 0x00],
     [0x7C, 0x14, 0x14, 0x14, 0x08, 0x00], [0x08, 0x14, 0x14, 0x18, 0x7C, 0x00],
     [0x7C, 0x08, 0x04, 0x04, 0x08, 0x00], [0x48, 0x54, 0x54, 0x54, 0x20, 0x00],
     [0x04, 0x3F, 0x44, 0x40, 0x20, 0x00], [0x3C, 0x40, 0x40, 0x20, 0x7C, 0x00],
     [0x1C, 0x20, 0x40, 0x20, 0x1C, 0x00], [0x3C, 0x40, 0x30, 0x40, 0x3C, 0x00],
     [0x44, 0x28, 0x10, 0x28, 0x44, 0x00], [0x0C, 0x50, 0x50, 0x50, 0x3C, 0x00],
     [0x44, 0x64, 0x54, 0x4C, 0x44, 0x00], [0x00, 0x08, 0x36, 0x41, 0x00, 0x00],
     [0x00, 0x00, 0x7F, 0x00, 0x00, 0x00], [0x00, 0x41, 0x36, 0x08, 0x00, 0x00],
     [0x10, 0x08, 0x08, 0x10, 0x08, 0x00]]"

definition display_setCursor :: "u8 \<Rightarrow> u8 \<Rightarrow> (unit, 'z) dprog" where
  "display_setCursor x y = modify (\<lambda>w. w\<lparr>cursorX := x, cursorY := y\<rparr>)"

text \<open>The row of the font for a character; what cannot be printed is a question mark.\<close>

definition glifo :: "char \<Rightarrow> u8 list" where
  "glifo c = (let n = (of_char c :: nat); n = (if n < 32 \<or> 126 < n then 63 else n)
              in font6x8 ! (n - 32))"

definition buffer_set :: "nat \<Rightarrow> u8 \<Rightarrow> (unit, 'z) dprog" where
  "buffer_set i b =
     (if i < BUFFER_SIZE then modify (\<lambda>w. w\<lparr>buffer := (buffer w)(i := b)\<rparr>)
      else fault BufferOverflow)"

definition display_char :: "char \<Rightarrow> (unit, 'z) dprog" where
  "display_char c = block [
     for_each [0..<6] (\<lambda>i.
       bind (gets (\<lambda>w. unat (cursorX w) + (unat (cursorY w) div 8) * 128 + i)) (\<lambda>j.
       buffer_set j (glifo c ! i))),
     modify (\<lambda>w. w\<lparr>cursorX := cursorX w + 6\<rparr>)]"

definition display_print :: "string \<Rightarrow> (unit, 'z) dprog" where
  "display_print str = for_each str display_char"

definition display_printAt :: "string \<Rightarrow> u8 \<Rightarrow> u8 \<Rightarrow> (unit, 'z) dprog" where
  "display_printAt str x y = block [display_setCursor x y, display_print str]"

text \<open>
  The length is counted in an \<^verbatim>\<open>unsigned char\<close>: for a text of 256 characters or
  more the count wraps before it meets the terminator and the loop never ends.
\<close>

definition centrado :: "nat \<Rightarrow> int" where
  "centrado len = (let x = (128 - int len * 6) div 2 in if x < 0 then 0 else x)"

definition display_println :: "string \<Rightarrow> u8 \<Rightarrow> (unit, 'z) dprog" where
  "display_println str y =
     (if 256 \<le> length str then Hang
      else block [display_setCursor (of_int (centrado (length str))) y, display_print str])"

section \<open>What the driver keeps\<close>

locale disp_stable = hw_stable r pins usarts
  for r :: "'z disp_scheme \<Rightarrow> 'z disp_scheme \<Rightarrow> bool" and pins usarts +
  assumes r_buffer: "r w (w\<lparr>buffer := b\<rparr>)"
    and r_cursor: "r w (w\<lparr>cursorX := x, cursorY := y\<rparr>)"
    and r_pinBuffer: "r w (w\<lparr>pinBuffer := t\<rparr>)"
begin

lemma within_Hang: "respeta r Hang"
  by (simp add: respeta_def r_refl)

lemma within_display_cmd: "respeta r (ssd1306_cmd c)"
  unfolding ssd1306_cmd_def by (intro sapi_rules)

lemma within_display_clear: "respeta r display_clear"
  unfolding display_clear_def by (intro within_modify r_buffer)

lemma within_display_update: "respeta r display_update"
  unfolding display_update_def ssd1306_data_def
  by (intro within_block) (auto intro!: sapi_rules within_block within_display_cmd)

lemma within_display_print: "respeta r (display_print s)"
proof -
  have "r w (w\<lparr>cursorX := x\<rparr>)" for w x
    using r_cursor [where w = w and x = x and y = "cursorY w"] by simp
  then show ?thesis
    unfolding display_print_def display_char_def buffer_set_def
    by (intro within_for_each within_block) (auto intro!: sapi_rules within_splits r_buffer)
qed

lemma within_display_printAt: "respeta r (display_printAt s x y)"
  unfolding display_printAt_def display_setCursor_def
  by (intro within_block) (auto intro!: within_modify r_cursor within_display_print)

lemma within_display_println: "respeta r (display_println s y)"
  unfolding display_println_def display_setCursor_def
  by (intro within_If within_Hang within_block) (auto intro!: within_modify r_cursor within_display_print)

lemma within_display_init: "respeta r display_init"
  unfolding display_init_def i2cInit_def
  by (intro within_block)
    (auto intro!: sapi_rules within_display_cmd within_display_clear within_display_update r_pinBuffer)

lemmas disp_rules = sapi_rules within_Hang within_display_clear within_display_update
  within_display_printAt within_display_println within_display_init

end

interpretation shr: disp_stable shrinks UNIV UNIV
  by unfold_locales (simp_all add: shrinks_def)

section \<open>Where the pixels of a text go\<close>

text \<open>The buffer with the glyphs of a text from position \<open>base\<close> on.\<close>

definition pintar :: "string \<Rightarrow> nat \<Rightarrow> (nat \<Rightarrow> u8) \<Rightarrow> nat \<Rightarrow> u8" where
  "pintar str base b = (\<lambda>j.
     if base \<le> j \<and> j < base + 6 * length str
     then glifo (str ! ((j - base) div 6)) ! ((j - base) mod 6) else b j)"

lemma pintar_Nil: "pintar [] base b = b"
  by (rule ext) (auto simp: pintar_def)

lemma pintar_Cons:
  "pintar (c # str) base b = pintar str (base + 6) (pintar [c] base b)"
proof (rule ext)
  fix j
  consider "j < base" | "base \<le> j" "j < base + 6" | k where "j = base + 6 + k"
    by (metis le_add_diff_inverse not_le)
  then show "pintar (c # str) base b j = pintar str (base + 6) (pintar [c] base b) j"
  proof cases
    case 3
    then have "(j - base) div 6 = Suc (k div 6)" "(j - base) mod 6 = k mod 6" by simp_all
    with 3 show ?thesis by (simp add: pintar_def)
  qed (simp_all add: pintar_def)
qed

lemma pintar_char:
  "pintar [c] base b = b(base := glifo c ! 0, base + 1 := glifo c ! 1, base + 2 := glifo c ! 2,
     base + 3 := glifo c ! 3, base + 4 := glifo c ! 4, base + 5 := glifo c ! 5)"
proof (rule ext)
  fix j
  consider "j < base \<or> base + 6 \<le> j" | k where "j = base + k" "k < 6"
    by (metis le_Suc_ex nat_add_left_cancel_less not_le)
  then show "pintar [c] base b j = (b(base := glifo c ! 0, base + 1 := glifo c ! 1,
     base + 2 := glifo c ! 2, base + 3 := glifo c ! 3, base + 4 := glifo c ! 4,
     base + 5 := glifo c ! 5)) j"
  proof cases
    case 2
    then have "k = 0 \<or> k = 1 \<or> k = 2 \<or> k = 3 \<or> k = 4 \<or> k = 5" by auto
    with 2 show ?thesis by (auto simp: pintar_def)
  qed (auto simp: pintar_def)
qed

definition cursor_pos :: "'z disp_scheme \<Rightarrow> nat" where
  "cursor_pos w = unat (cursorX w) + (unat (cursorY w) div 8) * 128"

lemma display_char_ok:
  assumes "cursor_pos w + 6 \<le> BUFFER_SIZE"
  shows "display_char c w =
    Ret () (w\<lparr>buffer := pintar [c] (cursor_pos w) (buffer w), cursorX := cursorX w + 6\<rparr>)"
proof -
  have "[0..<6] = [0, 1, 2, 3, 4, 5 :: nat]" by (simp add: upt_rec)
  then show ?thesis
    using assms
    by (simp add: display_char_def buffer_set_def bind_apply cursor_pos_def pintar_char)
qed

lemma display_print_ok:
  assumes "unat (cursorX w) + 6 * length str < 256" and "cursor_pos w + 6 * length str \<le> BUFFER_SIZE"
  shows "display_print str w =
    Ret () (w\<lparr>buffer := pintar str (cursor_pos w) (buffer w),
              cursorX := cursorX w + of_nat (6 * length str)\<rparr>)"
  using assms
proof (induction str arbitrary: w)
  case Nil
  then show ?case by (simp add: display_print_def pintar_Nil)
next
  case (Cons c str)
  let ?w = "w\<lparr>buffer := pintar [c] (cursor_pos w) (buffer w), cursorX := cursorX w + 6\<rparr>"
  have x: "unat (cursorX w + 6) = unat (cursorX w) + 6"
    using Cons.prems(1) by (simp add: unat_word_ariths)
  then have pos: "cursor_pos ?w = cursor_pos w + 6" by (simp add: cursor_pos_def)
  have "display_print (c # str) w = display_print str ?w"
    using Cons.prems by (simp add: display_print_def bind_apply display_char_ok)
  also have "\<dots> = Ret () (?w\<lparr>buffer := pintar str (cursor_pos ?w) (buffer ?w),
              cursorX := cursorX ?w + of_nat (6 * length str)\<rparr>)"
    using Cons.prems x by (intro Cons.IH) (simp_all add: pos)
  finally show ?case by (simp add: pos pintar_Cons [of c str] ac_simps)
qed

text \<open>The texts that stay inside the buffer.\<close>

definition cabe :: "nat \<Rightarrow> u8 \<Rightarrow> bool" where
  "cabe len y \<longleftrightarrow> len \<le> 42 \<and> (unat y div 8) * 128 + max 128 (6 * len) \<le> BUFFER_SIZE"

lemma centrado_cotas: "0 \<le> centrado len" "centrado len \<le> 64"
    "nat (centrado len) + 6 * len \<le> max 128 (6 * len)"
  by (auto simp: centrado_def Let_def)

lemma unat_centrado: "unat (of_int (centrado len) :: u8) = nat (centrado len)"
proof -
  have "(of_int (centrado len) :: u8) = of_nat (nat (centrado len))"
    using centrado_cotas(1) by (simp add: of_nat_nat)
  then show ?thesis
    using centrado_cotas(2) [of len] by (simp add: unat_of_nat take_bit_nat_eq_self)
qed

lemma display_println_Ret:
  assumes "cabe (length str) y"
  shows "display_println str y w =
     Ret () (w\<lparr>buffer := pintar str ((unat y div 8) * 128 + nat (centrado (length str))) (buffer w),
               cursorX := of_int (centrado (length str)) + of_nat (6 * length str), cursorY := y\<rparr>)"
proof -
  let ?w = "w\<lparr>cursorX := of_int (centrado (length str)), cursorY := y\<rparr>"
  have l: "length str \<le> 42" "(unat y div 8) * 128 + max 128 (6 * length str) \<le> BUFFER_SIZE"
    using assms by (simp_all add: cabe_def)
  note c = centrado_cotas(3) [of "length str"]
  have "display_print str ?w = Ret () (?w\<lparr>buffer := pintar str (cursor_pos ?w) (buffer ?w),
      cursorX := cursorX ?w + of_nat (6 * length str)\<rparr>)"
    by (rule display_print_ok) (use c l in \<open>simp_all add: cursor_pos_def unat_centrado\<close>)
  then show ?thesis
    using l(1)
    by (simp add: display_println_def display_setCursor_def bind_modify bind_Ret cursor_pos_def
        unat_centrado add.commute)
qed

lemma safe_display_clear: "safe E display_clear"
  unfolding display_clear_def by (rule keeps_modify) simp

lemma safe_display_update: "safe E display_update"
  unfolding display_update_def ssd1306_cmd_def ssd1306_data_def
  by (intro keeps_block) (auto intro!: keeps_rules keeps_block safe_i2cWrite safe_poll)

lemma safe_display_println: "cabe (length str) y \<Longrightarrow> safe E (display_println str y)"
  by (simp add: keeps_def display_println_Ret)

text \<open>Without a bound on the text, printing can only leave the buffer.\<close>

lemma safe_display_println':
  "length str < 256 \<Longrightarrow> safe {BufferOverflow} (display_println str y)"
  by (auto simp: display_println_def display_setCursor_def display_print_def display_char_def
      buffer_set_def keeps_def [of _ _ "fault _"]
      intro!: keeps_bind keeps_modify keeps_for_each keeps_gets keeps_If)

lemma safe_display_printAt: "safe {BufferOverflow} (display_printAt str x y)"
  by (auto simp: display_printAt_def display_setCursor_def display_print_def display_char_def
      buffer_set_def keeps_def [of _ _ "fault _"]
      intro!: keeps_bind keeps_modify keeps_for_each keeps_gets keeps_If)

lemmas safe_disp = safe_display_clear safe_display_update safe_display_println

section \<open>Properties\<close>

text \<open>C29: Printing a centred line. A text of at most 42 characters whose glyphs end inside the
  frame buffer is printed without undefined behaviour: its glyphs stand in the row of \<open>y\<close>, centred
  on the 128 columns (from the first column when it is wider), every other byte of the buffer is
  unchanged, and nothing but the buffer and the cursor changes.\<close>

theorem println_pixeles:
  assumes "length str \<le> 42" and "(unat y div 8) * 128 + max 128 (6 * length str) \<le> BUFFER_SIZE"
  shows "\<exists>w'. display_println str y w = Ret () w' \<and>
     (\<forall>k < length str. \<forall>i < 6. buffer w' ((unat y div 8) * 128 + nat (centrado (length str)) + 6 * k + i)
        = glifo (str ! k) ! i) \<and>
     (\<forall>j. j < (unat y div 8) * 128 + nat (centrado (length str)) \<or>
          (unat y div 8) * 128 + nat (centrado (length str)) + 6 * length str \<le> j \<longrightarrow>
          buffer w' j = buffer w j) \<and>
     w' = w\<lparr>buffer := buffer w', cursorX := cursorX w', cursorY := cursorY w'\<rparr>"
proof -
  define base where "base = (unat y div 8) * 128 + nat (centrado (length str))"
  have px: "pintar str base b (base + 6 * k + i) = glifo (str ! k) ! i"
    if "k < length str" "i < 6" for k i b
  proof -
    have "6 * k + i < 6 * length str" using that by linarith
    moreover have "(6 * k + i) div 6 = k" "(6 * k + i) mod 6 = i" using that by simp_all
    ultimately show ?thesis by (simp add: pintar_def add.assoc)
  qed
  have c: "cabe (length str) y" using assms by (simp add: cabe_def)
  show ?thesis
    unfolding base_def [symmetric]
    by (rule exI, rule conjI, rule display_println_Ret [OF c])
      (auto simp: px pintar_def simp flip: base_def)
qed

theorem println_pixeles_witness:
  "\<forall>w :: disp. \<exists>w'. display_println ''ABIERTA'' 60 w = Ret () w' \<and>
     (\<forall>k < 7. \<forall>i < 6. buffer w' (939 + 6 * k + i) = glifo (''ABIERTA'' ! k) ! i) \<and>
     (\<forall>j. j < 939 \<or> 981 \<le> j \<longrightarrow> buffer w' j = buffer w j)"
proof
  fix w :: disp
  have l: "length ''ABIERTA'' = 7" by simp
  have c: "centrado 7 = 43" by (simp add: centrado_def)
  show "\<exists>w'. display_println ''ABIERTA'' 60 w = Ret () w' \<and>
     (\<forall>k < 7. \<forall>i < 6. buffer w' (939 + 6 * k + i) = glifo (''ABIERTA'' ! k) ! i) \<and>
     (\<forall>j. j < 939 \<or> 981 \<le> j \<longrightarrow> buffer w' j = buffer w j)"
    using println_pixeles [of "''ABIERTA''" 60 w, unfolded l c] by (auto simp: BUFFER_SIZE_def)
qed

end
