(* ===== verification/Actuadores.thy ===== *)
theory Actuadores
  imports Sapi
begin

text \<open>
  The lock motor (\<^verbatim>\<open>stepperMotor.c\<close>), the buzzer (\<^verbatim>\<open>alertas.c\<close>) and the pin set-up of
  the door sensor and the presence sensor (\<^verbatim>\<open>mef_config.c\<close>).

  The motor is seen through its driver, a DRV8825: \<open>motor\<close> replays the writes to
  the GPIO block and counts the rising edges of STEP that the driver sees while
  it is enabled, in the direction of DIR. The theorems state how far the bolt
  moves; \<open>motor_frame\<close> is the frame condition of everything that leaves the
  motor alone.
\<close>

section \<open>Motor (stepperMotor.c)\<close>

definition STEP_PIN :: pin where "STEP_PIN = (5, 16)"
definition DIR_PIN :: pin where "DIR_PIN = (2, 8)"
definition EN_PIN :: pin where "EN_PIN = (3, 0)"
definition STEPS :: nat where "STEPS = 100"
definition STEP_PULSE_HIGH :: u64 where "STEP_PULSE_HIGH = 5"
definition STEP_PULSE_LOW :: u64 where "STEP_PULSE_LOW = 2500"

definition set_pin :: "pin \<Rightarrow> bool \<Rightarrow> (unit, 'z) hwprog" where
  "set_pin p v = Chip_GPIO_SetPinState (fst p) (snd p) v"

definition dir_salida :: "pin \<Rightarrow> (unit, 'z) hwprog" where
  "dir_salida p = Chip_GPIO_SetDir (fst p) (snd p) True"

definition driverConfig :: "(unit, 'z) hwprog" where
  "driverConfig = block [dir_salida STEP_PIN, dir_salida DIR_PIN, dir_salida EN_PIN,
     set_pin EN_PIN True]"

definition step_pulse :: "(unit, 'z) hwprog" where
  "step_pulse = block [set_pin STEP_PIN True, delayInaccurateUs STEP_PULSE_HIGH,
     set_pin STEP_PIN False]"

definition step_move :: "bool \<Rightarrow> (unit, 'z) hwprog" where
  "step_move dir = block [
     set_pin EN_PIN False,
     set_pin DIR_PIN (if dir then False else True),
     for_each [0..<STEPS] (\<lambda>i. block [step_pulse, delayInaccurateUs STEP_PULSE_LOW]),
     set_pin EN_PIN True]"

definition abrirCerradura :: "(unit, 'z) hwprog" where
  "abrirCerradura = step_move True"

definition cerrarCerradura :: "(unit, 'z) hwprog" where
  "cerrarCerradura = step_move False"

section \<open>Alerts (alertas.c) and pin set-up (mef\_config.c)\<close>

definition BUZZER_PIN :: pin where "BUZZER_PIN = (0, 0)"

definition alertasInit :: "(unit, 'z) hwprog" where
  "alertasInit = block [dir_salida BUZZER_PIN, set_pin BUZZER_PIN False]"

definition alertaExito :: "(unit, 'z) hwprog" where
  "alertaExito = block [
     set_pin BUZZER_PIN True, delay 100, set_pin BUZZER_PIN False,
     delay 120,
     set_pin BUZZER_PIN True, delay 100, set_pin BUZZER_PIN False]"

definition alertaError :: "(unit, 'z) hwprog" where
  "alertaError = block [set_pin BUZZER_PIN True, delay 1000, set_pin BUZZER_PIN False]"

definition SENSORHALL_GPIO_PORT :: nat where "SENSORHALL_GPIO_PORT = 0"
definition SENSORHALL_GPIO_PIN :: nat where "SENSORHALL_GPIO_PIN = 1"

definition configurarPines :: "(unit, 'z) hwprog" where
  "configurarPines = block [
     Chip_SCU_PinMux 0 1 (SCU_MODE_INACT OR SCU_MODE_INBUFF_EN OR SCU_MODE_ZIF_DIS) 0,
     Chip_GPIO_SetDir SENSORHALL_GPIO_PORT SENSORHALL_GPIO_PIN False]"

definition configurarInterrupcionPRESENCIA :: "(unit, 'z) hwprog" where
  "configurarInterrupcionPRESENCIA = block [
     Chip_SCU_PinMux 1 17 (SCU_MODE_PULLDOWN OR SCU_MODE_INBUFF_EN OR SCU_MODE_ZIF_DIS) 0,
     Chip_GPIO_SetDir 0 12 False,
     Chip_SCU_GPIOIntPinSel 0 12,
     Chip_PININT_ClearIntStatus,
     Chip_PININT_SetPinModeEdge,
     Chip_PININT_EnableIntHigh]"

section \<open>The driver behind the pins\<close>

record motor_t =
  m_step :: bool
  m_dir :: bool
  m_en :: bool   \<comment> \<open>level of EN; the driver is enabled when it is low\<close>
  m_pos :: int   \<comment> \<open>steps in the opening direction since power-up\<close>

definition motor0 :: motor_t where
  "motor0 = \<lparr>m_step = False, m_dir = False, m_en = False, m_pos = 0\<rparr>"

fun motor_ev :: "gpio_ev \<Rightarrow> motor_t \<Rightarrow> motor_t" where
  "motor_ev (Busy n) m = m"
| "motor_ev (PinSet p v) m =
     (if p = STEP_PIN then
        (if v \<and> \<not> m_step m \<and> \<not> m_en m
         then m\<lparr>m_step := True, m_pos := m_pos m + (if m_dir m then - 1 else 1)\<rparr>
         else m\<lparr>m_step := v\<rparr>)
      else if p = DIR_PIN then m\<lparr>m_dir := v\<rparr>
      else if p = EN_PIN then m\<lparr>m_en := v\<rparr>
      else m)"

declare motor_ev.simps [simp del]

definition motor :: "'z hw_scheme \<Rightarrow> motor_t" where
  "motor w = foldr motor_ev (gpioLog w) motor0"

definition motor_pins :: "pin set" where
  "motor_pins = {STEP_PIN, DIR_PIN, EN_PIN}"

lemmas motor_pin_defs = STEP_PIN_def DIR_PIN_def EN_PIN_def

lemma motor_set_pin:
  "motor (w\<lparr>pinOut := x, gpioLog := PinSet p v # gpioLog w\<rparr>) = motor_ev (PinSet p v) (motor w)"
  "motor (w\<lparr>gpioLog := Busy n # gpioLog w\<rparr>) = motor w"
  by (simp_all add: motor_def motor_ev.simps)

lemma motor_ev_otro: "p \<notin> motor_pins \<Longrightarrow> motor_ev (PinSet p v) m = m"
  by (simp add: motor_pins_def motor_ev.simps)

section \<open>How far a move goes\<close>

definition despues :: "(unit, 'z) hwprog \<Rightarrow> (motor_t \<Rightarrow> motor_t) \<Rightarrow> bool" where
  "despues m f \<longleftrightarrow> (\<forall>w. \<exists>w'. m w = Ret () w' \<and> motor w' = f (motor w) \<and>
     w' = w\<lparr>pinOut := pinOut w', gpioLog := gpioLog w'\<rparr>)"

lemma despues_set_pin: "despues (set_pin p v) (motor_ev (PinSet p v))"
  by (simp add: despues_def set_pin_def Chip_GPIO_SetPinState_def motor_set_pin)

lemma despues_busy: "despues (delayInaccurateUs d) (\<lambda>m. m)"
  by (simp add: despues_def delayInaccurateUs_def busy_def motor_set_pin)

lemma despues_ret: "despues (ret ()) (\<lambda>m. m)"
  by (simp add: despues_def)

lemma despues_bind: "despues m f \<Longrightarrow> despues n g \<Longrightarrow> despues (bind m (\<lambda>_. n)) (\<lambda>x. g (f x))"
  unfolding despues_def
proof
  fix w
  assume m: "\<forall>w. \<exists>w'. m w = Ret () w' \<and> motor w' = f (motor w) \<and>
      w' = w\<lparr>pinOut := pinOut w', gpioLog := gpioLog w'\<rparr>"
    and n: "\<forall>w. \<exists>w'. n w = Ret () w' \<and> motor w' = g (motor w) \<and>
      w' = w\<lparr>pinOut := pinOut w', gpioLog := gpioLog w'\<rparr>"
  obtain u where u: "m w = Ret () u" "motor u = f (motor w)"
      "u = w\<lparr>pinOut := pinOut u, gpioLog := gpioLog u\<rparr>" using m by blast
  obtain v where v: "n u = Ret () v" "motor v = g (motor u)"
      "v = u\<lparr>pinOut := pinOut v, gpioLog := gpioLog v\<rparr>" using n by blast
  have "v = w\<lparr>pinOut := pinOut v, gpioLog := gpioLog v\<rparr>"
    using u(3) v(3) by (cases w, cases u, cases v) simp
  then show "\<exists>w'. bind m (\<lambda>_. n) w = Ret () w' \<and> motor w' = g (f (motor w)) \<and>
      w' = w\<lparr>pinOut := pinOut w', gpioLog := gpioLog w'\<rparr>"
    using u v by (intro exI [of _ v]) (simp add: bind_Ret)
qed

lemma despues_repeat: "despues m f \<Longrightarrow> despues (for_each xs (\<lambda>_. m)) (f ^^ length xs)"
proof (induction xs)
  case Nil
  then show ?case by (simp add: despues_ret id_def)
next
  case (Cons x xs)
  show ?case
    using despues_bind [OF Cons.prems Cons.IH [OF Cons.prems]]
    by (simp add: funpow_swap1 comp_def)
qed

text \<open>One pulse is one step, when the driver is enabled and STEP starts low.\<close>

definition pulso :: "motor_t \<Rightarrow> motor_t" where
  "pulso m = motor_ev (PinSet STEP_PIN False) (motor_ev (PinSet STEP_PIN True) m)"

lemma despues_step_pulse: "despues (block [step_pulse, delayInaccurateUs STEP_PULSE_LOW]) pulso"
proof -
  have "despues step_pulse pulso"
    unfolding step_pulse_def pulso_def block.simps ret_bind
    using despues_bind [OF despues_set_pin despues_bind [OF despues_busy
          despues_bind [OF despues_set_pin despues_ret]]] by simp
  from despues_bind [OF this despues_bind [OF despues_busy despues_ret]]
  show ?thesis by simp
qed

lemma pulsos:
  assumes "\<not> m_step m" and "\<not> m_en m"
  shows "(pulso ^^ n) m = m\<lparr>m_pos := m_pos m + (if m_dir m then - int n else int n)\<rparr>"
proof (induction n)
  case 0
  then show ?case by simp
next
  case (Suc n)
  then show ?case using assms by (simp add: pulso_def motor_ev.simps)
qed

definition movido :: "bool \<Rightarrow> motor_t \<Rightarrow> motor_t" where
  "movido dir m = m\<lparr>m_dir := \<not> dir, m_en := True,
     m_pos := m_pos m + (if dir then int STEPS else - int STEPS)\<rparr>"

lemma step_move_motor:
  assumes "\<not> m_step (motor w)"
  shows "\<exists>w'. step_move dir w = Ret () w' \<and> motor w' = movido dir (motor w) \<and>
     w' = w\<lparr>pinOut := pinOut w', gpioLog := gpioLog w'\<rparr>"
proof -
  let ?f = "\<lambda>m. motor_ev (PinSet EN_PIN True) ((pulso ^^ STEPS)
     (motor_ev (PinSet DIR_PIN (\<not> dir)) (motor_ev (PinSet EN_PIN False) m)))"
  have "despues (step_move dir) ?f"
    unfolding step_move_def
    using despues_bind [OF despues_set_pin [of EN_PIN False]
        despues_bind [OF despues_set_pin [of DIR_PIN "\<not> dir"]
          despues_bind [OF despues_repeat [OF despues_step_pulse, of "[0..<STEPS]"]
            despues_bind [OF despues_set_pin [of EN_PIN True] despues_ret]]]]
    by (cases dir) simp_all
  moreover have "?f (motor w) = movido dir (motor w)"
    using assms by (simp add: movido_def pulsos motor_pin_defs motor_ev.simps)
  ultimately show ?thesis unfolding despues_def by metis
qed

section \<open>Frame\<close>

definition motor_frame :: "'z hw_scheme \<Rightarrow> 'z hw_scheme \<Rightarrow> bool" where
  "motor_frame w w' \<longleftrightarrow> motor w' = motor w"

lemma env_frame_gpioLog: "env_frame w w' \<Longrightarrow> gpioLog w' = gpioLog w"
  unfolding env_frame_def by (cases w, cases w') simp

lemma motor_gpioLog: "gpioLog w' = gpioLog w \<Longrightarrow> motor w' = motor w"
  by (simp add: motor_def)

lemma motor_frame_poll: "respeta motor_frame poll"
  unfolding respeta_def motor_frame_def
  using env_frame_poll by (blast intro: motor_gpioLog env_frame_gpioLog withinD)

lemma motor_frame_otros:
  "p \<notin> motor_pins \<Longrightarrow> motor_frame w (w\<lparr>pinOut := x, gpioLog := PinSet p v # gpioLog w\<rparr>)"
  "motor_frame w (w\<lparr>gpioLog := Busy n # gpioLog w\<rparr>)"
  by (simp_all add: motor_frame_def motor_set_pin motor_ev_otro)

lemmas motor_frame_simps = motor_frame_poll motor_frame_otros

interpretation mot: hw_stable motor_frame "- motor_pins" UNIV
  by unfold_locales (simp_all add: motor_frame_simps, simp_all add: motor_frame_def motor_def)

context hw_stable begin

lemma within_set_pin: "p \<in> pins \<Longrightarrow> respeta r (set_pin p v)"
  unfolding set_pin_def by (rule within_SetPinState) simp

lemma within_alertas: "BUZZER_PIN \<in> pins \<Longrightarrow>
  respeta r alertasInit \<and> respeta r alertaExito \<and> respeta r alertaError"
  unfolding alertasInit_def alertaExito_def alertaError_def dir_salida_def
  by (intro conjI within_block) (auto intro!: within_set_pin sapi_rules)

lemma within_motor: "motor_pins \<subseteq> pins \<Longrightarrow>
  respeta r abrirCerradura \<and> respeta r cerrarCerradura \<and> respeta r driverConfig"
  unfolding abrirCerradura_def cerrarCerradura_def step_move_def step_pulse_def driverConfig_def
    dir_salida_def motor_pins_def
  by (intro conjI within_block) (auto intro!: within_set_pin sapi_rules within_block)

lemma within_config: "respeta r configurarPines" "respeta r configurarInterrupcionPRESENCIA"
  unfolding configurarPines_def configurarInterrupcionPRESENCIA_def
  by (intro within_block; auto intro!: sapi_rules)+

end

lemma safe_set_pin: "safe E (set_pin p v)"
  unfolding set_pin_def Chip_GPIO_SetPinState_def by (rule keeps_modify) simp

lemma safe_alertas: "safe E alertaExito" "safe E alertaError"
  unfolding alertaExito_def alertaError_def
  by (intro keeps_block; auto intro!: safe_set_pin safe_delay)+

section \<open>Properties\<close>

text \<open>C22: Opening and closing. With STEP low, \<^verbatim>\<open>abrirCerradura\<close> returns after the driver has
  taken exactly 100 steps in the opening direction, \<^verbatim>\<open>cerrarCerradura\<close> then takes it back by the
  same 100 steps; after each of them the driver is disabled (EN high) and STEP is low again, and
  nothing but the pins has changed.\<close>

theorem motor_abre_y_cierra:
  assumes "\<not> m_step (motor w)"
  shows "\<exists>w1 w2. abrirCerradura w = Ret () w1 \<and> cerrarCerradura w1 = Ret () w2 \<and>
     m_pos (motor w1) = m_pos (motor w) + 100 \<and> m_en (motor w1) \<and> \<not> m_step (motor w1) \<and>
     m_pos (motor w2) = m_pos (motor w) \<and> m_en (motor w2) \<and> \<not> m_step (motor w2) \<and>
     w2 = w\<lparr>pinOut := pinOut w2, gpioLog := gpioLog w2\<rparr>"
proof -
  obtain w1 where w1: "abrirCerradura w = Ret () w1" "motor w1 = movido True (motor w)"
      "w1 = w\<lparr>pinOut := pinOut w1, gpioLog := gpioLog w1\<rparr>"
    using step_move_motor [OF assms, of True] by (auto simp: abrirCerradura_def)
  then have "\<not> m_step (motor w1)" using assms by (simp add: movido_def)
  from step_move_motor [OF this, of False]
  obtain w2 where w2: "cerrarCerradura w1 = Ret () w2" "motor w2 = movido False (motor w1)"
      "w2 = w1\<lparr>pinOut := pinOut w2, gpioLog := gpioLog w2\<rparr>"
    by (auto simp: cerrarCerradura_def)
  have "w2 = w\<lparr>pinOut := pinOut w2, gpioLog := gpioLog w2\<rparr>"
    using w1(3) w2(3) by (cases w, cases w1, cases w2) simp
  with w1 w2 assms show ?thesis by (auto simp: movido_def STEPS_def)
qed

theorem motor_abre_y_cierra_witness:
  "\<exists>w1 w2. abrirCerradura (hw0 [] ()) = Ret () w1 \<and> cerrarCerradura w1 = Ret () w2 \<and>
     m_pos (motor w1) = 100 \<and> m_en (motor w1) \<and> \<not> m_step (motor w1) \<and>
     m_pos (motor w2) = 0 \<and> m_en (motor w2) \<and> \<not> m_step (motor w2)"
proof -
  have m: "motor (hw0 [] ()) = motor0" by (simp add: motor_def hw0_def)
  show ?thesis
    using motor_abre_y_cierra [of "hw0 [] ()"] by (simp add: m motor0_def) blast
qed

end
