(* ===== verification/Teclado.thy ===== *)
theory Teclado
  imports Display Usuarios Actuadores
begin

text \<open>
  The keypad driver (\<^verbatim>\<open>teclado.c\<close>): one key at a time with edge detection, digits
  collected until a PIN of five is complete, the star key as the way into the
  administrator menu.

  \<open>entrada\<close> is the abstract machine of the PIN entry: what a scan result does to
  the digits typed so far. The driver is shown to implement it.
\<close>

section \<open>State\<close>

record tecl = disp +
  keypad :: keypad_t
  pinTecleado :: string  \<comment> \<open>\<^verbatim>\<open>pinIngresado[PIN_LENGTH + 1]\<close> of \<^verbatim>\<open>teclado.c\<close>, all six characters\<close>
  pos :: u8
  keyHeld :: bool
  lastIndex :: u16

type_synonym ('a, 'z) tprog = "('a, 'z tecl_scheme) prog"

definition rowPins :: "gpioMap_t list" where
  "rowPins = [T_FIL0, T_FIL1, T_FIL2, T_FIL3]"

definition colPins :: "gpioMap_t list" where
  "colPins = [T_COL0, T_COL1, T_COL2]"

definition KEYPAD_COLS :: u16 where "KEYPAD_COLS = 3"

definition keypadMap :: "char list list" where
  "keypadMap = [''123'', ''456'', ''789'', ''*0#'']"

text \<open>The text of a character array.\<close>

definition texto :: "string \<Rightarrow> string" where
  "texto cs = takeWhile (\<lambda>c. c \<noteq> NUL) cs"

section \<open>Operations\<close>

definition tecladoReset :: "(unit, 'z) tprog" where
  "tecladoReset = modify (\<lambda>w. w\<lparr>pinTecleado := replicate (PIN_LENGTH + 1) NUL, pos := 0\<rparr>)"

definition tecladoInit :: "(unit, 'z) tprog" where
  "tecladoInit =
     bind (keypadInit rowPins colPins) (\<lambda>(_, k).
     block [modify (\<lambda>w. w\<lparr>keypad := k\<rparr>), tecladoReset])"

text \<open>\<^verbatim>\<open>keypadMap[fila][columna]\<close>.\<close>

definition tecla_de :: "u16 \<Rightarrow> (char, 'z) tprog" where
  "tecla_de teclaIndex =
     (let fila = unat (teclaIndex div KEYPAD_COLS); columna = unat (teclaIndex mod KEYPAD_COLS)
      in if fila < length keypadMap \<and> columna < length (keypadMap ! fila)
         then ret (keypadMap ! fila ! columna) else fault OutOfBounds)"

text \<open>Storing a digit and showing the digits typed so far.\<close>

definition acumular :: "char \<Rightarrow> (unit, 'z) tprog" where
  "acumular teclaChar =
     bind (gets pos) (\<lambda>p.
     if p < of_nat PIN_LENGTH \<and> is_digit teclaChar then
       bind (modify (\<lambda>w. w\<lparr>pinTecleado := (pinTecleado w)[unat p := teclaChar], pos := p + 1\<rparr>)) (\<lambda>_.
       bind (gets (\<lambda>w. texto (pinTecleado w))) (\<lambda>t.
       block [display_println t 35, display_update]))
     else ret ())"

text \<open>
  \<^verbatim>\<open>tecladoLeerPin(pin, &ultimaActividad)\<close>: the two locations are passed in and
  their new contents are returned with the result. \<open>completar\<close> and \<open>procesar_tecla\<close>
  are its parts from the test for a complete PIN and from the time stamp on.
\<close>

definition completar :: "string \<Rightarrow> u64 \<Rightarrow> (int \<times> string \<times> u32, 'z) tprog" where
  "completar pin t =
     bind (gets pos) (\<lambda>p.
     if p = of_nat PIN_LENGTH then
       bind (modify (\<lambda>w. w\<lparr>pinTecleado := (pinTecleado w)[PIN_LENGTH := NUL]\<rparr>)) (\<lambda>_.
       bind (gets (\<lambda>w. texto (pinTecleado w))) (\<lambda>leido.
       bind display_clear (\<lambda>_.
       bind tecladoReset (\<lambda>_.
       ret (1, leido, ucast t)))))
     else ret (0, pin, ucast t))"

definition procesar_tecla :: "string \<Rightarrow> char \<Rightarrow> (int \<times> string \<times> u32, 'z) tprog" where
  "procesar_tecla pin teclaChar =
     bind tickRead (\<lambda>t.
     if teclaChar = CHR ''*'' then bind tecladoReset (\<lambda>_. ret (- 1, pin, ucast t))
     else bind (acumular teclaChar) (\<lambda>_. completar pin t))"

definition tecladoLeerPin :: "string \<Rightarrow> u32 \<Rightarrow> (int \<times> string \<times> u32, 'z) tprog" where
  "tecladoLeerPin pin ultimaActividad =
     bind (gets keypad) (\<lambda>k. bind (keypadRead k) (\<lambda>r.
     case r of
       None \<Rightarrow> bind (modify (\<lambda>w. w\<lparr>keyHeld := False, lastIndex := 0xFFFF\<rparr>))
         (\<lambda>_. ret (0, pin, ultimaActividad))
     | Some teclaIndex \<Rightarrow>
         bind (gets (\<lambda>w. \<not> keyHeld w \<or> teclaIndex \<noteq> lastIndex w)) (\<lambda>nueva.
         if nueva then
           bind (modify (\<lambda>w. w\<lparr>keyHeld := True, lastIndex := teclaIndex\<rparr>)) (\<lambda>_.
           bind (tecla_de teclaIndex) (procesar_tecla pin))
         else ret (0, pin, ultimaActividad))))"

definition tecladoLeerTecla :: "(char option, 'z) tprog" where
  "tecladoLeerTecla =
     bind (gets keypad) (\<lambda>k. bind (keypadRead k) (\<lambda>r.
     case r of
       None \<Rightarrow> bind (modify (\<lambda>w. w\<lparr>keyHeld := False, lastIndex := 0xFFFF\<rparr>)) (\<lambda>_. ret None)
     | Some teclaIndex \<Rightarrow>
         bind (gets (\<lambda>w. \<not> keyHeld w \<or> teclaIndex \<noteq> lastIndex w)) (\<lambda>nueva.
         if nueva then
           bind (modify (\<lambda>w. w\<lparr>keyHeld := True, lastIndex := teclaIndex\<rparr>)) (\<lambda>_.
           bind (tecla_de teclaIndex) (\<lambda>c.
           bind (delay 20) (\<lambda>_. ret (Some c))))
         else ret None)))"

section \<open>What the driver keeps\<close>

definition teclado_k :: keypad_t where
  "teclado_k = \<lparr>keypadRowPins = rowPins, keypadColPins = colPins\<rparr>"

definition row_gpios :: "pin set" where
  "row_gpios = {(2, 0), (2, 1), (2, 2), (2, 3)}"

text \<open>
  A scan drives the rows of the keypad the driver holds. A relation that allows
  only some pins has to relate a state with another keypad to everything.
\<close>

locale tecl_stable = disp_stable r pins usarts
  for r :: "'z tecl_scheme \<Rightarrow> 'z tecl_scheme \<Rightarrow> bool" and pins usarts +
  assumes r_keypadPins: "(\<forall>p \<in> set (keypadRowPins (keypad w)). \<forall>q. gpio_of p = Some q \<longrightarrow> q \<in> pins)
          \<or> (\<forall>w'. r w w')"
    and r_pinTecleado: "r w (w\<lparr>pinTecleado := t, pos := p\<rparr>)"
    and r_held: "r w (w\<lparr>keyHeld := h, lastIndex := i\<rparr>)"
begin

lemma within_keypad:
  assumes "\<And>x. respeta r (f x)"
  shows "respeta r (bind (gets keypad) (\<lambda>k. bind (keypadRead k) f))"
proof (rule withinI)
  fix w
  show "r w (final (bind (gets keypad) (\<lambda>k. bind (keypadRead k) f) w))"
  proof (cases "\<forall>w'. r w w'")
    case False
    with r_keypadPins [of w] have "respeta r (keypadRead (keypad w))"
      by (intro within_keypadRead) blast
    from withinD [OF within_bind [OF this assms]] show ?thesis by (simp add: bind_gets)
  qed simp
qed

lemma within_tecladoReset: "respeta r tecladoReset"
  unfolding tecladoReset_def by (intro within_modify r_pinTecleado)

lemma within_tecla_de: "respeta r (tecla_de i)"
  unfolding tecla_de_def by (intro within_splits within_rules)

lemma within_acumular: "respeta r (acumular c)"
  unfolding acumular_def
  by (intro within_splits disp_rules r_pinTecleado within_block) (auto intro: disp_rules)

lemma within_limpiar: "respeta r (modify (\<lambda>w. w\<lparr>pinTecleado := (pinTecleado w)[n := c]\<rparr>))"
proof (rule within_modify)
  fix w
  show "r w (w\<lparr>pinTecleado := (pinTecleado w)[n := c]\<rparr>)"
    using r_pinTecleado [where w = w and p = "pos w"] by simp
qed

lemma within_tecladoLeerPin: "respeta r (tecladoLeerPin pin act)"
  unfolding tecladoLeerPin_def procesar_tecla_def completar_def
  by (intro within_keypad within_splits within_bind disp_rules within_tecla_de within_acumular
      within_limpiar within_tecladoReset r_held)

lemma within_tecladoLeerTecla: "respeta r tecladoLeerTecla"
  unfolding tecladoLeerTecla_def
  by (intro within_keypad within_splits within_bind disp_rules within_tecla_de r_held)

lemmas tecl_rules = disp_rules within_tecladoReset within_tecladoLeerPin within_tecladoLeerTecla

end

interpretation shr: tecl_stable shrinks UNIV UNIV
  by unfold_locales (simp_all add: shrinks_def)

lemma gpio_of_rows: "p \<in> set rowPins \<Longrightarrow> gpio_of p = Some q \<Longrightarrow> q \<in> row_gpios"
  by (auto simp: rowPins_def gpio_of_def gpioObtainPinInit_def gpioPinsInit_def gpio_map_defs
      row_gpios_def)

text \<open>The keypad does not move the motor.\<close>

definition teclado_motor :: "'z tecl_scheme \<Rightarrow> 'z tecl_scheme \<Rightarrow> bool" where
  "teclado_motor w w' \<longleftrightarrow> (keypad w = teclado_k \<longrightarrow> keypad w' = teclado_k \<and> motor w' = motor w)"

section \<open>The abstract machine of the PIN entry\<close>

datatype evento = Nada | Menu | Pin string

definition entrada :: "string \<Rightarrow> char \<Rightarrow> string \<times> evento" where
  "entrada ds c =
     (if c = CHR ''*'' then ([], Menu)
      else let ds' = (if is_digit c then ds @ [c] else ds)
           in if length ds' = PIN_LENGTH then ([], Pin ds') else (ds', Nada))"

definition evento_de :: "int \<Rightarrow> string \<Rightarrow> evento" where
  "evento_de res pin = (if res = 1 then Pin pin else if res = - 1 then Menu else Nada)"

definition digitos :: "'z tecl_scheme \<Rightarrow> string" where
  "digitos w = take (unat (pos w)) (pinTecleado w)"

definition teclado_inv :: "'z tecl_scheme \<Rightarrow> bool" where
  "teclado_inv w \<longleftrightarrow> keypad w = teclado_k \<and> unat (pos w) < PIN_LENGTH \<and>
     pinTecleado w = digitos w @ replicate (PIN_LENGTH + 1 - unat (pos w)) NUL \<and>
     list_all is_digit (digitos w)"

definition tecla :: "u16 \<Rightarrow> char" where
  "tecla i = concat keypadMap ! unat i"

definition tecl_frame :: "'z tecl_scheme \<Rightarrow> 'z tecl_scheme \<Rightarrow> bool" where
  "tecl_frame w w' \<longleftrightarrow> keypad w' = keypad w \<and> pinTecleado w' = pinTecleado w \<and> pos w' = pos w \<and>
     keyHeld w' = keyHeld w \<and> lastIndex w' = lastIndex w"

lemma env_frame_tecl: "env_frame w w' \<Longrightarrow> tecl_frame w w'"
  unfolding env_frame_def tecl_frame_def by (cases w, cases w') simp

interpretation tf: disp_stable tecl_frame UNIV UNIV
  by unfold_locales (simp_all add: within_poll_frame env_frame_tecl, simp_all add: tecl_frame_def)

lemma teclado_inv_frame: "tecl_frame w w' \<Longrightarrow> teclado_inv w \<Longrightarrow> teclado_inv w' \<and> digitos w' = digitos w"
  by (simp add: teclado_inv_def tecl_frame_def digitos_def)

lemma teclado_reset_inv:
  "keypad w = teclado_k \<Longrightarrow>
   teclado_inv (w\<lparr>pinTecleado := replicate (PIN_LENGTH + 1) NUL, pos := 0\<rparr>) \<and>
   digitos (w\<lparr>pinTecleado := replicate (PIN_LENGTH + 1) NUL, pos := 0\<rparr>) = []"
  by (simp add: teclado_inv_def digitos_def PIN_LENGTH_def)

lemma teclado_k_valido: "keypad_valido teclado_k"
  by (simp add: keypad_valido_def teclado_k_def rowPins_def colPins_def pin_valido_def gpio_map_defs)

lemma tecla_de_ok: "indice_valido teclado_k i \<Longrightarrow> tecla_de i w = Ret (tecla i) w"
proof -
  assume "indice_valido teclado_k i"
  then have "unat i < 12" by (simp add: indice_valido_def teclado_k_def rowPins_def colPins_def)
  then have "unat i \<in> {0, 1, 2, 3, 4, 5, 6, 7, 8, 9, 10, 11}" by (simp, presburger)
  then show "tecla_de i w = Ret (tecla i) w"
    by (auto simp: tecla_de_def tecla_def keypadMap_def KEYPAD_COLS_def unat_div unat_mod Let_def)
qed

lemma texto_digitos:
  assumes "list_all is_digit ds"
  shows "texto (ds @ replicate n NUL) = ds"
proof -
  have "\<forall>c \<in> set ds. c \<noteq> NUL" using assms by (auto simp: list_all_iff is_digit_def)
  then show ?thesis by (cases n) (simp_all add: texto_def takeWhile_append)
qed

text \<open>The array and the counter hold the digits \<open>ds\<close>.\<close>

definition guarda :: "string \<Rightarrow> 'z tecl_scheme \<Rightarrow> bool" where
  "guarda ds w \<longleftrightarrow> keypad w = teclado_k \<and> pos w = of_nat (length ds) \<and>
     pinTecleado w = ds @ replicate (PIN_LENGTH + 1 - length ds) NUL"

lemma guarda_inv:
  "teclado_inv w \<Longrightarrow> guarda (digitos w) w"
  "guarda ds w \<Longrightarrow> length ds < PIN_LENGTH \<Longrightarrow> list_all is_digit ds \<Longrightarrow> teclado_inv w \<and> digitos w = ds"
proof -
  assume i: "teclado_inv w"
  then have "length (pinTecleado w) = length (digitos w) + (PIN_LENGTH + 1 - unat (pos w))"
    by (metis teclado_inv_def length_append length_replicate)
  then have "length (digitos w) = unat (pos w)"
    using i by (auto simp: digitos_def teclado_inv_def min_def PIN_LENGTH_def)
  with i show "guarda (digitos w) w" by (simp add: guarda_def teclado_inv_def)
next
  assume "guarda ds w" "length ds < PIN_LENGTH" "list_all is_digit ds"
  then show "teclado_inv w \<and> digitos w = ds"
    by (simp add: guarda_def teclado_inv_def digitos_def PIN_LENGTH_def unat_of_nat
        take_bit_nat_eq_self)
qed

lemma guarda_frame: "tecl_frame w w' \<Longrightarrow> guarda ds w \<Longrightarrow> guarda ds w'"
  by (simp add: guarda_def tecl_frame_def)

lemma acumular_sat:
  assumes "guarda ds w" and "length ds < PIN_LENGTH" and "list_all is_digit ds"
  shows "sat E (\<lambda>_ w'. guarda (if is_digit c then ds @ [c] else ds) w' \<and>
      keyHeld w' = keyHeld w \<and> lastIndex w' = lastIndex w) (\<lambda>_. True) (acumular c w)"
proof (cases "is_digit c")
  case True
  let ?w = "w\<lparr>pinTecleado := (pinTecleado w)[unat (pos w) := c], pos := pos w + 1\<rparr>"
  have p: "unat (pos w) = length ds" "pos w < of_nat PIN_LENGTH"
    using assms(1,2)
    by (simp_all add: guarda_def PIN_LENGTH_def unat_of_nat take_bit_nat_eq_self word_less_nat_alt)
  have arr: "pinTecleado ?w = (ds @ [c]) @ replicate (PIN_LENGTH + 1 - length (ds @ [c])) NUL"
    using assms(1,2) p(1)
    by (simp add: guarda_def list_update_append Suc_diff_Suc [symmetric] Suc_diff_le)
  then have g: "guarda (ds @ [c]) ?w" using assms(1) by (simp add: guarda_def)
  have t: "texto (pinTecleado ?w) = ds @ [c]"
    unfolding arr by (rule texto_digitos) (use assms(3) True in simp)
  have "cabe (length (ds @ [c])) 35" using assms(2) by (simp add: cabe_def BUFFER_SIZE_def PIN_LENGTH_def)
  then have pr: "safe E (display_println (ds @ [c]) 35)" by (rule safe_display_println)
  have "sat E (\<lambda>_ w'. tecl_frame ?w w') (\<lambda>_. True)
      (block [display_println (ds @ [c]) 35, display_update] ?w)"
    by (rule sat_weaken [OF sat_safe_within [where r = tecl_frame]])
      (auto intro!: keeps_bind tf.within_bind pr safe_disp tf.disp_rules)
  then have "sat E (\<lambda>_ w'. guarda (ds @ [c]) w' \<and> keyHeld w' = keyHeld w \<and> lastIndex w' = lastIndex w)
      (\<lambda>_. True) (block [display_println (ds @ [c]) 35, display_update] ?w)"
    by (rule sat_weaken) (use guarda_frame [OF _ g] in \<open>auto simp: tecl_frame_def\<close>)
  then show ?thesis
    using True p t by (simp add: acumular_def bind_gets bind_modify del: block.simps)
next
  case False
  then show ?thesis using assms by (simp add: acumular_def bind_gets)
qed

text \<open>The part of \<^verbatim>\<open>tecladoLeerPin\<close> behind the edge detection.\<close>

lemma entrada_digitos:
  "length ds < PIN_LENGTH \<Longrightarrow> list_all is_digit ds \<Longrightarrow>
   (case entrada ds c of (ds', e) \<Rightarrow> length ds' < PIN_LENGTH \<and> list_all is_digit ds' \<and>
      (case e of Pin p \<Rightarrow> length p = PIN_LENGTH \<and> list_all is_digit p | _ \<Rightarrow> True))"
  by (auto simp: entrada_def Let_def PIN_LENGTH_def)

lemma sat_bind_ret:
  "sat E (\<lambda>x s'. Q (f x) s') R (m s) \<Longrightarrow> sat E Q R (bind m (\<lambda>x. ret (f x)) s)"
  by (rule sat_bind) simp

lemma tecladoReset_sat:
  "keypad w = teclado_k \<Longrightarrow>
   sat E (\<lambda>_ w'. teclado_inv w' \<and> digitos w' = []) (\<lambda>_. True) (tecladoReset w)"
  by (simp only: tecladoReset_def modify_apply sat.simps teclado_reset_inv)

definition refina :: "string \<Rightarrow> string \<Rightarrow> char \<Rightarrow> int \<times> string \<times> u32 \<Rightarrow> 'z tecl_scheme \<Rightarrow> bool" where
  "refina pin ds c = (\<lambda>(res, pin', _) w'.
     (digitos w', evento_de res pin') = entrada ds c \<and> teclado_inv w' \<and>
     (res = 1 \<or> pin' = pin \<and> res \<in> {- 1, 0}))"

lemma completar_sat:
  assumes "guarda ds' w" and "length ds' \<le> PIN_LENGTH" and "list_all is_digit ds'"
    and "ds' = (if is_digit c then ds @ [c] else ds)" and "c \<noteq> CHR ''*''"
  shows "sat E (refina pin ds c) (\<lambda>_. True) (completar pin t w)"
proof -
  have p: "unat (pos w) = length ds'"
    using assms(1,2) by (simp add: guarda_def PIN_LENGTH_def unat_of_nat take_bit_nat_eq_self)
  then have pos: "pos w = of_nat PIN_LENGTH \<longleftrightarrow> length ds' = PIN_LENGTH"
    using assms(1) by (auto simp: guarda_def PIN_LENGTH_def)
  have e: "entrada ds c = (if length ds' = PIN_LENGTH then ([], Pin ds') else (ds', Nada))"
    using assms(4,5) by (simp add: entrada_def Let_def)
  show ?thesis
  proof (cases "length ds' = PIN_LENGTH")
    case True
    have "(pinTecleado w)[PIN_LENGTH := NUL] = ds' @ replicate 1 NUL"
      using assms(1) True by (simp add: guarda_def list_update_append)
    then have t: "texto ((pinTecleado w)[PIN_LENGTH := NUL]) = ds'"
      using assms(3) by (simp only: texto_digitos)
    have "sat E (refina pin ds c) (\<lambda>_. True)
       (bind display_clear (\<lambda>_. bind tecladoReset (\<lambda>_. ret (1, ds', ucast t)))
         (w\<lparr>pinTecleado := (pinTecleado w)[PIN_LENGTH := NUL]\<rparr>))"
      by (rule sat_frame_bind [OF safe_display_clear tf.within_display_clear], rule sat_bind_ret,
          rule sat_weaken [OF tecladoReset_sat])
        (use assms(1) in \<open>auto simp: refina_def e True evento_de_def tecl_frame_def guarda_def\<close>)
    then show ?thesis using pos True t by (simp add: completar_def bind_gets bind_modify)
  next
    case False
    with assms(2) have "length ds' < PIN_LENGTH" by simp
    from guarda_inv(2) [OF assms(1) this assms(3)] pos False
    show ?thesis by (simp add: completar_def bind_gets e evento_de_def refina_def)
  qed
qed

lemma procesar_tecla_sat:
  assumes "guarda ds w" and "length ds < PIN_LENGTH" and "list_all is_digit ds"
  shows "sat E (refina pin ds c) (\<lambda>_. True) (procesar_tecla pin c w)"
  unfolding procesar_tecla_def
proof (rule sat_frame_bind [OF safe_tickRead tf.within_tickRead])
  fix t w1
  assume "tecl_frame w w1"
  with assms(1) have g: "guarda ds w1" by (rule guarda_frame [rotated])
  show "sat E (refina pin ds c) (\<lambda>_. True)
      ((if c = CHR ''*'' then bind tecladoReset (\<lambda>_. ret (- 1, pin, ucast t))
        else bind (acumular c) (\<lambda>_. completar pin t)) w1)"
  proof (cases "c = CHR ''*''")
    case True
    have k: "keypad w1 = teclado_k" using g by (simp add: guarda_def)
    have "sat E (refina pin ds c) (\<lambda>_. True) (bind tecladoReset (\<lambda>_. ret (- 1, pin, ucast t)) w1)"
      by (rule sat_bind_ret, rule sat_weaken [OF tecladoReset_sat [OF k]])
        (auto simp: refina_def True entrada_def evento_de_def)
    with True show ?thesis by simp
  next
    case False
    have "sat E (refina pin ds c) (\<lambda>_. True) (bind (acumular c) (\<lambda>_. completar pin t) w1)"
      by (rule sat_bind, rule sat_weaken [OF acumular_sat [OF g assms(2,3)]])
        (use assms(2,3) False in \<open>auto intro!: completar_sat\<close>)
    with False show ?thesis by simp
  qed
qed

text \<open>After a scan: a new key is processed, a held key and no key change nothing but the edge state.\<close>

lemma tecl_frame_keypadRead: "respeta tecl_frame (keypadRead k)"
  by (rule tf.within_keypadRead) simp

lemma keypadRead_tecl:
  assumes "teclado_inv w"
  shows "sat E (\<lambda>r w1. tecl_frame w w1 \<and> (\<forall>i. r = Some i \<longrightarrow> indice_valido teclado_k i)) (\<lambda>_. True)
     (keypadRead (keypad w) w)"
proof -
  have "keypad w = teclado_k" using assms by (simp add: teclado_inv_def)
  then show ?thesis
    using keypadRead_indice [OF teclado_k_valido, of E w] withinD [OF tecl_frame_keypadRead [of teclado_k], of w]
    by (cases "keypadRead teclado_k w") (auto split: option.splits)
qed

lemma inv_digitos: "teclado_inv w \<Longrightarrow> length (digitos w) < PIN_LENGTH \<and> list_all is_digit (digitos w)"
  by (auto simp: teclado_inv_def digitos_def)

lemma guarda_held: "guarda ds (w\<lparr>keyHeld := h, lastIndex := i\<rparr>) = guarda ds w"
  by (simp add: guarda_def)

lemma inv_held: "teclado_inv (w\<lparr>keyHeld := h, lastIndex := i\<rparr>) = teclado_inv w"
    "digitos (w\<lparr>keyHeld := h, lastIndex := i\<rparr>) = digitos w"
  by (simp_all add: teclado_inv_def digitos_def)

definition tecla_nueva :: "u16 option \<Rightarrow> 'z tecl_scheme \<Rightarrow> bool" where
  "tecla_nueva r w \<longleftrightarrow> (case r of None \<Rightarrow> False | Some i \<Rightarrow> \<not> keyHeld w \<or> i \<noteq> lastIndex w)"

lemma tecladoLeerPin_tras:
  assumes "teclado_inv w" and "keypadRead (keypad w) w = Ret r w1"
  shows "sat E (\<lambda>(res, pin', act') w'. teclado_inv w' \<and>
      (if tecla_nueva r w
       then (digitos w', evento_de res pin') = entrada (digitos w) (tecla (the r)) \<and>
         (res = 1 \<or> pin' = pin \<and> res \<in> {- 1, 0})
       else res = 0 \<and> pin' = pin \<and> act' = act \<and> digitos w' = digitos w \<and> (keyHeld w' \<longleftrightarrow> r \<noteq> None)))
     (\<lambda>_. True) (tecladoLeerPin pin act w)"
proof -
  have f: "tecl_frame w w1" "\<forall>i. r = Some i \<longrightarrow> indice_valido teclado_k i"
    using keypadRead_tecl [OF assms(1), of "{}"] by (simp_all add: assms(2))
  have b: "bind (keypadRead (keypad w)) f w = f r w1" for f :: "u16 option \<Rightarrow> (int \<times> string \<times> u32, 'a) tprog"
    using assms(2) by (simp add: bind_def)
  have i1: "teclado_inv w1" "digitos w1 = digitos w" using teclado_inv_frame [OF f(1) assms(1)] by auto
  show ?thesis
  proof (cases r)
    case None
    then show ?thesis
      by (simp add: tecladoLeerPin_def bind_gets b bind_modify tecla_nueva_def
          inv_held i1)
  next
    case (Some i)
    have n: "tecla_nueva r w \<longleftrightarrow> \<not> keyHeld w1 \<or> i \<noteq> lastIndex w1"
      using f(1) Some by (simp add: tecla_nueva_def tecl_frame_def)
    show ?thesis
    proof (cases "tecla_nueva r w")
      case True
      let ?w = "w1\<lparr>keyHeld := True, lastIndex := i\<rparr>"
      have "guarda (digitos w) ?w" using guarda_inv(1) [OF i1(1)] i1(2) by (simp add: guarda_held)
      from procesar_tecla_sat [OF this, where c = "tecla i" and pin = pin and E = E] inv_digitos [OF assms(1)]
      have "sat E (refina pin (digitos w) (tecla i)) (\<lambda>_. True) (procesar_tecla pin (tecla i) ?w)"
        by simp
      moreover have "bind (tecla_de i) f ?w = f (tecla i) ?w" for f :: "char \<Rightarrow> (int \<times> string \<times> u32, 'a) tprog"
        using f(2) Some by (simp add: bind_def tecla_de_ok)
      ultimately have "sat E (refina pin (digitos w) (tecla i)) (\<lambda>_. True) (tecladoLeerPin pin act w)"
        using True Some n by (simp add: tecladoLeerPin_def bind_gets b bind_modify)
      then show ?thesis
        by (rule sat_weaken) (use True Some in \<open>auto simp: refina_def\<close>)
    next
      case False
      then show ?thesis
        using Some n i1 by (simp add: tecladoLeerPin_def bind_gets b)
    qed
  qed
qed

lemma tecladoLeerPin_sat:
  assumes "teclado_inv w"
  shows "sat E (\<lambda>(res, pin', _) w'. teclado_inv w' \<and>
      (if res = 1 then length pin' = PIN_LENGTH \<and> list_all is_digit pin' else pin' = pin)) (\<lambda>_. True)
     (tecladoLeerPin pin act w)"
proof (cases "keypadRead (keypad w) w")
  case (Ret r w1)
  show ?thesis
  proof (rule sat_weaken [OF tecladoLeerPin_tras [OF assms Ret]], goal_cases)
    case (1 x w')
    obtain res pin' act' where x: "x = (res, pin', act')" by (cases x) auto
    show ?case
      using 1 inv_digitos [OF assms] entrada_digitos [of "digitos w" "tecla (the r)"]
      by (cases "entrada (digitos w) (tecla (the r))")
        (auto simp: x evento_de_def split: if_splits)
  qed simp
qed (use keypadRead_tecl [OF assms, of E] in \<open>auto simp: tecladoLeerPin_def bind_gets bind_apply\<close>)

lemma tecladoLeerTecla_sat:
  assumes "teclado_inv w"
  shows "sat E (\<lambda>_. teclado_inv) (\<lambda>_. True) (tecladoLeerTecla w)"
  unfolding tecladoLeerTecla_def bind_gets
proof (rule sat_bind, rule sat_weaken [OF keypadRead_tecl [OF assms]], goal_cases)
  case (1 r w1)
  then have i: "teclado_inv w1" using teclado_inv_frame assms by blast
  show ?case
  proof (cases r)
    case None
    then show ?thesis using i by (simp add: bind_modify inv_held)
  next
    case (Some k)
    have "sat E (\<lambda>_. teclado_inv) (\<lambda>_. True) (bind (delay 20) (\<lambda>_. ret (Some (tecla k)))
        (w1\<lparr>keyHeld := True, lastIndex := k\<rparr>))"
      by (rule sat_frame_bind [OF safe_delay tf.within_delay])
        (use i in \<open>auto simp: inv_held dest: teclado_inv_frame\<close>)
    then show ?thesis
      using i 1 Some by (simp add: bind_gets bind_modify bind_Ret [OF tecla_de_ok])
  qed
qed simp

section \<open>Properties\<close>


text \<open>A keypad with the key 5 pressed: column 1 follows row 1.\<close>

definition tecl0 :: "ev list list \<Rightarrow> ((pin \<Rightarrow> bool) \<Rightarrow> pin \<Rightarrow> bool) \<Rightarrow> tecl" where
  "tecl0 sc f = (hw0 sc (disp_ext (\<lambda>_. 0) 0 0 [] (tecl_ext teclado_k (replicate 6 NUL) 0 False 0xFFFF ())))
     \<lparr>sysTickOn := True, sysTickInt := True, wire := f\<rparr>"

definition pulsada5 :: "(pin \<Rightarrow> bool) \<Rightarrow> pin \<Rightarrow> bool" where
  "pulsada5 out p = (if p = (3, 12) then out (2, 1) else True)"

lemma gpioWrite_teclado:
  "gpioWrite 0 v = bind (Chip_GPIO_SetPinState 2 1 v) (\<lambda>_. ret True)"
  "gpioWrite 3 v = bind (Chip_GPIO_SetPinState 2 2 v) (\<lambda>_. ret True)"
  "gpioWrite 4 v = bind (Chip_GPIO_SetPinState 2 3 v) (\<lambda>_. ret True)"
  "gpioWrite 5 v = bind (Chip_GPIO_SetPinState 2 0 v) (\<lambda>_. ret True)"
  "gpioRead 2 = Chip_GPIO_GetPinState 1 8"
  "gpioRead 6 = Chip_GPIO_GetPinState 3 12"
  "gpioRead 1 = Chip_GPIO_GetPinState 3 13"
  by (simp_all add: gpioWrite_def gpioRead_def gpioObtainPinInit_def gpioPinsInit_def VCC_def GND_def)

lemma lee5: "\<exists>w1. keypadRead teclado_k (tecl0 [[], [], [], [Ticks 60], [], []] pulsada5) = Ret (Some 4) w1"
  by (simp add: keypadRead_def keypad_rows_def teclado_k_def rowPins_def colPins_def gpio_map_defs
      gpioWrite_teclado Chip_GPIO_SetPinState_def Chip_GPIO_GetPinState_def bind_def void_def
      tecl0_def hw0_def pulsada5_def poll_def delay_def tickRead_def loop_def iter.simps upt_rec
      tickerCallback_funpow)


end
