(* ===== verification/As608.thy ===== *)
theory As608
  imports Teclado
begin

text \<open>
  The fingerprint sensor (\<^verbatim>\<open>as608.c\<close>): the packet protocol over the UART, the
  commands, enrolment, and the non-blocking scan as a state machine of its own
  (theory As608\_Scan has its properties).

  A response array a function declares for itself is the list of the bytes
  received so far. The time of the last look at the clock is kept in \<^verbatim>\<open>uint32_t\<close>
  variables while \<^verbatim>\<open>tickRead\<close> gives 64 bits: \<open>desde\<close> is the subtraction as C
  evaluates it. Counters that only feed debug output are left out.
\<close>

section \<open>State\<close>

datatype as608ScanState =
    ST_IDLE | ST_SEND_GETIMAGE | ST_WAIT_GETIMAGE | ST_PREDLY_IMAGE2TZ | ST_SEND_IMAGE2TZ
  | ST_WAIT_IMAGE2TZ | ST_SEND_SEARCH | ST_WAIT_SEARCH | ST_DONE_NOFINGER | ST_DONE_MATCH
  | ST_DONE_NOMATCH | ST_DONE_ERROR

datatype as608ScanStatus =
    AS608_SCAN_IDLE | AS608_SCAN_INPROGRESS | AS608_SCAN_MATCH | AS608_SCAN_NOMATCH
  | AS608_SCAN_ERROR | AS608_SCAN_NOFINGER

record scan_t =
  st :: as608ScanState
  tCmdStart :: u32
  tLastByte :: u32
  resp :: "u8 list"  \<comment> \<open>\<^verbatim>\<open>resp[64]\<close>\<close>
  respLen :: nat
  lastId :: u16
  lastScore :: u16

record as608 = tecl +
  g_scan :: scan_t
  g_as608DebugLevel :: u8

type_synonym ('a, 'z) aprog = "('a, 'z as608_scheme) prog"

definition AS608_UART :: uartMap_t where "AS608_UART = 0"
definition AS608_DEFAULT_BAUD :: u32 where "AS608_DEFAULT_BAUD = 57600"
definition AS608_FLUSH_MS_SHORT :: u32 where "AS608_FLUSH_MS_SHORT = 2"
definition AS608_FLUSH_MS_TINY :: u32 where "AS608_FLUSH_MS_TINY = 1"
definition AS608_DELAY_BEFORE_SEND_MS :: u32 where "AS608_DELAY_BEFORE_SEND_MS = 2"
definition AS608_GETIMAGE_LONG_TIMEOUT_MS :: u32 where "AS608_GETIMAGE_LONG_TIMEOUT_MS = 200"
definition AS608_IMAGE2TZ_PRE_DELAY_MS :: u32 where "AS608_IMAGE2TZ_PRE_DELAY_MS = 10"
definition AS608_IMAGE2TZ_TIMEOUT_MS :: u32 where "AS608_IMAGE2TZ_TIMEOUT_MS = 400"
definition AS608_SEARCH_TIMEOUT_MS :: u32 where "AS608_SEARCH_TIMEOUT_MS = 200"
definition AS608_CHECK_DELAY_MS :: u64 where "AS608_CHECK_DELAY_MS = 5"
definition AS608_CHECK_TIMEOUT_MS :: u32 where "AS608_CHECK_TIMEOUT_MS = 3000"
definition AS608_TEMPLATECOUNT_TIMEOUT_MS :: u32 where "AS608_TEMPLATECOUNT_TIMEOUT_MS = 3000"
definition AS608_REGMODEL_TIMEOUT_MS :: u32 where "AS608_REGMODEL_TIMEOUT_MS = 300"
definition AS608_STORE_TIMEOUT_MS :: u32 where "AS608_STORE_TIMEOUT_MS = 500"
definition AS608_ENROLL_NOFINGER_DELAY_MS :: u64 where "AS608_ENROLL_NOFINGER_DELAY_MS = 200"
definition AS608_ENROLL_ERROR_DELAY_MS :: u64 where "AS608_ENROLL_ERROR_DELAY_MS = 300"
definition AS608_ENROLL_ATTEMPT_INTERVAL_MS :: u64 where "AS608_ENROLL_ATTEMPT_INTERVAL_MS = 300"

section \<open>UART\<close>

text \<open>\<^verbatim>\<open>tickRead() - start\<close> with a \<^verbatim>\<open>uint32_t start\<close>.\<close>

definition desde :: "u64 \<Rightarrow> u32 \<Rightarrow> u64" where
  "desde t start = t - ucast start"

definition tick32 :: "(u32, 'z) hwprog" where
  "tick32 = bind tickRead (\<lambda>t. ret (ucast t))"

definition as608SetDebug :: "u8 \<Rightarrow> (unit, 'z) aprog" where
  "as608SetDebug level = modify (\<lambda>w. w\<lparr>g_as608DebugLevel := level\<rparr>)"

definition as608Send :: "u8 list \<Rightarrow> (unit, 'z) aprog" where
  "as608Send data = for_each data (uartWriteByte AS608_UART)"

definition as608FlushRx :: "u32 \<Rightarrow> (unit, 'z) aprog" where
  "as608FlushRx ms =
     bind tick32 (\<lambda>start.
     loop (\<lambda>_.
       bind tickRead (\<lambda>t.
       if desde t start < ucast ms then bind (uartReadByte AS608_UART) (\<lambda>_. ret (Inl ()))
       else ret (Inr ()))) ())"

definition as608FlushAndDelay :: "u32 \<Rightarrow> u32 \<Rightarrow> (unit, 'z) aprog" where
  "as608FlushAndDelay flushMs delayMs = block [
     as608FlushRx flushMs,
     if delayMs \<noteq> 0 then delay (ucast delayMs) else ret ()]"

text \<open>The locals of the loop are the bytes received so far and \<^verbatim>\<open>lastByte\<close>.\<close>

definition as608Recv :: "nat \<Rightarrow> u32 \<Rightarrow> (u8 list, 'z) aprog" where
  "as608Recv maxLen timeoutMs =
     bind tick32 (\<lambda>start.
     loop (\<lambda>(buf, lastByte).
       bind tickRead (\<lambda>t.
       if desde t start < ucast timeoutMs then
         bind (uartReadByte AS608_UART) (\<lambda>r.
         case r of
           Some b \<Rightarrow>
             if length buf < maxLen then bind tick32 (\<lambda>l. ret (Inl (buf @ [b], l)))
             else ret (Inr buf)
         | None \<Rightarrow>
             if 0 < length buf then
               bind tickRead (\<lambda>t2.
               ret (if desde t2 lastByte > 30 then Inr buf else Inl (buf, lastByte)))
             else ret (Inl (buf, lastByte)))
       else ret (Inr buf))) ([], start))"

section \<open>Packets\<close>

definition as608_header :: "u8 \<Rightarrow> u16 \<Rightarrow> u8 list" where
  "as608_header packetType len =
     [0xEF, 0x01, 0xFF, 0xFF, 0xFF, 0xFF, packetType, ucast (drop_bit 8 len), ucast (len AND 0xFF)]"

definition as608_frame :: "u8 \<Rightarrow> u8 list \<Rightarrow> u8 list" where
  "as608_frame packetType payload =
     (let len = of_nat (length payload) + 2;
          header = as608_header packetType len;
          sum = ucast packetType + ucast (header ! 7) + ucast (header ! 8)
                + sum_list (map ucast payload)
      in header @ payload @ [ucast (drop_bit 8 (sum :: u16)), ucast (sum AND 0xFF)])"

definition as608WritePacket :: "u8 \<Rightarrow> u8 list \<Rightarrow> (unit, 'z) aprog" where
  "as608WritePacket packetType payload =
     (if length payload \<le> 256 then as608Send (as608_frame packetType payload)
      else fault BufferOverflow)"

text \<open>The confirmation code of an acknowledge packet, 0xFF when there is none.\<close>

definition as608TryParseAck :: "u8 list \<Rightarrow> nat \<Rightarrow> u8" where
  "as608TryParseAck buf len =
     (if len < 12 then 0xFF
      else if buf ! 0 \<noteq> 0xEF \<or> buf ! 1 \<noteq> 0x01 then 0xFF
      else if buf ! 6 \<noteq> 0x07 then 0xFF
      else buf ! 9)"

definition as608ExpectedFrameLen :: "u8 list \<Rightarrow> nat \<Rightarrow> u16" where
  "as608ExpectedFrameLen buf len =
     (if len < 9 then 0
      else if buf ! 0 \<noteq> 0xEF \<or> buf ! 1 \<noteq> 0x01 then 0
      else 9 + (push_bit 8 (ucast (buf ! 7)) OR ucast (buf ! 8)))"

definition as608GetAck :: "nat \<Rightarrow> u32 \<Rightarrow> (u8, 'z) aprog" where
  "as608GetAck respMax timeoutMs =
     bind (as608Recv respMax timeoutMs) (\<lambda>respBuf.
     ret (if length respBuf < 12 then 0xFF
          else if respBuf ! 0 \<noteq> 0xEF \<or> respBuf ! 1 \<noteq> 0x01 then 0xFF
          else if respBuf ! 6 \<noteq> 0x07 then 0xFF
          else respBuf ! 9))"

definition as608Check :: "(bool, 'z) aprog" where
  "as608Check =
     bind (block [
       as608FlushRx AS608_FLUSH_MS_TINY,
       as608Send [0xEF, 0x01, 0xFF, 0xFF, 0xFF, 0xFF, 0x01, 0x00, 0x07, 0x13, 0x00, 0x00, 0x00, 0x00,
                  0x00, 0x1B],
       delay AS608_CHECK_DELAY_MS]) (\<lambda>_.
     bind (as608Recv 32 AS608_CHECK_TIMEOUT_MS) (\<lambda>rs.
     ret (if length rs < 12 \<or> rs ! 0 \<noteq> 0xEF \<or> rs ! 1 \<noteq> 0x01 \<or> rs ! 6 \<noteq> 0x07 then False
          else rs ! 9 = 0x00)))"

section \<open>Commands\<close>

definition as608CmdAck :: "u8 \<Rightarrow> u8 list \<Rightarrow> u32 \<Rightarrow> u32 \<Rightarrow> u32 \<Rightarrow> (u8, 'z) aprog" where
  "as608CmdAck instr extra timeoutMs preDelayMs flushMs =
     bind (block [
       if preDelayMs \<noteq> 0 then delay (ucast preDelayMs) else ret (),
       as608FlushRx flushMs,
       as608WritePacket 0x01 (instr # take 7 extra)]) (\<lambda>_.
     as608GetAck 32 timeoutMs)"

definition as608CmdGetImageLong :: "(u8, 'z) aprog" where
  "as608CmdGetImageLong = as608CmdAck 0x01 [] AS608_GETIMAGE_LONG_TIMEOUT_MS
     AS608_DELAY_BEFORE_SEND_MS AS608_FLUSH_MS_SHORT"

definition as608CmdImage2Tz :: "u8 \<Rightarrow> (u8, 'z) aprog" where
  "as608CmdImage2Tz slot = as608CmdAck 0x02 [slot] AS608_IMAGE2TZ_TIMEOUT_MS
     AS608_IMAGE2TZ_PRE_DELAY_MS AS608_FLUSH_MS_SHORT"

definition hi8 :: "u16 \<Rightarrow> u8" where "hi8 x = ucast (drop_bit 8 x)"
definition lo8 :: "u16 \<Rightarrow> u8" where "lo8 x = ucast (x AND 0xFF)"
definition be16 :: "u8 \<Rightarrow> u8 \<Rightarrow> u16" where "be16 h l = push_bit 8 (ucast h) OR ucast l"

text \<open>The returned code, and the identifier and score when it is 0.\<close>

definition as608CmdHiSpeedSearch :: "u16 \<Rightarrow> u16 \<Rightarrow> (int \<times> (u16 \<times> u16) option, 'z) aprog" where
  "as608CmdHiSpeedSearch startPage pageCount =
     bind (block [
       as608FlushRx 2,
       as608WritePacket 0x01 [0x1B, 0x01, hi8 startPage, lo8 startPage, hi8 pageCount, lo8 pageCount]]) (\<lambda>_.
     bind (as608Recv 32 AS608_SEARCH_TIMEOUT_MS) (\<lambda>rs.
     ret (if length rs < 14 then (- 1, None)
          else if rs ! 0 \<noteq> 0xEF \<or> rs ! 1 \<noteq> 0x01 then (- 1, None)
          else if rs ! 6 \<noteq> 0x07 then (- 1, None)
          else if rs ! 9 \<noteq> 0x00 then (uint (rs ! 9), None)
          else (0, Some (be16 (rs ! 10) (rs ! 11), be16 (rs ! 12) (rs ! 13))))))"

definition as608CmdRegModel :: "(u8, 'z) aprog" where
  "as608CmdRegModel = as608CmdAck 0x05 [] AS608_REGMODEL_TIMEOUT_MS 0 AS608_FLUSH_MS_TINY"

definition as608CmdStore :: "u16 \<Rightarrow> (u8, 'z) aprog" where
  "as608CmdStore idTarget = as608CmdAck 0x06 [0x01, hi8 idTarget, lo8 idTarget]
     AS608_STORE_TIMEOUT_MS 0 AS608_FLUSH_MS_TINY"

definition as608CmdTemplateCount :: "(int, 'z) aprog" where
  "as608CmdTemplateCount =
     bind (block [as608FlushRx AS608_FLUSH_MS_TINY, as608WritePacket 0x01 [0x1D]]) (\<lambda>_.
     bind (as608Recv 32 AS608_TEMPLATECOUNT_TIMEOUT_MS) (\<lambda>rs.
     ret (if length rs < 14 then - 1
          else if rs ! 0 \<noteq> 0xEF \<or> rs ! 1 \<noteq> 0x01 then - 1
          else if rs ! 6 \<noteq> 0x07 then - 1
          else if rs ! 9 \<noteq> 0x00 then - 1
          else uint (rs ! 10) * 256 + uint (rs ! 11))))"

definition as608GetTemplateCount :: "(int, 'z) aprog" where
  "as608GetTemplateCount = as608CmdTemplateCount"

definition as608CmdEmpty :: "(u8, 'z) aprog" where
  "as608CmdEmpty = as608CmdAck 0x0D [] 2000 0 AS608_FLUSH_MS_SHORT"

definition as608ClearAllTemplates :: "(bool, 'z) aprog" where
  "as608ClearAllTemplates = bind as608CmdEmpty (\<lambda>r. ret (r = 0x00))"

definition as608CmdDelete :: "u16 \<Rightarrow> u16 \<Rightarrow> (u8, 'z) aprog" where
  "as608CmdDelete pageID n =
     as608CmdAck 0x0C [hi8 pageID, lo8 pageID, hi8 n, lo8 n] 1000 0 AS608_FLUSH_MS_SHORT"

definition as608DeleteId :: "u16 \<Rightarrow> (bool, 'z) aprog" where
  "as608DeleteId ident =
     bind (as608CmdDelete ident 1) (\<lambda>r.
     bind (block [
       display_clear,
       display_println (texto (''ERROR '' @ [byte_char r])) 30,
       display_update]) (\<lambda>_.
     ret (r = 0x00)))"

text \<open>\<^verbatim>\<open>as608SearchInBuffer1\<close> takes the identifier from the scan buffer, not from the answer.\<close>

definition as608SearchInBuffer1 :: "(int, 'z) aprog" where
  "as608SearchInBuffer1 =
     bind (as608CmdAck 0x04 [0x01, 0x00, 0x00, 0x01, 0x2C] 1000 0 AS608_FLUSH_MS_SHORT) (\<lambda>p.
     if p = 0x00 then
       bind (gets g_scan) (\<lambda>g. ret (uint (be16 (resp g ! 10) (resp g ! 11))))
     else ret (- 1))"

section \<open>Enrolment\<close>

definition as608EnrollCapture :: "u8 \<Rightarrow> (bool, 'z) aprog" where
  "as608EnrollCapture slot =
     bind (as608FlushAndDelay 50 100) (\<lambda>_.
     bind tick32 (\<lambda>start.
     loop (\<lambda>lastAttempt.
       bind tickRead (\<lambda>t.
       if desde t start < 30000 then
         bind tickRead (\<lambda>t2.
         if desde t2 lastAttempt < AS608_ENROLL_ATTEMPT_INTERVAL_MS then
           bind (delay 10) (\<lambda>_. ret (Inl lastAttempt))
         else
           bind tick32 (\<lambda>lastAttempt'.
           bind (as608FlushAndDelay 10 50) (\<lambda>_.
           bind as608CmdGetImageLong (\<lambda>r.
           if r = 0x00 then
             bind (as608FlushAndDelay 20 200) (\<lambda>_.
             bind (as608CmdImage2Tz slot) (\<lambda>tz. ret (Inr (tz = 0x00))))
           else if r = 0x02 then
             bind (delay AS608_ENROLL_NOFINGER_DELAY_MS) (\<lambda>_. ret (Inl lastAttempt'))
           else
             bind (delay AS608_ENROLL_ERROR_DELAY_MS) (\<lambda>_. ret (Inl lastAttempt'))))))
       else ret (Inr False))) 0))"

text \<open>The result and the text in \<^verbatim>\<open>idOut\<close>.\<close>

definition as608EnrollAtId :: "u16 \<Rightarrow> (bool \<times> string, 'z) aprog" where
  "as608EnrollAtId idTarget =
     bind (block [
       display_clear, display_println ''Preparando sensor...'' 20, display_update,
       as608FlushAndDelay 100 200,
       display_clear, display_println ''COLOQUE DEDO EN'' 10, display_println ''EL SENSOR '' 30,
       display_update, delay 2000]) (\<lambda>_.
     bind (as608EnrollCapture 0x01) (\<lambda>ok1.
     if \<not> ok1 then ret (False, '''')
     else
       bind (block [
         as608FlushRx 50,
         display_println ''No lo retire'' 50, display_update, delay 2000]) (\<lambda>_.
       bind (as608EnrollCapture 0x02) (\<lambda>ok2.
       if \<not> ok2 then ret (False, '''')
       else
         bind as608CmdRegModel (\<lambda>rm.
         if rm \<noteq> 0x00 then ret (False, '''')
         else if idTarget > 0x00A3 then
           bind (block [
             display_clear, display_println ''ID FUERA'' 10, display_println ''DE RANGO'' 20,
             display_update]) (\<lambda>_. ret (False, ''''))
         else
           bind (as608CmdStore idTarget) (\<lambda>s.
           if s \<noteq> 0x00 then ret (False, '''')
           else
             bind (block [
               display_clear, display_println ''LISTO'' 20, display_println ''HUELLA GUARDADA'' 30,
               display_update]) (\<lambda>_.
             ret (True, cut_str 5 (fmt_04u (unat idTarget))))))))))"

definition as608Init :: "u32 \<Rightarrow> (unit, 'z) aprog" where
  "as608Init baudrate = block [
     uartInit AS608_UART (if baudrate = 0 then AS608_DEFAULT_BAUD else baudrate),
     as608FlushRx 10,
     void as608Check,
     void as608CmdTemplateCount]"

section \<open>Non-blocking scan\<close>

definition scan0 :: scan_t where
  "scan0 = \<lparr>st = ST_IDLE, tCmdStart = 0, tLastByte = 0, resp = replicate 64 0, respLen = 0,
     lastId = 0, lastScore = 0\<rparr>"

definition as608ScanReset :: "(unit, 'z) aprog" where
  "as608ScanReset = modify (\<lambda>w. w\<lparr>g_scan := scan0\<lparr>st := ST_SEND_GETIMAGE\<rparr>\<rparr>)"

definition set_scan :: "(scan_t \<Rightarrow> scan_t) \<Rightarrow> (unit, 'z) aprog" where
  "set_scan f = modify (\<lambda>w. w\<lparr>g_scan := f (g_scan w)\<rparr>)"

text \<open>Storing a byte; when the array is full the reading stops (\<open>Inr\<close>).\<close>

definition slice_byte :: "u8 \<Rightarrow> (unit + unit, 'z) aprog" where
  "slice_byte b =
     bind (gets (\<lambda>w. respLen (g_scan w))) (\<lambda>n.
     if n < 64 then
       bind (set_scan (\<lambda>g. g\<lparr>resp := (resp g)[n := b], respLen := Suc n\<rparr>)) (\<lambda>_.
       bind tick32 (\<lambda>l.
       bind (set_scan (\<lambda>g. g\<lparr>tLastByte := l\<rparr>)) (\<lambda>_. ret (Inl ()))))
     else ret (Inr ()))"

definition slice_paso :: "u32 \<Rightarrow> u32 \<Rightarrow> (unit + unit, 'z) aprog" where
  "slice_paso sliceMs start =
     bind tickRead (\<lambda>t.
     if desde t start < ucast sliceMs then
       bind (uartReadByte AS608_UART) (\<lambda>r.
       case r of None \<Rightarrow> ret (Inl ()) | Some b \<Rightarrow> slice_byte b)
     else ret (Inr ()))"

definition as608ReadSlice :: "u32 \<Rightarrow> (unit, 'z) aprog" where
  "as608ReadSlice sliceMs = bind tick32 (\<lambda>start. loop (\<lambda>_. slice_paso sliceMs start) ())"

text \<open>Sending one of the three commands of a scan.\<close>

definition scan_send :: "u32 \<Rightarrow> u8 list \<Rightarrow> as608ScanState \<Rightarrow> (unit, 'z) aprog" where
  "scan_send flushMs payload nxt =
     bind (block [
       set_scan (\<lambda>g. g\<lparr>respLen := 0\<rparr>),
       as608FlushRx flushMs,
       as608WritePacket 0x01 payload]) (\<lambda>_.
     bind tick32 (\<lambda>t.
     set_scan (\<lambda>g. g\<lparr>tCmdStart := t, st := nxt\<rparr>)))"

text \<open>What a wait does when there is no acknowledge yet.\<close>

definition scan_timeout :: "u32 \<Rightarrow> as608ScanState \<Rightarrow> (unit, 'z) aprog" where
  "scan_timeout limit nxt =
     bind tickRead (\<lambda>t.
     bind (gets (\<lambda>w. tCmdStart (g_scan w))) (\<lambda>s.
     if desde t s > ucast limit then set_scan (\<lambda>g. g\<lparr>st := nxt\<rparr>) else ret ()))"

definition scan_ack :: "(u8, 'z) aprog" where
  "scan_ack = bind (as608ReadSlice 4) (\<lambda>_.
     gets (\<lambda>w. as608TryParseAck (resp (g_scan w)) (respLen (g_scan w))))"

type_synonym scan_out = "as608ScanStatus \<times> u16 \<times> u16"

definition scan_wait_getimage :: "u16 \<Rightarrow> u16 \<Rightarrow> (scan_out, 'z) aprog" where
  "scan_wait_getimage idOut scoreOut =
     bind scan_ack (\<lambda>code.
     if code \<noteq> 0xFF then
       if code = 0x00 then
         bind (set_scan (\<lambda>g. g\<lparr>st := ST_PREDLY_IMAGE2TZ\<rparr>)) (\<lambda>_.
         bind tick32 (\<lambda>t.
         bind (set_scan (\<lambda>g. g\<lparr>tCmdStart := t\<rparr>)) (\<lambda>_.
         ret (AS608_SCAN_INPROGRESS, idOut, scoreOut))))
       else
         bind (set_scan (\<lambda>g. g\<lparr>st := (if code = 0x02 then ST_DONE_NOFINGER else ST_DONE_ERROR)\<rparr>)) (\<lambda>_.
         ret (AS608_SCAN_INPROGRESS, idOut, scoreOut))
     else
       bind (scan_timeout AS608_GETIMAGE_LONG_TIMEOUT_MS ST_DONE_NOFINGER) (\<lambda>_.
       ret (AS608_SCAN_INPROGRESS, idOut, scoreOut)))"

definition scan_wait_image2tz :: "u16 \<Rightarrow> u16 \<Rightarrow> (scan_out, 'z) aprog" where
  "scan_wait_image2tz idOut scoreOut =
     bind scan_ack (\<lambda>code.
     bind (if code \<noteq> 0xFF
           then set_scan (\<lambda>g. g\<lparr>st := (if code = 0x00 then ST_SEND_SEARCH else ST_DONE_ERROR)\<rparr>)
           else scan_timeout AS608_IMAGE2TZ_TIMEOUT_MS ST_DONE_ERROR) (\<lambda>_.
     ret (AS608_SCAN_INPROGRESS, idOut, scoreOut)))"

definition scan_wait_search :: "u16 \<Rightarrow> u16 \<Rightarrow> (scan_out, 'z) aprog" where
  "scan_wait_search idOut scoreOut =
     bind scan_ack (\<lambda>code.
     if code \<noteq> 0xFF then
       bind (gets g_scan) (\<lambda>g.
       let expect = as608ExpectedFrameLen (resp g) (respLen g) in
       if code = 0x00 then
         if expect \<noteq> 0 \<and> unat expect \<le> respLen g \<and> 14 \<le> respLen g then
           let i = be16 (resp g ! 10) (resp g ! 11); s = be16 (resp g ! 12) (resp g ! 13) in
           bind (set_scan (\<lambda>g. g\<lparr>lastId := i, lastScore := s, st := ST_DONE_MATCH\<rparr>)) (\<lambda>_.
           ret (AS608_SCAN_INPROGRESS, i, s))
         else ret (AS608_SCAN_INPROGRESS, idOut, scoreOut)
       else
         bind (set_scan (\<lambda>g. g\<lparr>st := ST_DONE_NOMATCH\<rparr>)) (\<lambda>_.
         ret (AS608_SCAN_INPROGRESS, idOut, scoreOut)))
     else
       bind (scan_timeout AS608_SEARCH_TIMEOUT_MS ST_DONE_NOFINGER) (\<lambda>_.
       ret (AS608_SCAN_INPROGRESS, idOut, scoreOut)))"

definition scan_done :: "as608ScanStatus \<Rightarrow> u16 \<Rightarrow> u16 \<Rightarrow> (scan_out, 'z) aprog" where
  "scan_done s idOut scoreOut =
     bind (set_scan (\<lambda>g. g\<lparr>st := ST_IDLE\<rparr>)) (\<lambda>_. ret (s, idOut, scoreOut))"

definition as608ScanStep :: "u16 \<Rightarrow> u16 \<Rightarrow> (scan_out, 'z) aprog" where
  "as608ScanStep idOut scoreOut =
     bind (gets g_scan) (\<lambda>g.
     case st g of
       ST_IDLE \<Rightarrow> bind (set_scan (\<lambda>g. g\<lparr>st := ST_SEND_GETIMAGE\<rparr>)) (\<lambda>_.
         ret (AS608_SCAN_INPROGRESS, idOut, scoreOut))
     | ST_SEND_GETIMAGE \<Rightarrow> bind (scan_send AS608_FLUSH_MS_SHORT [0x01] ST_WAIT_GETIMAGE) (\<lambda>_.
         ret (AS608_SCAN_INPROGRESS, idOut, scoreOut))
     | ST_WAIT_GETIMAGE \<Rightarrow> scan_wait_getimage idOut scoreOut
     | ST_PREDLY_IMAGE2TZ \<Rightarrow>
         bind tickRead (\<lambda>t.
         bind (if desde t (tCmdStart g) \<ge> ucast AS608_IMAGE2TZ_PRE_DELAY_MS
               then set_scan (\<lambda>g. g\<lparr>st := ST_SEND_IMAGE2TZ\<rparr>) else ret ()) (\<lambda>_.
         ret (AS608_SCAN_INPROGRESS, idOut, scoreOut)))
     | ST_SEND_IMAGE2TZ \<Rightarrow> bind (scan_send AS608_FLUSH_MS_SHORT [0x02, 0x01] ST_WAIT_IMAGE2TZ) (\<lambda>_.
         ret (AS608_SCAN_INPROGRESS, idOut, scoreOut))
     | ST_WAIT_IMAGE2TZ \<Rightarrow> scan_wait_image2tz idOut scoreOut
     | ST_SEND_SEARCH \<Rightarrow>
         bind (scan_send AS608_FLUSH_MS_TINY [0x1B, 0x01, hi8 0, lo8 0, hi8 0x00A3, lo8 0x00A3]
           ST_WAIT_SEARCH) (\<lambda>_. ret (AS608_SCAN_INPROGRESS, idOut, scoreOut))
     | ST_WAIT_SEARCH \<Rightarrow> scan_wait_search idOut scoreOut
     | ST_DONE_MATCH \<Rightarrow> scan_done AS608_SCAN_MATCH (lastId g) (lastScore g)
     | ST_DONE_NOFINGER \<Rightarrow> scan_done AS608_SCAN_NOFINGER idOut scoreOut
     | ST_DONE_NOMATCH \<Rightarrow> scan_done AS608_SCAN_NOMATCH idOut scoreOut
     | ST_DONE_ERROR \<Rightarrow> scan_done AS608_SCAN_ERROR idOut scoreOut)"

section \<open>What the driver keeps\<close>

lemma within_case_scan:
  "\<lbrakk>respeta r a; respeta r b; respeta r c; respeta r d; respeta r e; respeta r f; respeta r g; respeta r h;
    respeta r i; respeta r j; respeta r k; respeta r l\<rbrakk> \<Longrightarrow>
   respeta r (case x of ST_IDLE \<Rightarrow> a | ST_SEND_GETIMAGE \<Rightarrow> b | ST_WAIT_GETIMAGE \<Rightarrow> c
     | ST_PREDLY_IMAGE2TZ \<Rightarrow> d | ST_SEND_IMAGE2TZ \<Rightarrow> e | ST_WAIT_IMAGE2TZ \<Rightarrow> f | ST_SEND_SEARCH \<Rightarrow> g
     | ST_WAIT_SEARCH \<Rightarrow> h | ST_DONE_NOFINGER \<Rightarrow> i | ST_DONE_MATCH \<Rightarrow> j | ST_DONE_NOMATCH \<Rightarrow> k
     | ST_DONE_ERROR \<Rightarrow> l)"
  by (cases x) auto

lemma usart_AS608: "usart AS608_UART = 0"
  by (simp add: usart_def AS608_UART_def lpcUarts_def)

text \<open>The commands only talk to the UART and the display.\<close>

locale as608_cmd_stable = disp_stable r pins usarts
  for r :: "'z as608_scheme \<Rightarrow> 'z as608_scheme \<Rightarrow> bool" and pins usarts +
  assumes as608_usart: "0 \<in> usarts"
begin

lemma within_tick32: "respeta r tick32"
  unfolding tick32_def by (intro sapi_rules)

lemma within_as608FlushRx: "respeta r (as608FlushRx ms)"
  unfolding as608FlushRx_def by (intro sapi_rules within_splits within_tick32)

lemma within_as608Send: "respeta r (as608Send bs)"
  unfolding as608Send_def using as608_usart by (auto intro!: sapi_rules simp: usart_AS608)

lemma within_as608WritePacket: "respeta r (as608WritePacket t p)"
  unfolding as608WritePacket_def by (intro within_splits within_as608Send within_fault)

lemma within_as608FlushAndDelay: "respeta r (as608FlushAndDelay a b)"
  unfolding as608FlushAndDelay_def
  by (intro within_block) (auto intro!: sapi_rules within_as608FlushRx)

lemma within_as608Recv: "respeta r (as608Recv n t)"
  unfolding as608Recv_def by (intro sapi_rules within_splits within_tick32)

lemma within_as608CmdAck: "respeta r (as608CmdAck i e t p f)"
  unfolding as608CmdAck_def as608GetAck_def
  by (intro within_bind within_block within_ret within_as608Recv)
    (auto intro!: sapi_rules within_as608FlushRx within_as608WritePacket)

lemma within_as608EnrollCapture: "respeta r (as608EnrollCapture slot)"
  unfolding as608EnrollCapture_def as608CmdGetImageLong_def as608CmdImage2Tz_def
  by (intro within_bind within_loop within_splits sapi_rules within_tick32 within_as608FlushAndDelay
      within_as608CmdAck)

lemma within_as608EnrollAtId: "respeta r (as608EnrollAtId i)"
  unfolding as608EnrollAtId_def as608CmdRegModel_def as608CmdStore_def
  by (intro within_bind within_splits within_block within_ret within_as608EnrollCapture
      within_as608CmdAck)
    (auto intro!: disp_rules within_as608FlushAndDelay within_as608FlushRx)

lemma within_as608DeleteId: "respeta r (as608DeleteId i)"
  unfolding as608DeleteId_def as608CmdDelete_def
  by (intro within_bind within_block within_ret within_as608CmdAck) (auto intro!: disp_rules)

lemma within_as608ClearAllTemplates: "respeta r as608ClearAllTemplates"
  unfolding as608ClearAllTemplates_def as608CmdEmpty_def
  by (intro within_bind within_ret within_as608CmdAck)

lemma within_as608Init: "respeta r (as608Init b)"
  unfolding as608Init_def as608Check_def as608CmdTemplateCount_def
  by (intro within_block)
    (auto intro!: disp_rules within_as608FlushRx within_as608Recv within_as608Send
      within_as608WritePacket within_block)

lemmas as608_cmd_rules = disp_rules within_tick32 within_as608FlushRx within_as608WritePacket
  within_as608EnrollAtId within_as608DeleteId within_as608ClearAllTemplates within_as608Init

end

text \<open>The scan also changes its own record.\<close>

locale as608_stable = as608_cmd_stable +
  assumes r_scan: "r w (w\<lparr>g_scan := g\<rparr>)"
    and r_debug: "r w (w\<lparr>g_as608DebugLevel := l\<rparr>)"
begin

lemma within_set_scan: "respeta r (set_scan f)"
  unfolding set_scan_def by (intro within_modify r_scan)

lemma within_as608ScanReset: "respeta r as608ScanReset"
  unfolding as608ScanReset_def by (intro within_modify r_scan)

lemma within_as608SetDebug: "respeta r (as608SetDebug l)"
  unfolding as608SetDebug_def by (intro within_modify r_debug)

lemma within_scan_ack: "respeta r scan_ack"
  unfolding scan_ack_def as608ReadSlice_def slice_paso_def slice_byte_def
  by (intro within_bind within_loop within_splits sapi_rules within_tick32 within_set_scan)

lemma within_scan_timeout: "respeta r (scan_timeout l n)"
  unfolding scan_timeout_def by (intro within_bind within_splits sapi_rules within_set_scan)

lemma within_scan_send: "respeta r (scan_send f p n)"
  unfolding scan_send_def
  by (intro within_bind within_block within_tick32 within_set_scan)
    (auto intro!: within_set_scan within_as608FlushRx within_as608WritePacket)

lemma within_scan_waits: "respeta r (scan_wait_getimage i s)" "respeta r (scan_wait_image2tz i s)"
    "respeta r (scan_wait_search i s)" "respeta r (scan_done d i s)"
  unfolding scan_wait_getimage_def scan_wait_image2tz_def scan_wait_search_def scan_done_def
  by (intro within_bind within_splits within_scan_ack within_set_scan within_tick32 within_ret
      within_gets within_scan_timeout)+

lemma within_as608ScanStep: "respeta r (as608ScanStep i s)"
  unfolding as608ScanStep_def
  by (intro within_bind within_case_scan within_splits within_gets within_ret within_set_scan
      within_scan_send within_scan_waits within_tickRead)

lemmas as608_rules = as608_cmd_rules within_as608ScanReset within_as608SetDebug within_as608ScanStep

end

interpretation shr: as608_stable shrinks UNIV UNIV
  by unfold_locales (simp_all add: shrinks_def)

section \<open>Absence of undefined behaviour\<close>

lemma safe_tick32: "safe E tick32"
  unfolding tick32_def by (intro keeps_rules safe_tickRead)

lemma safe_set_scan: "safe E (set_scan f)"
  unfolding set_scan_def by (rule keeps_modify)

lemma safe_as608FlushRx: "safe E (as608FlushRx ms)"
  unfolding as608FlushRx_def
  by (intro keeps_bind keeps_loop consumes_bind consumes_tickRead within_splits shr.sapi_rules
      keeps_splits keeps_rules safe_sapi safe_tick32)

lemma safe_as608Recv: "safe E (as608Recv n t)"
  unfolding as608Recv_def
  by (intro keeps_bind keeps_loop consumes_case_prod consumes_bind consumes_tickRead within_splits
      shr.sapi_rules shr.within_tick32 keeps_splits keeps_rules safe_sapi safe_tick32)

lemma safe_as608Send: "safe E (as608Send bs)"
  unfolding as608Send_def by (intro keeps_rules safe_sapi)

lemma safe_as608WritePacket: "length p \<le> 256 \<Longrightarrow> safe E (as608WritePacket t p)"
  unfolding as608WritePacket_def by (simp add: safe_as608Send)

lemma safe_as608FlushAndDelay: "safe E (as608FlushAndDelay a b)"
  unfolding as608FlushAndDelay_def
  by (intro keeps_block) (auto intro!: keeps_rules safe_as608FlushRx safe_sapi)

lemma safe_as608CmdAck: "safe E (as608CmdAck i e t p f)"
  unfolding as608CmdAck_def as608GetAck_def
  by (intro keeps_bind keeps_block keeps_ret safe_as608Recv)
    (auto intro!: keeps_rules safe_as608FlushRx safe_sapi safe_as608WritePacket)

lemma safe_as608EnrollCapture: "safe E (as608EnrollCapture slot)"
  unfolding as608EnrollCapture_def as608CmdGetImageLong_def as608CmdImage2Tz_def
  by (intro keeps_bind keeps_loop consumes_bind consumes_tickRead within_splits shr.sapi_rules
      shr.within_tick32 shr.within_as608FlushAndDelay shr.within_as608CmdAck keeps_splits keeps_rules
      safe_sapi safe_tick32 safe_as608FlushAndDelay safe_as608CmdAck)

lemma safe_print: "length t \<le> 21 \<Longrightarrow> unat y < 64 \<Longrightarrow> safe E (display_println t y)"
  by (rule safe_display_println) (auto simp: cabe_def BUFFER_SIZE_def max_def)

lemma safe_as608EnrollAtId: "safe E (as608EnrollAtId i)"
  unfolding as608EnrollAtId_def as608CmdRegModel_def as608CmdStore_def
  by (intro keeps_bind keeps_splits keeps_block keeps_ret safe_as608EnrollCapture safe_as608CmdAck)
    (auto intro!: safe_disp(1,2) safe_print safe_sapi safe_as608FlushAndDelay safe_as608FlushRx)

lemma safe_as608DeleteId: "safe E (as608DeleteId i)"
proof -
  have "length (texto t) \<le> length t" for t by (simp add: texto_def length_takeWhile_le)
  from le_trans [OF this] have "length (texto (''ERROR '' @ [byte_char c])) \<le> 21" for c by simp
  then show ?thesis
    unfolding as608DeleteId_def as608CmdDelete_def
    by (intro keeps_bind keeps_block keeps_ret safe_as608CmdAck)
      (auto intro!: safe_disp(1,2) safe_print)
qed

lemma safe_as608ClearAllTemplates: "safe E as608ClearAllTemplates"
  unfolding as608ClearAllTemplates_def as608CmdEmpty_def by (intro keeps_rules safe_as608CmdAck)

lemma keeps_case_scan:
  "\<lbrakk>keeps E I a; keeps E I b; keeps E I c; keeps E I d; keeps E I e; keeps E I f; keeps E I g;
    keeps E I h; keeps E I i; keeps E I j; keeps E I k; keeps E I l\<rbrakk> \<Longrightarrow>
   keeps E I (case x of ST_IDLE \<Rightarrow> a | ST_SEND_GETIMAGE \<Rightarrow> b | ST_WAIT_GETIMAGE \<Rightarrow> c
     | ST_PREDLY_IMAGE2TZ \<Rightarrow> d | ST_SEND_IMAGE2TZ \<Rightarrow> e | ST_WAIT_IMAGE2TZ \<Rightarrow> f | ST_SEND_SEARCH \<Rightarrow> g
     | ST_WAIT_SEARCH \<Rightarrow> h | ST_DONE_NOFINGER \<Rightarrow> i | ST_DONE_MATCH \<Rightarrow> j | ST_DONE_NOMATCH \<Rightarrow> k
     | ST_DONE_ERROR \<Rightarrow> l)"
  by (cases x) auto

lemma safe_scan_ack: "safe E scan_ack"
  unfolding scan_ack_def as608ReadSlice_def slice_paso_def slice_byte_def
  by (intro keeps_bind keeps_loop consumes_bind consumes_tickRead within_splits shr.sapi_rules
      shr.within_tick32 shr.within_set_scan keeps_splits keeps_rules safe_sapi safe_tick32
      safe_set_scan)

lemma keeps_Let: "keeps E I (f x) \<Longrightarrow> keeps E I (let y = x in f y)"
  by simp

lemma safe_scan_send: "length p \<le> 256 \<Longrightarrow> safe E (scan_send f p n)"
  unfolding scan_send_def
  by (intro keeps_bind keeps_block safe_tick32 safe_set_scan)
    (auto intro!: safe_set_scan safe_as608FlushRx safe_as608WritePacket)

lemma safe_as608ScanStep: "safe E (as608ScanStep i s)"
  unfolding as608ScanStep_def scan_wait_getimage_def scan_wait_image2tz_def scan_wait_search_def
    scan_done_def scan_timeout_def
  by (intro keeps_bind keeps_case_scan keeps_splits keeps_Let keeps_ret keeps_gets safe_set_scan
      safe_scan_ack safe_tick32 safe_tickRead safe_scan_send) simp_all

lemmas safe_as608 = safe_as608EnrollAtId safe_as608DeleteId safe_as608ClearAllTemplates
  safe_as608ScanStep

text \<open>A successful enrolment stored the number that was asked for.\<close>

lemma enroll_id:
  assumes "as608EnrollAtId i w = Ret (True, s) w'"
  shows "s = fmt_04u (unat i) \<and> length s = 4"
proof -
  have e: "i \<le> 0xA3" "s = cut_str 5 (fmt_04u (unat i))"
    using assms unfolding as608EnrollAtId_def
    by (auto simp: bind_eq_Ret split: if_splits simp del: block.simps bind_block_Cons)
  from e(1) have "unat i \<le> unat (0xA3 :: u16)" by (simp only: word_le_nat_alt)
  then have "unat i < 10000" by simp
  from fmt_04u_length [OF this] e(2) show ?thesis by (simp add: cut_str_def)
qed

end
