(* ===== verification/As608_Scan.thy ===== *)
theory As608_Scan
  imports As608
begin

text \<open>
  Properties of the fingerprint driver: the packets it writes carry a correct
  length and checksum; the scan only follows the transitions of \<open>scan_paso\<close>; a
  match it reports comes from a complete acknowledge packet in its buffer; its
  waits are bounded, except the one state in which it can stay for ever.
\<close>

section \<open>Packets\<close>

lemma be16_nat: "unat (be16 h l) = 256 * unat h + unat l"
proof -
  have d: "push_bit 8 (ucast h :: u16) AND ucast l = 0"
    by (rule bit_word_eqI) (auto simp: bit_simps dest: bit_imp_le_length)
  have "be16 h l = push_bit 8 (ucast h) + ucast l"
    unfolding be16_def by (rule disjunctive_add [symmetric]) (use d in \<open>simp add: bit_eq_iff bit_simps; blast\<close>)
  moreover have "unat (push_bit 8 (ucast h) + ucast l :: u16) = 256 * unat h + unat l"
    using unsigned_less [of h, where 'a = nat] unsigned_less [of l, where 'a = nat]
    by (simp add: unat_word_ariths push_bit_eq_mult unsigned_ucast_eq take_bit_nat_eq_self mult.commute)
  ultimately show ?thesis by simp
qed

lemma hi8_nat: "unat (hi8 x) = unat x div 256"
  using unsigned_less [of x, where 'a = nat]
  by (simp add: hi8_def unsigned_ucast_eq drop_bit_eq_div unat_div take_bit_nat_eq_self)

lemma lo8_nat: "unat (lo8 x) = unat x mod 256"
proof -
  have "x AND 0xFF = take_bit 8 x" by (simp add: take_bit_eq_mask mask_eq_exp_minus_1)
  then show ?thesis by (simp add: lo8_def unsigned_ucast_eq unsigned_take_bit_eq take_bit_eq_mod unat_mod)
qed

lemma be16_hi_lo: "be16 (hi8 x) (lo8 x) = x"
  by (simp add: word_unat_eq_iff be16_nat hi8_nat lo8_nat)

text \<open>
  The packet format of the sensor, read back: start code, address, type, length,
  payload and a checksum over everything behind the address.
\<close>

definition as608_sum :: "u8 \<Rightarrow> u16 \<Rightarrow> u8 list \<Rightarrow> u16" where
  "as608_sum t len p = ucast t + ucast (hi8 len) + ucast (lo8 len) + sum_list (map ucast p)"

definition decodificar :: "u8 list \<Rightarrow> (u8 \<times> u8 list) option" where
  "decodificar f =
     (if length f < 11 \<or> take 6 f \<noteq> [0xEF, 0x01, 0xFF, 0xFF, 0xFF, 0xFF] then None
      else let len = be16 (f ! 7) (f ! 8); p = take (length f - 11) (drop 9 f) in
        if unat len + 9 = length f \<and>
           be16 (f ! (length f - 2)) (f ! (length f - 1)) = as608_sum (f ! 6) len p
        then Some (f ! 6, p) else None)"

lemma as608_frame_eq:
  "as608_frame t p = (let len = of_nat (length p) + 2 in
     [0xEF, 0x01, 0xFF, 0xFF, 0xFF, 0xFF, t, hi8 len, lo8 len] @ p
     @ [hi8 (as608_sum t len p), lo8 (as608_sum t len p)])"
  by (simp add: as608_frame_def as608_header_def as608_sum_def Let_def hi8_def lo8_def)

lemma as608_len: "length p \<le> 256 \<Longrightarrow> unat (of_nat (length p) + 2 :: u16) = length p + 2"
  by (simp add: unat_word_ariths unat_of_nat take_bit_nat_eq_self)

section \<open>The scan as a transition system\<close>

inductive scan_paso :: "as608ScanState \<Rightarrow> as608ScanStatus \<Rightarrow> as608ScanState \<Rightarrow> bool" where
  arranca: "scan_paso ST_IDLE AS608_SCAN_INPROGRESS ST_SEND_GETIMAGE"
| pide: "scan_paso ST_SEND_GETIMAGE AS608_SCAN_INPROGRESS ST_WAIT_GETIMAGE"
| espera1: "s \<in> {ST_WAIT_GETIMAGE, ST_PREDLY_IMAGE2TZ, ST_DONE_NOFINGER, ST_DONE_ERROR} \<Longrightarrow>
     scan_paso ST_WAIT_GETIMAGE AS608_SCAN_INPROGRESS s"
| pausa: "s \<in> {ST_PREDLY_IMAGE2TZ, ST_SEND_IMAGE2TZ} \<Longrightarrow>
     scan_paso ST_PREDLY_IMAGE2TZ AS608_SCAN_INPROGRESS s"
| convierte: "scan_paso ST_SEND_IMAGE2TZ AS608_SCAN_INPROGRESS ST_WAIT_IMAGE2TZ"
| espera2: "s \<in> {ST_WAIT_IMAGE2TZ, ST_SEND_SEARCH, ST_DONE_ERROR} \<Longrightarrow>
     scan_paso ST_WAIT_IMAGE2TZ AS608_SCAN_INPROGRESS s"
| busca: "scan_paso ST_SEND_SEARCH AS608_SCAN_INPROGRESS ST_WAIT_SEARCH"
| espera3: "s \<in> {ST_WAIT_SEARCH, ST_DONE_MATCH, ST_DONE_NOMATCH, ST_DONE_NOFINGER} \<Longrightarrow>
     scan_paso ST_WAIT_SEARCH AS608_SCAN_INPROGRESS s"
| coincide: "scan_paso ST_DONE_MATCH AS608_SCAN_MATCH ST_IDLE"
| nocoincide: "scan_paso ST_DONE_NOMATCH AS608_SCAN_NOMATCH ST_IDLE"
| sindedo: "scan_paso ST_DONE_NOFINGER AS608_SCAN_NOFINGER ST_IDLE"
| errorscan: "scan_paso ST_DONE_ERROR AS608_SCAN_ERROR ST_IDLE"

inductive_simps scan_paso_desde:
  "scan_paso ST_IDLE s t" "scan_paso ST_SEND_GETIMAGE s t" "scan_paso ST_WAIT_GETIMAGE s t"
  "scan_paso ST_PREDLY_IMAGE2TZ s t" "scan_paso ST_SEND_IMAGE2TZ s t" "scan_paso ST_WAIT_IMAGE2TZ s t"
  "scan_paso ST_SEND_SEARCH s t" "scan_paso ST_WAIT_SEARCH s t" "scan_paso ST_DONE_MATCH s t"
  "scan_paso ST_DONE_NOMATCH s t" "scan_paso ST_DONE_NOFINGER s t" "scan_paso ST_DONE_ERROR s t"

inductive_cases scan_paso_a_match: "scan_paso s r ST_DONE_MATCH"

text \<open>The acknowledge packet of a search, complete in the first \<open>n\<close> bytes of a buffer.\<close>

definition ack_completo :: "u8 list \<Rightarrow> nat \<Rightarrow> bool" where
  "ack_completo buf n \<longleftrightarrow> as608TryParseAck buf n = 0 \<and> 14 \<le> n \<and>
     unat (as608ExpectedFrameLen buf n) \<le> n"

definition buf_ok :: "'z as608_scheme \<Rightarrow> bool" where
  "buf_ok w \<longleftrightarrow> length (resp (g_scan w)) = 64 \<and> respLen (g_scan w) \<le> 64"

definition scan_inv :: "'z as608_scheme \<Rightarrow> bool" where
  "scan_inv w \<longleftrightarrow> buf_ok w \<and> (st (g_scan w) = ST_DONE_MATCH \<longrightarrow>
     ack_completo (resp (g_scan w)) (respLen (g_scan w)) \<and>
     lastId (g_scan w) = be16 (resp (g_scan w) ! 10) (resp (g_scan w) ! 11))"

section \<open>Reading into the buffer\<close>

definition g_frame :: "'z as608_scheme \<Rightarrow> 'z as608_scheme \<Rightarrow> bool" where
  "g_frame w w' \<longleftrightarrow> g_scan w' = g_scan w"

lemma g_frame_env: "env_frame w w' \<Longrightarrow> g_frame w w'"
  unfolding env_frame_def g_frame_def by (cases w, cases w') simp

interpretation gs: as608_cmd_stable g_frame UNIV UNIV
  by unfold_locales (simp_all add: within_poll_frame g_frame_env, simp_all add: g_frame_def)

definition sin_acuse :: "scan_t \<Rightarrow> scan_t" where
  "sin_acuse g = g\<lparr>resp := [], respLen := 0, tLastByte := 0\<rparr>"

text \<open>What reading keeps, from the record \<open>g\<close> at the start on.\<close>

definition leyendo :: "scan_t \<Rightarrow> 'z as608_scheme \<Rightarrow> bool" where
  "leyendo g w \<longleftrightarrow> buf_ok w \<and> sin_acuse (g_scan w) = sin_acuse g \<and>
     (respLen g = 64 \<longrightarrow> g_scan w = g)"

lemma leyendo_frame: "leyendo g w \<Longrightarrow> g_frame w w' \<Longrightarrow> leyendo g w'"
  by (simp add: leyendo_def g_frame_def buf_ok_def)

lemma slice_byte_sat:
  assumes "leyendo g w"
  shows "sat E (\<lambda>_. leyendo g) (\<lambda>_. True) (slice_byte b w)"
proof (cases "respLen (g_scan w) < 64")
  case True
  let ?w = "w\<lparr>g_scan := (g_scan w)\<lparr>resp := (resp (g_scan w))[respLen (g_scan w) := b],
      respLen := Suc (respLen (g_scan w))\<rparr>\<rparr>"
  have "leyendo g ?w" using assms True by (auto simp: leyendo_def buf_ok_def sin_acuse_def)
  then have "leyendo g (w2\<lparr>g_scan := (g_scan w2)\<lparr>tLastByte := l\<rparr>\<rparr>)" if "g_frame ?w w2" for w2 l
    using that assms True by (auto simp: leyendo_def g_frame_def buf_ok_def sin_acuse_def)
  then have "sat E (\<lambda>_. leyendo g) (\<lambda>_. True)
      (bind tick32 (\<lambda>l. bind (set_scan (\<lambda>g. g\<lparr>tLastByte := l\<rparr>)) (\<lambda>_. ret (Inl ()))) ?w)"
    by (intro sat_frame_bind [OF safe_tick32 gs.within_tick32]) (simp add: set_scan_def bind_modify)
  then show ?thesis using True by (simp add: slice_byte_def bind_gets set_scan_def bind_modify)
qed (use assms in \<open>simp add: slice_byte_def bind_gets\<close>)

lemma slice_paso_sat:
  assumes "leyendo g w"
  shows "sat E (\<lambda>_. leyendo g) (\<lambda>_. True) (slice_paso ms start w)"
  unfolding slice_paso_def
proof (rule sat_frame_bind [OF safe_tickRead gs.within_tickRead])
  fix t w1
  assume "g_frame w w1"
  with assms have l: "leyendo g w1" by (rule leyendo_frame)
  have "sat E (\<lambda>_. leyendo g) (\<lambda>_. True)
      (bind (uartReadByte AS608_UART) (\<lambda>r. case r of None \<Rightarrow> ret (Inl ()) | Some b \<Rightarrow> slice_byte b) w1)"
    by (rule sat_frame_bind [OF safe_uartReadByte gs.within_uartReadByte])
      (auto split: option.splits intro: slice_byte_sat leyendo_frame [OF l])
  with l show "sat E (\<lambda>_. leyendo g) (\<lambda>_. True) ((if desde t start < ucast ms then
       bind (uartReadByte AS608_UART) (\<lambda>r. case r of None \<Rightarrow> ret (Inl ()) | Some b \<Rightarrow> slice_byte b)
     else ret (Inr ())) w1)" by simp
qed

lemma as608ReadSlice_sat:
  assumes "leyendo g w"
  shows "sat E (\<lambda>_. leyendo g) (\<lambda>_. True) (as608ReadSlice ms w)"
  unfolding as608ReadSlice_def
proof (rule sat_frame_bind [OF safe_tick32 gs.within_tick32])
  fix start w1
  assume "g_frame w w1"
  with assms have "leyendo g w1" by (rule leyendo_frame)
  then show "sat E (\<lambda>_. leyendo g) (\<lambda>_. True) (loop (\<lambda>_. slice_paso ms start) () w1)"
  proof (rule sat_loop [where I = "\<lambda>_. leyendo g"])
    show "consumes (slice_paso ms start)"
      unfolding slice_paso_def slice_byte_def
      by (intro consumes_bind consumes_tickRead within_splits shr.sapi_rules shr.within_tick32
          shr.within_set_scan)
    show "sat E (\<lambda>r w'. case r of Inl y \<Rightarrow> leyendo g w' | Inr z \<Rightarrow> leyendo g w') (\<lambda>_. True)
        (slice_paso ms start w2)" if "leyendo g w2" for w2
      by (rule sat_weaken [OF slice_paso_sat [OF that]]) (auto split: sum.splits)
  qed
qed

lemma scan_ack_sat:
  assumes "buf_ok w"
  shows "sat E (\<lambda>code w'. leyendo (g_scan w) w' \<and>
      code = as608TryParseAck (resp (g_scan w')) (respLen (g_scan w'))) (\<lambda>_. True) (scan_ack w)"
  unfolding scan_ack_def
  by (rule sat_bind, rule sat_weaken [OF as608ReadSlice_sat [of "g_scan w"]])
    (use assms in \<open>auto simp: leyendo_def\<close>)

section \<open>One step\<close>

lemma scan_timeout_sat:
  "sat E (\<lambda>_ w'. g_scan w' = (g_scan w)\<lparr>st := nxt\<rparr> \<or>
      g_scan w' = g_scan w \<and> desde (tickCounter w') (tCmdStart (g_scan w)) \<le> ucast limit)
     (\<lambda>_. True) (scan_timeout limit nxt w)"
  unfolding scan_timeout_def
  by (rule sat_tickRead_bind [OF gs.within_tickRead])
    (auto simp: bind_gets g_frame_def set_scan_def)

lemma scan_send_sat:
  assumes "length p \<le> 256"
  shows "sat E (\<lambda>_ w'. st (g_scan w') = nxt \<and> resp (g_scan w') = resp (g_scan w) \<and> respLen (g_scan w') = 0)
     (\<lambda>_. True) (scan_send f p nxt w)"
proof -
  let ?w = "w\<lparr>g_scan := (g_scan w)\<lparr>respLen := 0\<rparr>\<rparr>"
  have "sat E (\<lambda>_ w'. st (g_scan w') = nxt \<and> resp (g_scan w') = resp (g_scan w) \<and> respLen (g_scan w') = 0)
     (\<lambda>_. True) (bind (as608FlushRx f) (\<lambda>_. bind (as608WritePacket 1 p) (\<lambda>_.
       bind tick32 (\<lambda>t. set_scan (\<lambda>g. g\<lparr>tCmdStart := t, st := nxt\<rparr>)))) ?w)"
    by (intro sat_frame_bind [OF safe_as608FlushRx gs.within_as608FlushRx]
        sat_frame_bind [OF safe_as608WritePacket [OF assms] gs.within_as608WritePacket]
        sat_frame_bind [OF safe_tick32 gs.within_tick32])
      (simp add: set_scan_def g_frame_def)
  then show ?thesis by (simp add: scan_send_def set_scan_def bind_assoc bind_modify)
qed

text \<open>What a step promises about its result and the new state.\<close>

definition paso_ok :: "scan_t \<Rightarrow> scan_out \<Rightarrow> 'z as608_scheme \<Rightarrow> bool" where
  "paso_ok g = (\<lambda>(s, i, sc) w'. scan_inv w' \<and> scan_paso (st g) s (st (g_scan w')) \<and>
     (s = AS608_SCAN_MATCH \<longrightarrow> st g = ST_DONE_MATCH \<and> i = lastId g))"

lemma TryParseAck_len: "as608TryParseAck buf n \<noteq> 0xFF \<Longrightarrow> 12 \<le> n"
  by (auto simp: as608TryParseAck_def split: if_splits)

lemma leyendo_st: "leyendo g w \<Longrightarrow> st (g_scan w) = st g \<and> tCmdStart (g_scan w) = tCmdStart g"
  unfolding leyendo_def sin_acuse_def by (cases g, cases "g_scan w") simp

lemmas scan_simps = paso_ok_def scan_inv_def buf_ok_def scan_paso_desde set_scan_def bind_modify

lemma sat_scan_ack_bind:
  assumes "buf_ok w"
    and "\<And>w1. leyendo (g_scan w) w1 \<Longrightarrow>
      sat E Q (\<lambda>_. True) (f (as608TryParseAck (resp (g_scan w1)) (respLen (g_scan w1))) w1)"
  shows "sat E Q (\<lambda>_. True) (bind scan_ack f w)"
  by (rule sat_bind, rule sat_weaken [OF scan_ack_sat [OF assms(1)]]) (use assms(2) in auto)

lemma sat_If: "(c \<Longrightarrow> sat E Q R (m s)) \<Longrightarrow> (\<not> c \<Longrightarrow> sat E Q R (n s)) \<Longrightarrow> sat E Q R ((if c then m else n) s)"
  by simp

lemma scan_timeout_paso:
  assumes "buf_ok w1" and "leyendo g w1" and "st g \<noteq> ST_DONE_MATCH" and "nxt \<noteq> ST_DONE_MATCH"
    and "scan_paso (st g) AS608_SCAN_INPROGRESS nxt" and "scan_paso (st g) AS608_SCAN_INPROGRESS (st g)"
  shows "sat E (paso_ok g) (\<lambda>_. True)
     (bind (scan_timeout limit nxt) (\<lambda>_. ret (AS608_SCAN_INPROGRESS, i, s)) w1)"
  by (rule sat_bind, rule sat_weaken [OF scan_timeout_sat])
    (use assms leyendo_st [OF assms(2)] in \<open>auto simp: paso_ok_def scan_inv_def buf_ok_def\<close>)

lemma scan_set_paso:
  assumes "buf_ok w1" and "scan_paso (st g) AS608_SCAN_INPROGRESS nxt" and "nxt \<noteq> ST_DONE_MATCH"
  shows "sat E (paso_ok g) (\<lambda>_. True)
     (bind (set_scan (\<lambda>g. g\<lparr>st := nxt\<rparr>)) (\<lambda>_. ret (AS608_SCAN_INPROGRESS, i, s)) w1)"
  using assms by (simp add: set_scan_def bind_modify paso_ok_def scan_inv_def buf_ok_def)

lemma leyendo_buf: "leyendo g w \<Longrightarrow> buf_ok w"
  by (simp add: leyendo_def)

lemma scan_wait_getimage_sat:
  assumes "buf_ok w" and "st (g_scan w) = ST_WAIT_GETIMAGE"
  shows "sat E (paso_ok (g_scan w)) (\<lambda>_. True) (scan_wait_getimage i s w)"
  unfolding scan_wait_getimage_def
proof (rule sat_scan_ack_bind [OF assms(1)], intro sat_If, goal_cases)
  case (1 w1)
  note b = leyendo_buf [OF 1(1)]
  let ?w = "w1\<lparr>g_scan := (g_scan w1)\<lparr>st := ST_PREDLY_IMAGE2TZ\<rparr>\<rparr>"
  have "sat E (paso_ok (g_scan w)) (\<lambda>_. True)
     (bind tick32 (\<lambda>t. bind (set_scan (\<lambda>g. g\<lparr>tCmdStart := t\<rparr>)) (\<lambda>_.
         ret (AS608_SCAN_INPROGRESS, i, s))) ?w)"
    by (rule sat_frame_bind [OF safe_tick32 gs.within_tick32])
      (use b assms(2) in \<open>simp add: scan_simps g_frame_def\<close>)
  then show ?case by (simp add: set_scan_def bind_modify)
next
  case (2 w1)
  then show ?case
    using assms(2) by (intro scan_set_paso leyendo_buf [OF 2(1)]) (auto simp: scan_paso_desde)
next
  case (3 w1)
  then show ?case
    using assms(2) by (intro scan_timeout_paso leyendo_buf [OF 3(1)]) (auto simp: scan_paso_desde)
qed

lemma scan_wait_image2tz_sat:
  assumes "buf_ok w" and "st (g_scan w) = ST_WAIT_IMAGE2TZ"
  shows "sat E (paso_ok (g_scan w)) (\<lambda>_. True) (scan_wait_image2tz i s w)"
  unfolding scan_wait_image2tz_def
proof (rule sat_scan_ack_bind [OF assms(1)])
  fix w1
  assume l: "leyendo (g_scan w) w1"
  let ?code = "as608TryParseAck (resp (g_scan w1)) (respLen (g_scan w1))"
  show "sat E (paso_ok (g_scan w)) (\<lambda>_. True)
     (bind (if ?code \<noteq> 0xFF
           then set_scan (\<lambda>g. g\<lparr>st := (if ?code = 0x00 then ST_SEND_SEARCH else ST_DONE_ERROR)\<rparr>)
           else scan_timeout AS608_IMAGE2TZ_TIMEOUT_MS ST_DONE_ERROR) (\<lambda>_.
     ret (AS608_SCAN_INPROGRESS, i, s)) w1)"
  proof (cases "?code = 0xFF")
    case True
    then show ?thesis
      using assms(2) scan_timeout_paso [OF leyendo_buf [OF l] l, where nxt = ST_DONE_ERROR]
      by (simp add: scan_paso_desde)
  next
    case False
    then show ?thesis
      using assms(2) scan_set_paso [OF leyendo_buf [OF l]] by (simp add: scan_paso_desde)
  qed
qed

lemma scan_wait_search_sat:
  assumes "buf_ok w" and "st (g_scan w) = ST_WAIT_SEARCH"
  shows "sat E (paso_ok (g_scan w)) (\<lambda>_. True) (scan_wait_search i s w)"
  unfolding scan_wait_search_def
proof (rule sat_scan_ack_bind [OF assms(1)], intro sat_If, goal_cases)
  case (1 w1)
  then show ?case
    using assms(2) leyendo_buf [OF 1(1)] leyendo_st [OF 1(1)]
    by (auto simp: bind_gets Let_def scan_simps ack_completo_def)
next
  case (2 w1)
  then show ?case
    using assms(2) by (intro scan_timeout_paso leyendo_buf [OF 2(1)]) (auto simp: scan_paso_desde)
qed

lemma as608ScanStep_sat:
  assumes "scan_inv w"
  shows "sat E (paso_ok (g_scan w)) (\<lambda>_. True) (as608ScanStep i s w)"
proof -
  have b: "buf_ok w" using assms by (simp add: scan_inv_def)
  have snd: "sat E (paso_ok (g_scan w)) (\<lambda>_. True)
      (bind (scan_send f p nxt) (\<lambda>_. ret (AS608_SCAN_INPROGRESS, i, s)) w)"
    if "length p \<le> 256" "scan_paso (st (g_scan w)) AS608_SCAN_INPROGRESS nxt" "nxt \<noteq> ST_DONE_MATCH"
    for f p nxt
    by (rule sat_bind, rule sat_weaken [OF scan_send_sat [OF that(1)]])
      (use b that in \<open>auto simp: paso_ok_def scan_inv_def buf_ok_def\<close>)
  show ?thesis
  proof (cases "st (g_scan w)")
    case ST_PREDLY_IMAGE2TZ
    have "sat E (paso_ok (g_scan w)) (\<lambda>_. True)
      (bind tickRead (\<lambda>t.
         bind (if desde t (tCmdStart (g_scan w)) \<ge> ucast AS608_IMAGE2TZ_PRE_DELAY_MS
               then set_scan (\<lambda>g. g\<lparr>st := ST_SEND_IMAGE2TZ\<rparr>) else ret ()) (\<lambda>_.
         ret (AS608_SCAN_INPROGRESS, i, s))) w)"
      by (rule sat_frame_bind [OF safe_tickRead gs.within_tickRead])
        (use b ST_PREDLY_IMAGE2TZ in \<open>auto simp: scan_simps g_frame_def\<close>)
    with ST_PREDLY_IMAGE2TZ show ?thesis by (simp add: as608ScanStep_def bind_gets)
  next
    case ST_WAIT_GETIMAGE
    with b show ?thesis by (simp add: as608ScanStep_def bind_gets scan_wait_getimage_sat)
  next
    case ST_WAIT_IMAGE2TZ
    with b show ?thesis by (simp add: as608ScanStep_def bind_gets scan_wait_image2tz_sat)
  next
    case ST_WAIT_SEARCH
    with b show ?thesis by (simp add: as608ScanStep_def bind_gets scan_wait_search_sat)
  next
    case ST_SEND_GETIMAGE
    then show ?thesis by (simp add: as608ScanStep_def bind_gets snd scan_paso_desde)
  next
    case ST_SEND_IMAGE2TZ
    then show ?thesis by (simp add: as608ScanStep_def bind_gets snd scan_paso_desde)
  next
    case ST_SEND_SEARCH
    then show ?thesis by (simp add: as608ScanStep_def bind_gets snd scan_paso_desde)
  qed (use b in \<open>simp_all add: as608ScanStep_def bind_gets scan_done_def scan_simps\<close>)
qed

section \<open>How long a wait lasts\<close>

lemma espera_timeout:
  assumes "leyendo g w1"
  shows "sat E (\<lambda>_ w'. st (g_scan w') = nxt \<or> desde (tickCounter w') (tCmdStart g) \<le> ucast limit)
      (\<lambda>_. True) (bind (scan_timeout limit nxt) (\<lambda>_. ret (x :: scan_out)) w1)"
  by (rule sat_bind, rule sat_weaken [OF scan_timeout_sat]) (use leyendo_st [OF assms] in auto)

lemma espera_getimage:
  assumes "buf_ok w"
  shows "sat E (\<lambda>_ w'. st (g_scan w') \<in> {ST_PREDLY_IMAGE2TZ, ST_DONE_NOFINGER, ST_DONE_ERROR} \<or>
      desde (tickCounter w') (tCmdStart (g_scan w)) \<le> 200) (\<lambda>_. True) (scan_wait_getimage i s w)"
  unfolding scan_wait_getimage_def
proof (rule sat_scan_ack_bind [OF assms], intro sat_If, goal_cases)
  case (1 w1)
  let ?w = "w1\<lparr>g_scan := (g_scan w1)\<lparr>st := ST_PREDLY_IMAGE2TZ\<rparr>\<rparr>"
  have "sat E (\<lambda>_ w'. st (g_scan w') \<in> {ST_PREDLY_IMAGE2TZ, ST_DONE_NOFINGER, ST_DONE_ERROR} \<or>
      desde (tickCounter w') (tCmdStart (g_scan w)) \<le> 200) (\<lambda>_. True)
     (bind tick32 (\<lambda>t. bind (set_scan (\<lambda>g. g\<lparr>tCmdStart := t\<rparr>)) (\<lambda>_.
         ret (AS608_SCAN_INPROGRESS, i, s))) ?w)"
    by (rule sat_frame_bind [OF safe_tick32 gs.within_tick32])
      (simp add: set_scan_def bind_modify g_frame_def)
  then show ?case by (simp add: set_scan_def bind_modify)
next
  case (2 w1)
  then show ?case by (simp add: set_scan_def bind_modify)
next
  case (3 w1)
  show ?case
    by (rule sat_weaken [OF espera_timeout [OF 3(1)]]) (auto simp: AS608_GETIMAGE_LONG_TIMEOUT_MS_def)
qed

lemma espera_image2tz:
  assumes "buf_ok w"
  shows "sat E (\<lambda>_ w'. st (g_scan w') \<in> {ST_SEND_SEARCH, ST_DONE_ERROR} \<or>
      desde (tickCounter w') (tCmdStart (g_scan w)) \<le> 400) (\<lambda>_. True) (scan_wait_image2tz i s w)"
  unfolding scan_wait_image2tz_def
proof (rule sat_scan_ack_bind [OF assms], goal_cases)
  case (1 w1)
  have "sat E (\<lambda>_ w'. st (g_scan w') \<in> {ST_SEND_SEARCH, ST_DONE_ERROR} \<or>
      desde (tickCounter w') (tCmdStart (g_scan w)) \<le> 400) (\<lambda>_. True)
      (bind (scan_timeout AS608_IMAGE2TZ_TIMEOUT_MS ST_DONE_ERROR) (\<lambda>_. ret (AS608_SCAN_INPROGRESS, i, s)) w1)"
    by (rule sat_weaken [OF espera_timeout [OF 1]]) (auto simp: AS608_IMAGE2TZ_TIMEOUT_MS_def)
  then show ?case by (simp add: set_scan_def bind_modify)
qed

lemma espera_search:
  assumes "buf_ok w"
  shows "sat E (\<lambda>_ w'. st (g_scan w') \<in> {ST_DONE_MATCH, ST_DONE_NOMATCH, ST_DONE_NOFINGER} \<or>
      desde (tickCounter w') (tCmdStart (g_scan w)) \<le> 200 \<or>
      as608TryParseAck (resp (g_scan w')) (respLen (g_scan w')) = 0) (\<lambda>_. True) (scan_wait_search i s w)"
  unfolding scan_wait_search_def
proof (rule sat_scan_ack_bind [OF assms], intro sat_If, goal_cases)
  case (1 w1)
  then show ?case by (auto simp: bind_gets Let_def set_scan_def bind_modify)
next
  case (2 w1)
  show ?case
    by (rule sat_weaken [OF espera_timeout [OF 2(1)]]) (auto simp: AS608_SEARCH_TIMEOUT_MS_def)
qed

section \<open>Time stamps of 32 bits\<close>

lemma desde_truncado:
  assumes "2 ^ 32 \<le> t"
  shows "2 ^ 32 \<le> desde t (ucast t)"
proof -
  have u: "unat (ucast (ucast t :: u32) :: u64) = unat t mod 2 ^ 32"
    by (simp add: unsigned_ucast_eq take_bit_eq_mod unat_mod)
  have le: "unat t mod 2 ^ 32 \<le> unat t" by simp
  have "unat (t - ucast (ucast t :: u32)) = unat t - unat t mod 2 ^ 32"
    using le by (simp add: u unat_sub word_le_nat_alt)
  also have "\<dots> = 2 ^ 32 * (unat t div 2 ^ 32)" by (simp add: minus_mod_eq_mult_div)
  finally have d: "unat (desde t (ucast t)) = 2 ^ 32 * (unat t div 2 ^ 32)" by (simp add: desde_def)
  have "2 ^ 32 \<le> unat t" using assms by (simp add: word_le_nat_alt)
  then have "1 \<le> unat t div 2 ^ 32" by (simp add: div_greater_zero_iff Suc_le_eq)
  then show ?thesis unfolding word_le_nat_alt d by simp
qed

lemma timeout_32: "(ucast (x :: u32) :: u64) < 2 ^ 32"
proof -
  have "unat (ucast x :: u64) = unat x" by (simp add: unsigned_ucast_eq take_bit_nat_eq_self
      less_le_trans [OF unsigned_less])
  then show ?thesis using unsigned_less [of x, where 'a = nat] by (simp add: word_less_nat_alt)
qed

section \<open>Properties\<close>

text \<open>C27: Packets. For a payload of up to 256 bytes the packet \<^verbatim>\<open>as608WritePacket\<close> sends is well
  formed: the sensor's decoding of it (start code, address, length, 16 bit checksum) gives back
  exactly its type and payload, and the driver's own \<^verbatim>\<open>as608ExpectedFrameLen\<close> gives its length.\<close>

theorem paquete_ida_y_vuelta:
  assumes "length p \<le> 256"
  shows "decodificar (as608_frame t p) = Some (t, p) \<and>
     unat (as608ExpectedFrameLen (as608_frame t p) (length (as608_frame t p))) = length (as608_frame t p)"
proof -
  define len where "len = (of_nat (length p) + 2 :: u16)"
  define s where "s = as608_sum t len p"
  have f: "as608_frame t p = [0xEF, 0x01, 0xFF, 0xFF, 0xFF, 0xFF, t, hi8 len, lo8 len] @ p @ [hi8 s, lo8 s]"
    by (simp add: as608_frame_eq Let_def len_def s_def)
  have l: "unat len = length p + 2" using as608_len [OF assms] by (simp add: len_def)
  have "unat (9 + len) = length p + 11" using assms l by (simp add: unat_word_ariths)
  then show ?thesis
    unfolding f
    by (simp add: decodificar_def as608ExpectedFrameLen_def be16_hi_lo l s_def
        nth_append flip: be16_def)
qed

theorem paquete_ida_y_vuelta_witness:
  "decodificar (as608_frame 1 [0x1B, 0x01, 0x00, 0x00, 0x00, 0xA3]) = Some (1, [0x1B, 0x01, 0x00, 0x00, 0x00, 0xA3])"
  using paquete_ida_y_vuelta [of "[0x1B, 0x01, 0x00, 0x00, 0x00, 0xA3]" 1] by simp

text \<open>C21: The scan. From a state with its buffer in order, a step has no undefined behaviour, does
  not hang, keeps the buffer in order and follows the transition table. It reports a match only
  with the identifier of a complete acknowledge packet (start code, packet type 7, confirmation
  code 0, at least 14 bytes and all the bytes its length field announces) that is in the buffer.\<close>

theorem escaneo_respaldado:
  assumes "scan_inv w"
  shows "sat {} (\<lambda>(s, i, sc) w'. scan_inv w' \<and> scan_paso (st (g_scan w)) s (st (g_scan w')) \<and>
      (s = AS608_SCAN_MATCH \<longrightarrow> ack_completo (resp (g_scan w)) (respLen (g_scan w)) \<and>
         i = be16 (resp (g_scan w) ! 10) (resp (g_scan w) ! 11))) (\<lambda>_. True)
     (as608ScanStep idOut scoreOut w)"
  by (rule sat_weaken [OF as608ScanStep_sat [OF assms]])
    (use assms in \<open>auto simp: paso_ok_def scan_inv_def\<close>)

definition as608_con :: "ev list list \<Rightarrow> scan_t \<Rightarrow> as608" where
  "as608_con sc g = hw0 sc (disp_ext (\<lambda>_. 0) 0 0 []
     (tecl_ext teclado_k (replicate 6 NUL) 0 False 0xFFFF (as608_ext g 1 ())))"

lemma g_scan_con [simp]: "g_scan (as608_con sc g) = g"
  by (simp add: as608_con_def hw0_def)

definition ack_busqueda :: "u8 list" where
  "ack_busqueda = [0xEF, 0x01, 0xFF, 0xFF, 0xFF, 0xFF, 0x07, 0x00, 0x07, 0x00, 0x00, 0x04, 0x00, 0x50, 0x00, 0x62]"

theorem escaneo_respaldado_witness:
  "sat {} (\<lambda>(s, i, sc) w'. s = AS608_SCAN_MATCH \<and> i = 4 \<and> scan_inv w') (\<lambda>_. True)
     (as608ScanStep 0 0 (as608_con [] (scan0\<lparr>st := ST_DONE_MATCH, lastId := 4,
        resp := ack_busqueda @ replicate 48 0, respLen := 16\<rparr>)))"
proof -
  let ?g = "scan0\<lparr>st := ST_DONE_MATCH, lastId := 4, resp := ack_busqueda @ replicate 48 0, respLen := 16\<rparr>"
  have "scan_inv (as608_con [] ?g)"
    by (simp add: scan_inv_def buf_ok_def ack_completo_def as608TryParseAck_def
        as608ExpectedFrameLen_def ack_busqueda_def be16_def nth_append)
  from escaneo_respaldado [OF this, of 0 0] show ?thesis
    by (rule sat_weaken)
      (auto simp: scan_paso_desde ack_busqueda_def be16_def nth_append)
qed

text \<open>C40: The scan can stay in the search state for ever. When the acknowledge of the search has
  confirmation code 0 but its length field announces more bytes than the buffer of 64 can hold,
  and the buffer is full, no step changes the state any more: there is no time limit in this
  branch, whatever the sensor sends and however much time passes.\<close>

theorem busqueda_atascada:
  assumes "st (g_scan w) = ST_WAIT_SEARCH" and "length (resp (g_scan w)) = 64"
    and "respLen (g_scan w) = 64" and "as608TryParseAck (resp (g_scan w)) 64 = 0"
    and "64 < unat (as608ExpectedFrameLen (resp (g_scan w)) 64)"
  shows "sat {} (\<lambda>(s, i, sc) w'. s = AS608_SCAN_INPROGRESS \<and> g_scan w' = g_scan w) (\<lambda>_. True)
     (as608ScanStep idOut scoreOut w)"
proof -
  have b: "buf_ok w" using assms by (simp add: buf_ok_def)
  have "sat {} (\<lambda>(s, i, sc) w'. s = AS608_SCAN_INPROGRESS \<and> g_scan w' = g_scan w) (\<lambda>_. True)
     (scan_wait_search idOut scoreOut w)"
    unfolding scan_wait_search_def
    by (rule sat_scan_ack_bind [OF b]) (use assms in \<open>auto simp: leyendo_def bind_gets Let_def\<close>)
  then show ?thesis using assms(1) by (simp add: as608ScanStep_def bind_gets)
qed

theorem busqueda_atascada_witness:
  "\<forall>sc. sat {} (\<lambda>(s, i, x) w'. s = AS608_SCAN_INPROGRESS \<and> st (g_scan w') = ST_WAIT_SEARCH) (\<lambda>_. True)
     (as608ScanStep 0 0 (as608_con sc (scan0\<lparr>st := ST_WAIT_SEARCH, respLen := 64,
        resp := [0xEF, 0x01, 0xFF, 0xFF, 0xFF, 0xFF, 0x07, 0x01, 0x00] @ replicate 55 0\<rparr>)))"
proof
  fix sc
  let ?g = "scan0\<lparr>st := ST_WAIT_SEARCH, respLen := 64,
      resp := [0xEF, 0x01, 0xFF, 0xFF, 0xFF, 0xFF, 0x07, 0x01, 0x00] @ replicate 55 0\<rparr>"
  show "sat {} (\<lambda>(s, i, x) w'. s = AS608_SCAN_INPROGRESS \<and> st (g_scan w') = ST_WAIT_SEARCH) (\<lambda>_. True)
     (as608ScanStep 0 0 (as608_con sc ?g))"
    by (rule sat_weaken [OF busqueda_atascada])
      (auto simp: as608TryParseAck_def as608ExpectedFrameLen_def nth_append nth_Cons')
qed

text \<open>The waits of a scan are bounded. A step that leaves the scan waiting for an image or its
  conversion finds that at most 200 ms, respectively 400 ms, have passed since the command was
  sent; a step that leaves it waiting for the search finds at most 200 ms, or a search
  acknowledge with confirmation code 0 that is not complete.\<close>

lemma esperas_acotadas:
  assumes "scan_inv w"
  shows "sat {} (\<lambda>_ w'. case st (g_scan w) of
        ST_WAIT_GETIMAGE \<Rightarrow> st (g_scan w') \<in> {ST_PREDLY_IMAGE2TZ, ST_DONE_NOFINGER, ST_DONE_ERROR} \<or>
          desde (tickCounter w') (tCmdStart (g_scan w)) \<le> 200
      | ST_WAIT_IMAGE2TZ \<Rightarrow> st (g_scan w') \<in> {ST_SEND_SEARCH, ST_DONE_ERROR} \<or>
          desde (tickCounter w') (tCmdStart (g_scan w)) \<le> 400
      | ST_WAIT_SEARCH \<Rightarrow> st (g_scan w') \<in> {ST_DONE_MATCH, ST_DONE_NOMATCH, ST_DONE_NOFINGER} \<or>
          desde (tickCounter w') (tCmdStart (g_scan w)) \<le> 200 \<or>
          as608TryParseAck (resp (g_scan w')) (respLen (g_scan w')) = 0
      | _ \<Rightarrow> True) (\<lambda>_. True) (as608ScanStep idOut scoreOut w)"
proof -
  have b: "buf_ok w" using assms by (simp add: scan_inv_def)
  show ?thesis
  proof (cases "st (g_scan w)")
    case ST_WAIT_GETIMAGE
    with espera_getimage [OF b] show ?thesis by (simp add: as608ScanStep_def bind_gets)
  next
    case ST_WAIT_IMAGE2TZ
    with espera_image2tz [OF b] show ?thesis by (simp add: as608ScanStep_def bind_gets)
  next
    case ST_WAIT_SEARCH
    with espera_search [OF b] show ?thesis by (simp add: as608ScanStep_def bind_gets)
  qed (use keepsD [OF safe_as608ScanStep [where E = "{}"], where s = w] in auto)
qed

lemma esperas_acotadas_witness:
  "sat {} (\<lambda>_ w'. st (g_scan w') \<in> {ST_PREDLY_IMAGE2TZ, ST_DONE_NOFINGER, ST_DONE_ERROR} \<or>
      desde (tickCounter w') 7 \<le> 200) (\<lambda>_. True)
     (as608ScanStep 0 0 (as608_con [[], [Ticks 5]] (scan0\<lparr>st := ST_WAIT_GETIMAGE, tCmdStart := 7\<rparr>)))"
proof -
  let ?w = "as608_con [[], [Ticks 5]] (scan0\<lparr>st := ST_WAIT_GETIMAGE, tCmdStart := 7\<rparr>)"
  have "scan_inv ?w" by (simp add: scan_inv_def buf_ok_def scan0_def)
  from esperas_acotadas [OF this, of 0 0] show ?thesis by simp
qed

text \<open>After 2^32 milliseconds (49.7 days) without a reset the driver is deaf. \<^verbatim>\<open>as608Recv\<close> keeps the
  start time in 32 bits and compares it with the 64 bit counter: from then on it returns no byte,
  whatever the sensor has sent and however long the time limit is.\<close>

lemma as608_sordo:
  assumes "2 ^ 32 \<le> tickCounter w" and "script w = [] # [] # rest"
  shows "as608Recv maxLen timeoutMs w = Ret [] (w\<lparr>script := rest\<rparr>)"
proof -
  have t: "\<not> desde (tickCounter w) (ucast (tickCounter w)) < ucast timeoutMs"
    using less_le_trans [OF timeout_32 [of timeoutMs] desde_truncado [OF assms(1)]] by simp
  show ?thesis
    by (simp add: as608Recv_def tick32_def tickRead_def bind_apply poll_def assms(2) loop_def
        iter.simps t)
qed

lemma as608_sordo_witness:
  "as608Recv 32 3000 ((as608_con [[], []] scan0)\<lparr>tickCounter := 2 ^ 32, rxFifo := (\<lambda>_. ack_busqueda)\<rparr>)
     = Ret [] ((as608_con [] scan0)\<lparr>tickCounter := 2 ^ 32, rxFifo := (\<lambda>_. ack_busqueda)\<rparr>)"
  using as608_sordo [of "(as608_con [[], []] scan0)\<lparr>tickCounter := 2 ^ 32, rxFifo := (\<lambda>_. ack_busqueda)\<rparr>" "[]" 32 3000]
  by (simp add: as608_con_def hw0_def)

end
