(* ===== verification/Esp_At.thy ===== *)
theory Esp_At
  imports Double Esp_Json As608_Scan
begin

text \<open>
  The WiFi module (\<^verbatim>\<open>espAT.c\<close>): AT commands over USART 3, start-up and
  reconnection, the two ways of an HTTP request (the module's own command, then
  a raw TCP connection), and the requests to the server. The parser of the user
  list is in theory Esp\_Json. Debug output on the console is left out.

  A response buffer is the list of the bytes stored in it; what the string
  functions see is \<open>cstr\<close> of it. The server's time stamp is a C \<^verbatim>\<open>double\<close> (theory
  Double).
\<close>

section \<open>State\<close>

record esp = as608 +
  conectado :: bool

type_synonym ('a, 'z) eprog = "('a, 'z esp_scheme) prog"

definition ESP_UART :: uartMap_t where "ESP_UART = 5"
definition SERVER_IP :: string where "SERVER_IP = ''10.42.46.87''"
definition SERVER_PORT :: string where "SERVER_PORT = ''8000''"

abbreviation CRLF :: string where "CRLF \<equiv> [CHR 0x0D, CHR 0x0A]"

section \<open>AT commands\<close>

text \<open>
  One round of the receive loop. Its locals are the bytes stored so far and
  \<^verbatim>\<open>lastByteTime\<close>; one place of the buffer is kept for the terminator.
\<close>

definition at_paso :: "nat \<Rightarrow> u32 \<Rightarrow> u32 \<Rightarrow> u8 list \<times> u32 \<Rightarrow> ((u8 list \<times> u32) + u8 list, 'z) eprog" where
  "at_paso maxLen timeoutMs start = (\<lambda>(buf, lastByteTime).
     bind tickRead (\<lambda>t.
     if desde t start < ucast timeoutMs then
       bind (uartReadByte ESP_UART) (\<lambda>r.
       case r of
         Some b \<Rightarrow>
           (let buf' = (if length buf < maxLen - 1 then buf @ [b] else buf) in
            if maxLen - 1 \<le> length buf' then ret (Inr buf')
            else bind tick32 (\<lambda>l. ret (Inl (buf', l))))
       | None \<Rightarrow>
           bind (if 0 < length buf then
                   bind tickRead (\<lambda>t2. ret (desde t2 lastByteTime > 1000))
                 else ret False) (\<lambda>fin.
           if fin then ret (Inr buf) else bind (delay 1) (\<lambda>_. ret (Inl (buf, lastByteTime)))))
     else ret (Inr buf)))"

definition enviarComandoAT :: "string \<Rightarrow> nat \<Rightarrow> u32 \<Rightarrow> (u8 list, 'z) eprog" where
  "enviarComandoAT cmd maxLen timeoutMs =
     (if maxLen = 0 then ret [] else
      bind (block [uartWriteString ESP_UART cmd, uartWriteString ESP_UART CRLF]) (\<lambda>_.
      bind tick32 (\<lambda>start.
      loop (at_paso maxLen timeoutMs start) ([], start))))"

section \<open>Start-up\<close>

definition espATInit :: "u32 \<Rightarrow> (unit, 'z) eprog" where
  "espATInit baudrate = block [
     uartInit ESP_UART (if baudrate = 0 then 115200 else baudrate),
     uartWriteString ESP_UART ''+++'',
     delay 1000,
     uartWriteString ESP_UART (''AT+RST'' @ CRLF),
     delay 1000,
     loop (\<lambda>_. bind (uartReadByte ESP_UART) (\<lambda>r. ret (if r \<noteq> None then Inl () else Inr ()))) ()]"

text \<open>The handshake: \<^verbatim>\<open>AT\<close> until the module answers \<^verbatim>\<open>OK\<close>.\<close>

definition esp_saludo :: "u32 \<Rightarrow> (bool, 'z) eprog" where
  "esp_saludo timeoutMs =
     bind tick32 (\<lambda>start.
     loop (\<lambda>_.
       bind tickRead (\<lambda>t.
       if desde t start < ucast timeoutMs then
         bind (enviarComandoAT ''AT'' 256 1000) (\<lambda>resp.
         if 0 < length resp \<and> contains (cstr resp) ''OK'' then ret (Inr True)
         else bind (delay 500) (\<lambda>_. ret (Inl ())))
       else ret (Inr False))) ())"

text \<open>Waiting for an address, with one restart of the module after four attempts.\<close>

definition esp_espera_ip :: "(unit, 'z) eprog" where
  "esp_espera_ip =
     bind tick32 (\<lambda>waitStart.
     loop (\<lambda>count.
       bind tickRead (\<lambda>t.
       if desde t waitStart < 15000 then
         bind (enviarComandoAT ''AT+CIPSTATUS'' 256 1000) (\<lambda>resp.
         if contains (cstr resp) ''STATUS:2'' \<or> contains (cstr resp) ''STATUS:3'' then
           bind (block [
             void (enviarComandoAT ''AT+CIFSR'' 256 1000),
             display_println ''WiFi CONECTADO'' 50,
             display_update,
             delay 1000,
             modify (\<lambda>w. w\<lparr>conectado := True\<rparr>)]) (\<lambda>_. ret (Inr ()))
         else
           bind (delay 1000) (\<lambda>_.
           bind (if count + 1 = 4 then void (enviarComandoAT ''AT+RST'' 256 1000) else ret ()) (\<lambda>_.
           ret (Inl (count + 1 :: nat)))))
       else ret (Inr ()))) 0)"

definition inicializarESP :: "u32 \<Rightarrow> (bool, 'z) eprog" where
  "inicializarESP timeoutMs =
     bind (esp_saludo timeoutMs) (\<lambda>ok.
     if \<not> ok then ret False
     else
       bind (block [
         void (enviarComandoAT ''AT+CWMODE=1'' 256 1000),
         void (enviarComandoAT ''AT+CIPMUX=0'' 256 1000),
         void (enviarComandoAT ''AT+CWAUTOCONN=1'' 256 1000),
         esp_espera_ip]) (\<lambda>_.
       bind (gets conectado) (\<lambda>c.
       if c then ret True
       else
         bind (block [
           display_println ''WiFi NO CONECTADO'' 36,
           display_println ''REVISE ROUTER'' 50,
           display_update,
           delay 100,
           display_println ''WiFi NO CONECTADO'' 36,
           display_println ''SIN CREDENCIALES'' 50,
           display_update,
           delay 100,
           void (enviarComandoAT (''AT+BLUFINAME='' @ entre_comillas ''cerradura'') 256 2000),
           void (enviarComandoAT ''AT+BLUFI=1'' 256 2000)]) (\<lambda>_. ret False))))"

text \<open>
  The search for \<^verbatim>\<open>OK\<close> and a line end. The bound \<^verbatim>\<open>n - 3\<close> is computed in
  \<^verbatim>\<open>size_t\<close>: for an answer of one or two bytes it wraps, and the search runs into
  the part of the array that was never written.
\<close>

definition ok_en :: "u8 list \<Rightarrow> nat \<Rightarrow> bool" where
  "ok_en bs i \<longleftrightarrow> byte_char (bs ! i) = CHR ''O'' \<and> byte_char (bs ! Suc i) = CHR ''K'' \<and>
     (byte_char (bs ! (i + 2)) = CHR 0x0D \<or> byte_char (bs ! (i + 2)) = CHR 0x0A)"

definition buscar_ok :: "u8 list \<Rightarrow> (bool, 'z) eprog" where
  "buscar_ok bs =
     (if length bs < 3 then fault Uninitialised
      else ret (list_ex (ok_en bs) [0..<length bs - 3]))"

definition resetearCredencialesESP :: "(bool, 'z) eprog" where
  "resetearCredencialesESP =
     bind (enviarComandoAT ''AT+RESTORE'' 512 5000) (\<lambda>resp.
     if 0 < length resp then
       bind (buscar_ok resp) (\<lambda>foundOK.
       if foundOK then
         bind (block [delay 3000, delay 1000, void (inicializarESP 10000)]) (\<lambda>_. ret True)
       else ret False)
     else ret False)"

section \<open>HTTP\<close>

definition peticion :: "string \<Rightarrow> string" where
  "peticion path = ''GET '' @ path @ '' HTTP/1.1'' @ CRLF @ ''Host: '' @ SERVER_IP @ '':'' @ SERVER_PORT
     @ CRLF @ ''Connection: close'' @ CRLF @ CRLF"

text \<open>\<open>Some\<close>: \<^verbatim>\<open>true\<close> and the buffer; \<open>None\<close>: \<^verbatim>\<open>false\<close>, after which no caller reads the buffer.\<close>

definition espRawHTTPGet :: "string \<Rightarrow> nat \<Rightarrow> (u8 list option, 'z) eprog" where
  "espRawHTTPGet path bufferSize =
     bind (enviarComandoAT ''AT+CIPCLOSE'' 128 500) (\<lambda>_.
     bind (store_str 256 (''AT+CIPSTART='' @ entre_comillas ''TCP'' @ '','' @ entre_comillas SERVER_IP
       @ '','' @ SERVER_PORT)) (\<lambda>cmd.
     bind (enviarComandoAT cmd 128 15000) (\<lambda>aux.
     if length aux = 0 \<or> contains (cstr aux) ''ERROR'' then ret None
     else
       bind (store_str 300 (peticion path)) (\<lambda>request.
       bind (store_str 256 (''AT+CIPSEND='' @ fmt_u (length request))) (\<lambda>cmd2.
       bind (enviarComandoAT cmd2 128 2000) (\<lambda>aux2.
       if \<not> contains (cstr aux2) ''>'' then ret None
       else
         bind (enviarComandoAT request bufferSize 5000) (\<lambda>resp.
         ret (if 0 < length resp then Some resp else None))))))))"

definition espHTTPGetViaAT :: "string \<Rightarrow> nat \<Rightarrow> (u8 list option, 'z) eprog" where
  "espHTTPGetViaAT path bufferSize =
     bind (enviarComandoAT (cut_str 512 (''AT+HTTPCGET='' @
       entre_comillas (''http://'' @ SERVER_IP @ '':'' @ SERVER_PORT @ path))) bufferSize 10000) (\<lambda>resp.
     if 0 < length resp \<and> (strchr (cstr resp) (CHR 0x7B) \<noteq> None \<or> contains (cstr resp) ''HTTP/'' \<or>
          contains (cstr resp) ''+HTTPCGET:'')
     then ret (Some resp)
     else espRawHTTPGet path bufferSize)"

section \<open>Requests\<close>

definition espHTTPGetPins :: "nat \<Rightarrow> (PinUsuario list, 'z) eprog" where
  "espHTTPGetPins maxPins =
     (if maxPins = 0 then ret [] else
      bind (espHTTPGetViaAT ''/syncPins/?allPins=true'' 2048) (\<lambda>r.
      case r of None \<Rightarrow> ret [] | Some httpResp \<Rightarrow> ret (extraer_usuarios (cstr httpResp) maxPins)))"

definition espEnviarNuevaHuella :: "string \<Rightarrow> string \<Rightarrow> (bool, 'z) eprog" where
  "espEnviarNuevaHuella pin idHuella =
     bind (store_str 200 (''/update-huella?pin='' @ pin @ ''&huella='' @ idHuella)) (\<lambda>path.
     bind (espHTTPGetViaAT path 512) (\<lambda>r.
     ret (case r of None \<Rightarrow> False | Some rs \<Rightarrow> contains (cstr rs) ''UPDATED OK'')))"

definition espEnviarNuevoRFID :: "string \<Rightarrow> string \<Rightarrow> (bool, 'z) eprog" where
  "espEnviarNuevoRFID pin rfidHex =
     bind (store_str 200 (''/update-rfid?pin='' @ pin @ ''&rfid='' @ rfidHex)) (\<lambda>ruta.
     bind (espHTTPGetViaAT ruta 256) (\<lambda>r.
     ret (case r of None \<Rightarrow> False
        | Some respuesta \<Rightarrow> contains (cstr respuesta) ''UPDATED OK'' \<or> contains (cstr respuesta) ''200 OK''
            \<or> contains (cstr respuesta) (entre_comillas ''ok'') \<or> contains (cstr respuesta) ''UPDATED'')))"

definition espBorrarHuellaServidor :: "string \<Rightarrow> (bool, 'z) eprog" where
  "espBorrarHuellaServidor pin =
     bind (store_str 256 (''http://'' @ SERVER_IP @ '':'' @ SERVER_PORT @ ''/delete-huella?pin='' @ pin)) (\<lambda>url.
     bind (enviarComandoAT (cut_str 300 (''AT+HTTPCGET='' @ entre_comillas url)) 128 4000) (\<lambda>resp.
     ret (0 < length resp \<and> contains (cstr resp) ''DELETED OK'')))"

definition espBorrarTodasHuellasServidor :: "(bool, 'z) eprog" where
  "espBorrarTodasHuellasServidor =
     bind (store_str 256 (''http://'' @ SERVER_IP @ '':'' @ SERVER_PORT @ ''/clear-all-huellas'')) (\<lambda>url.
     bind (enviarComandoAT (cut_str 300 (''AT+HTTPCGET='' @ entre_comillas url)) 128 4000) (\<lambda>resp.
     ret (0 < length resp \<and> contains (cstr resp) ''ALL CLEARED OK'')))"

text \<open>The time stamp of the last change, -1 when the answer does not hold a plausible one.\<close>

definition tiempo_de :: "string \<Rightarrow> double" where
  "tiempo_de s =
     (case strchr s (CHR 0x7B) of None \<Rightarrow> Fin (- 1) | Some i \<Rightarrow>
      let jsonBody = drop i s in
      case strstr jsonBody (entre_comillas ''last_update'') of None \<Rightarrow> Fin (- 1) | Some p \<Rightarrow>
      let ptr = drop p jsonBody in
      case strchr ptr (CHR '':'') of None \<Rightarrow> Fin (- 1) | Some q \<Rightarrow>
      let val = atof (drop (Suc q) ptr) in
      if mayor val (Fin 1000000) then val else Fin (- 1))"

definition espObtenerTiempoServidor :: "(double, 'z) eprog" where
  "espObtenerTiempoServidor =
     bind (espHTTPGetViaAT ''/check-status'' 1024) (\<lambda>r.
     ret (case r of None \<Rightarrow> Fin (- 1) | Some rs \<Rightarrow> tiempo_de (cstr rs)))"

section \<open>What the module keeps\<close>

lemma usart_ESP: "usart ESP_UART = 3"
  by (simp add: usart_def ESP_UART_def lpcUarts_def)

text \<open>The commands and requests only talk to the USART.\<close>

locale esp_cmd_stable = as608_cmd_stable r pins usarts
  for r :: "'z esp_scheme \<Rightarrow> 'z esp_scheme \<Rightarrow> bool" and pins usarts +
  assumes esp_usart: "3 \<in> usarts"
begin

lemma within_ESP_string: "respeta r (uartWriteString ESP_UART s)"
  using esp_usart by (intro within_uartWriteString) (simp add: usart_ESP)

lemma within_store_str: "respeta r (store_str n s)"
  unfolding store_str_def by (intro within_splits within_ret within_fault)

lemma within_at_paso: "respeta r (at_paso n t s x)"
  unfolding at_paso_def by (intro sapi_rules within_splits within_tick32)

lemma within_enviarComandoAT: "respeta r (enviarComandoAT c n t)"
  unfolding enviarComandoAT_def
  by (intro within_splits within_bind within_ret within_block within_loop within_tick32 within_at_paso)
    (auto intro: within_ESP_string)

lemma within_espATInit: "respeta r (espATInit b)"
  unfolding espATInit_def by (intro within_block) (auto intro!: sapi_rules within_ESP_string)

lemma within_esp_saludo: "respeta r (esp_saludo t)"
  unfolding esp_saludo_def by (intro sapi_rules within_splits within_tick32 within_enviarComandoAT)

lemma within_espHTTP: "respeta r (espHTTPGetViaAT path n)"
  unfolding espHTTPGetViaAT_def espRawHTTPGet_def
  by (intro within_bind within_splits within_ret within_enviarComandoAT within_store_str)

lemma within_espHTTPGetPins: "respeta r (espHTTPGetPins n)"
  unfolding espHTTPGetPins_def by (intro within_bind within_splits within_ret within_espHTTP)

lemma within_esp_envios: "respeta r (espEnviarNuevaHuella p i)" "respeta r (espEnviarNuevoRFID p i)"
    "respeta r (espBorrarHuellaServidor p)" "respeta r espBorrarTodasHuellasServidor"
    "respeta r espObtenerTiempoServidor"
  unfolding espEnviarNuevaHuella_def espEnviarNuevoRFID_def espBorrarHuellaServidor_def
    espBorrarTodasHuellasServidor_def espObtenerTiempoServidor_def
  by (intro within_bind within_ret within_espHTTP within_enviarComandoAT within_store_str)+

lemmas esp_cmd_rules = as608_cmd_rules within_enviarComandoAT within_espATInit within_espHTTPGetPins
  within_esp_envios

end

text \<open>Start-up also sets the flag \<^verbatim>\<open>conectado\<close>.\<close>

locale esp_stable = esp_cmd_stable +
  assumes r_conectado: "r w (w\<lparr>conectado := c\<rparr>)"
begin

lemma within_esp_espera_ip: "respeta r esp_espera_ip"
  unfolding esp_espera_ip_def
  by (intro sapi_rules within_splits within_tick32 within_enviarComandoAT within_block)
    (auto intro!: esp_cmd_rules r_conectado)

lemma within_inicializarESP: "respeta r (inicializarESP t)"
  unfolding inicializarESP_def
  by (intro within_bind within_splits within_ret within_gets within_esp_saludo within_block)
    (auto intro!: esp_cmd_rules within_esp_espera_ip)

lemma within_resetearCredencialesESP: "respeta r resetearCredencialesESP"
  unfolding resetearCredencialesESP_def buscar_ok_def
  by (intro within_bind within_splits within_ret within_fault within_enviarComandoAT within_block)
    (auto intro!: esp_cmd_rules within_inicializarESP)

lemmas esp_rules = esp_cmd_rules within_inicializarESP within_resetearCredencialesESP

end

interpretation shr: esp_stable shrinks UNIV UNIV
  by unfold_locales (simp_all add: shrinks_def)

section \<open>Absence of undefined behaviour\<close>

lemma consumes_at_paso: "consumes (at_paso n t s x)"
  unfolding at_paso_def
  by (intro consumes_case_prod consumes_bind consumes_tickRead within_splits shr.sapi_rules shr.within_tick32)

lemma safe_at_paso: "safe E (at_paso n t s x)"
  unfolding at_paso_def
  by (intro keeps_splits keeps_bind keeps_Let keeps_ret safe_sapi safe_tick32)

lemma safe_enviarComandoAT: "safe E (enviarComandoAT c n t)"
  unfolding enviarComandoAT_def
  by (intro keeps_splits keeps_bind keeps_ret keeps_block keeps_loop consumes_at_paso safe_at_paso
      safe_tick32)
    (auto intro!: safe_sapi)

lemma consumes_enviarComandoAT: "0 < n \<Longrightarrow> consumes (enviarComandoAT c n t :: (u8 list, 'a) eprog)"
proof -
  assume "0 < n"
  have "consumes (bind tick32 (\<lambda>start. loop (at_paso n t start) ([], start)) :: (u8 list, 'a) eprog)"
    unfolding tick32_def by (intro consumes_bind consumes_tickRead shr.esp_rules shr.within_at_paso)
  moreover have "respeta shrinks (block [uartWriteString ESP_UART c, uartWriteString ESP_UART CRLF] :: (unit, 'a) eprog)"
    by (intro shr.within_block) (auto intro: shr.within_ESP_string)
  ultimately show ?thesis
    using \<open>0 < n\<close> by (simp add: enviarComandoAT_def consumes_despues del: block.simps bind_block_Cons)
qed

lemma bind_store_str: "length s < n \<Longrightarrow> bind (store_str n s) f = f s"
  by (simp add: store_str_def)

lemma safe_esp_saludo: "safe E (esp_saludo t)"
  unfolding esp_saludo_def
  by (intro keeps_bind keeps_loop consumes_bind consumes_tickRead within_splits shr.esp_rules keeps_splits
      keeps_ret safe_sapi safe_tick32 safe_enviarComandoAT)

lemma safe_esp_espera_ip: "safe E esp_espera_ip"
  unfolding esp_espera_ip_def
  by (intro keeps_bind keeps_loop consumes_bind consumes_tickRead within_splits shr.esp_rules keeps_splits
      keeps_void keeps_ret keeps_block shr.within_block safe_sapi safe_tick32 safe_enviarComandoAT)
    (auto intro!: keeps_void keeps_modify safe_enviarComandoAT safe_print safe_disp(2) safe_sapi
      shr.esp_rules simp: shrinks_def)

lemma safe_inicializarESP: "safe E (inicializarESP t)"
  unfolding inicializarESP_def
  by (intro keeps_bind keeps_splits keeps_ret keeps_gets keeps_block safe_esp_saludo)
    (auto intro!: keeps_void safe_enviarComandoAT safe_esp_espera_ip safe_print safe_disp(2) safe_sapi)

lemma safe_resetearCredencialesESP:
  assumes "Uninitialised \<in> E"
  shows "safe E resetearCredencialesESP"
proof -
  have "safe E (fault Uninitialised)" using assms by (simp add: keeps_def)
  then show ?thesis
    unfolding resetearCredencialesESP_def buscar_ok_def
    by (intro keeps_bind keeps_splits keeps_ret keeps_block safe_enviarComandoAT)
      (auto intro!: keeps_void safe_inicializarESP safe_sapi)
qed

lemma length_peticion: "length (peticion path) = length path + 60"
  by (simp add: peticion_def SERVER_IP_def SERVER_PORT_def)

lemma safe_espHTTP: "length path < 200 \<Longrightarrow> safe E (espHTTPGetViaAT path n)"
proof -
  assume l: "length path < 200"
  then have "length (fmt_u (length path + 60)) \<le> 3" by (intro fmt_u_length [of _ 2, simplified]) simp
  then have "safe E (espRawHTTPGet path n)"
    unfolding espRawHTTPGet_def using l
    by (simp add: bind_store_str length_peticion entre_comillas_def SERVER_IP_def SERVER_PORT_def
        cong: if_cong)
      (intro keeps_bind keeps_splits keeps_ret safe_enviarComandoAT)
  then show ?thesis
    unfolding espHTTPGetViaAT_def
    by (intro keeps_bind keeps_splits keeps_ret safe_enviarComandoAT)
qed

lemma safe_espHTTPGetPins: "safe E (espHTTPGetPins n)"
  unfolding espHTTPGetPins_def by (intro keeps_bind keeps_splits keeps_ret safe_espHTTP) simp

lemma safe_esp_envios:
  "length p + length i \<le> 150 \<Longrightarrow> safe E (espEnviarNuevaHuella p i)"
  "length p + length i \<le> 150 \<Longrightarrow> safe E (espEnviarNuevoRFID p i)"
  "length p \<le> 150 \<Longrightarrow> safe E (espBorrarHuellaServidor p)"
  "safe E espBorrarTodasHuellasServidor"
  "safe E espObtenerTiempoServidor"
  unfolding espEnviarNuevaHuella_def espEnviarNuevoRFID_def espBorrarHuellaServidor_def
    espBorrarTodasHuellasServidor_def espObtenerTiempoServidor_def
  by (auto simp: bind_store_str SERVER_IP_def SERVER_PORT_def
      intro!: keeps_bind keeps_ret safe_espHTTP safe_enviarComandoAT)

lemmas safe_esp = safe_inicializarESP safe_espHTTPGetPins safe_esp_envios

section \<open>What is sent\<close>

definition tx_frame :: "'z hw_scheme \<Rightarrow> 'z hw_scheme \<Rightarrow> bool" where
  "tx_frame w w' \<longleftrightarrow> txLog w' = txLog w"

lemma env_frame_tx: "env_frame w w' \<Longrightarrow> tx_frame w w'"
  unfolding env_frame_def tx_frame_def by (cases w, cases w') simp

interpretation txf: hw_stable tx_frame UNIV "{}"
  by unfold_locales (simp_all add: within_poll_frame env_frame_tx, simp_all add: tx_frame_def)

lemma at_paso_sat:
  assumes "length (fst x) < n"
  shows "sat E (\<lambda>r w'. (case r of Inl y \<Rightarrow> length (fst y) < n | Inr bs \<Rightarrow> length bs < n) \<and> tx_frame w w')
     (\<lambda>_. True) (at_paso n t s x w)"
proof -
  have "respeta tx_frame (at_paso n t s x)"
    unfolding at_paso_def tick32_def by (intro txf.sapi_rules within_splits)
  from sat_safe_within [OF safe_at_paso this, where s = w]
  have fr: "sat E (\<lambda>_ w'. tx_frame w w') (\<lambda>_. True) (at_paso n t s x w)" by (rule sat_weaken) auto
  have "sat E (\<lambda>r w'. case r of Inl y \<Rightarrow> length (fst y) < n | Inr bs \<Rightarrow> length bs < n) (\<lambda>_. True)
      (at_paso n t s x w)"
    using assms unfolding at_paso_def
    by (cases x)
      (auto intro!: sat_safe_bind safe_sapi safe_tick32 keeps_splits keeps_bind keeps_ret simp: Let_def less_diff_conv not_le
        split: option.split)
  from sat_conjI [OF this fr] show ?thesis by (rule sat_weaken) auto
qed


lemma enviarComandoAT_sat:
  fixes w :: "'a esp_scheme"
  assumes "0 < n"
  shows "sat E (\<lambda>bs w'. length bs < n \<and>
       txLog w' = (txLog w)(3 := txLog w 3 @ map of_char (cmd @ CRLF))) (\<lambda>_. True)
     (enviarComandoAT cmd n t w)"
proof -
  define w1 where "w1 = w\<lparr>txLog := (txLog w)(3 := txLog w 3 @ map of_char (cmd @ CRLF))\<rparr>"
  have w1: "block [uartWriteString ESP_UART cmd, uartWriteString ESP_UART CRLF] w = Ret () w1"
    by (simp add: uartWriteString_Ret bind_apply usart_ESP w1_def cong: if_cong)
  have tick: "respeta tx_frame tick32"
    unfolding tick32_def by (intro txf.sapi_rules)
  have "sat E (\<lambda>bs w'. length bs < n \<and> tx_frame w1 w') (\<lambda>_. True)
      (bind tick32 (\<lambda>start. loop (at_paso n t start) ([], start)) w1)"
  proof (rule sat_frame_bind [OF safe_tick32 tick])
    fix start w2
    assume f: "tx_frame w1 w2"
    show "sat E (\<lambda>bs w'. length bs < n \<and> tx_frame w1 w') (\<lambda>_. True)
        (loop (at_paso n t start) ([], start) w2)"
    proof (rule sat_loop [where I = "\<lambda>x w'. length (fst x) < n \<and> tx_frame w1 w'", OF _ consumes_at_paso])
      fix x :: "u8 list \<times> u32" and w' :: "'a esp_scheme"
      assume i: "length (fst x) < n \<and> tx_frame w1 w'"
      show "sat E (\<lambda>r w'. case r of Inl y \<Rightarrow> length (fst y) < n \<and> tx_frame w1 w'
          | Inr bs \<Rightarrow> length bs < n \<and> tx_frame w1 w') (\<lambda>_. True) (at_paso n t start x w')"
        by (rule sat_weaken [OF at_paso_sat])
          (use i in \<open>auto simp: tx_frame_def split: sum.splits\<close>)
    qed (use assms f in auto)
  qed
  then have "sat E (\<lambda>bs w'. length bs < n \<and> tx_frame w1 w') (\<lambda>_. True) (enviarComandoAT cmd n t w)"
    using assms by (simp add: enviarComandoAT_def bind_apply [of "block _"] w1 del: block.simps bind_block_Cons)
  then show ?thesis by (rule sat_weaken) (simp_all add: tx_frame_def w1_def)
qed

section \<open>The flag \<^verbatim>\<open>conectado\<close>\<close>

text \<open>Nothing in the program clears it.\<close>

definition conectado_frame :: "'z esp_scheme \<Rightarrow> 'z esp_scheme \<Rightarrow> bool" where
  "conectado_frame w w' \<longleftrightarrow> (conectado w \<longrightarrow> conectado w')"

lemma env_frame_conectado: "env_frame w w' \<Longrightarrow> conectado_frame w w'"
  unfolding env_frame_def conectado_frame_def by (cases w, cases w') simp

interpretation cf: esp_cmd_stable conectado_frame UNIV UNIV
  by unfold_locales (simp_all add: within_poll_frame env_frame_conectado, simp_all add: conectado_frame_def)

lemma conectado_espera_ip: "respeta conectado_frame esp_espera_ip"
  unfolding esp_espera_ip_def
  by (intro cf.sapi_rules within_splits cf.within_tick32 cf.within_enviarComandoAT cf.within_block)
    (auto intro!: cf.esp_cmd_rules simp: conectado_frame_def)

section \<open>Properties\<close>

text \<open>C28: A command to the WiFi module. \<^verbatim>\<open>enviarComandoAT\<close> sends exactly the command and a line end on
  USART 3 and nothing on the other USARTs, never stores more bytes than the buffer holds next to the
  terminator, and has no undefined behaviour, whatever the module answers.\<close>

theorem comando_at_correcto:
  assumes "0 < maxLen"
  shows "sat {} (\<lambda>bs w'. length bs < maxLen \<and>
       txLog w' = (txLog w)(3 := txLog w 3 @ map of_char (cmd @ CRLF))) (\<lambda>_. True)
     (enviarComandoAT cmd maxLen timeoutMs w)"
  by (rule enviarComandoAT_sat [OF assms])

definition esp_con :: "ev list list \<Rightarrow> bool \<Rightarrow> esp" where
  "esp_con sc c = (hw0 sc (disp_ext (\<lambda>_. 0) 0 0 [] (tecl_ext teclado_k (replicate 6 NUL) 0 False 0xFFFF
     (as608_ext scan0 0 (esp_ext c ())))))\<lparr>sysTickOn := True, sysTickInt := True\<rparr>"

theorem comando_at_correcto_witness:
  "sat {} (\<lambda>bs w'. length bs < 256 \<and>
       txLog w' = (\<lambda>_. [])(3 := map of_char (''AT'' @ CRLF))) (\<lambda>_. True)
     (enviarComandoAT ''AT'' 256 1000 (esp_con [[], [], [RxByte 3 0x4F, RxByte 3 0x4B], [], [], []] False))"
proof -
  have "(0 :: nat) < 256" by simp
  from comando_at_correcto [OF this, of "esp_con [[], [], [RxByte 3 0x4F, RxByte 3 0x4B], [], [], []] False"
      "''AT''" 1000]
  show ?thesis by (simp add: esp_con_def hw0_def)
qed

text \<open>The time stamp of the server. When the answer holds the JSON object the server builds,
  \<^verbatim>\<open>{"last_update": D.F}\<close> behind headers without a brace, \<^verbatim>\<open>espObtenerTiempoServidor\<close> reads the double
  nearest to that decimal number if it is above one million, and -1 otherwise.\<close>

lemma marca_de_tiempo_leida:
  assumes "CHR 0x7B \<notin> set cab" and "ds \<noteq> []" and "\<forall>c \<in> set ds. is_digit c"
    and "\<forall>c \<in> set fs. is_digit c" and "\<forall>c \<in> set sp. is_space c"
  shows "tiempo_de (cab @ CHR 0x7B # entre_comillas ''last_update'' @ '':'' @ sp @ ds @ ''.'' @ fs @
        CHR 0x7D # resto) =
      (if mayor (a_double (decimal ds fs)) (Fin 1000000) then a_double (decimal ds fs) else Fin (- 1))"
proof -
  let ?num = "ds @ ''.'' @ fs @ CHR 0x7D # resto"
  let ?q = "entre_comillas ''last_update''"
  have i: "strchr (cab @ CHR 0x7B # ?q @ '':'' @ sp @ ?num) (CHR 0x7B) = Some (length cab)"
    by (rule strchr_append [OF assms(1)])
  have "prefix ?q (?q @ '':'' @ sp @ ?num)" by simp
  then have p: "strstr (CHR 0x7B # ?q @ '':'' @ sp @ ?num) ?q = Some 1"
    by (simp add: entre_comillas_def)
  have q: "strchr (?q @ '':'' @ sp @ ?num) (CHR '':'') = Some (length ?q)"
    using strchr_append [of "CHR '':''" ?q "sp @ ?num"] by (simp add: entre_comillas_def)
  have dsp: "dropWhile is_space (sp @ ?num) = dropWhile is_space ?num"
    using assms(5) by (simp add: dropWhile_append)
  have "atof (sp @ ?num) = atof ?num" unfolding atof_def dsp ..
  also have "\<dots> = a_double (decimal ds fs)"
    using atof_decimal [of ds fs "CHR 0x7D # resto"] assms by (simp add: is_digit_def)
  finally have a: "atof (sp @ ?num) = a_double (decimal ds fs)" .
  show ?thesis using i p q a by (simp add: tiempo_de_def)
qed

lemma tiempo_ejemplo: "a_double (decimal ''1764012345'' ''0'') = Fin 1764012345"
proof -
  have "decimal ''1764012345'' ''0'' = of_nat 1764012345"
    by (simp add: decimal_def is_digit_def digit_val_def)
  then show ?thesis using a_double_entero [of 1764012345] by simp
qed

lemma marca_de_tiempo_leida_witness:
  "tiempo_de (''HTTP/1.1 200 OK'' @ CHR 0x7B # entre_comillas ''last_update'' @ '':'' @ '' '' @
      ''1764012345'' @ ''.'' @ ''0'' @ CHR 0x7D # []) = Fin 1764012345"
  using marca_de_tiempo_leida [of "''HTTP/1.1 200 OK''" "''1764012345''" "''0''" "'' ''" "[]"]
  unfolding tiempo_ejemplo by (simp add: is_digit_def is_space_def)

text \<open>Finding. The answer to the reset of the credentials is searched up to \<^verbatim>\<open>n - 3\<close> in unsigned
  arithmetic: an answer of one or two bytes makes the bound wrap, and the search reads the part of the
  buffer that was never written.\<close>

lemma reset_respuesta_corta:
  assumes "enviarComandoAT ''AT+RESTORE'' 512 5000 w = Ret bs w'" and "bs \<noteq> []" and "length bs < 3"
  shows "resetearCredencialesESP w = Fault Uninitialised w'"
  using assms by (simp add: resetearCredencialesESP_def bind_Ret buscar_ok_def bind_apply)

lemmas at_eval = enviarComandoAT_def uartWriteString_Ret bind_apply tick32_def tickRead_def poll_def
  loop_def iter.simps at_paso_def desde_def uartReadByte_def uartRxReady_def uartRxRead_def usart_ESP
  delay_def esp_con_def hw0_def tickerCallback_funpow UART_RX_FIFO_SIZE_def

lemma at_un_byte:
  "\<exists>w'. enviarComandoAT ''AT+RESTORE'' 512 5000
     (esp_con [[], [], [RxByte 3 0x4F], [Ticks 10], [Ticks 6000]] False) = Ret [0x4F] w'"
  by (simp add: at_eval)

lemma reset_respuesta_corta_witness:
  "\<exists>w'. resetearCredencialesESP (esp_con [[], [], [RxByte 3 0x4F], [Ticks 10], [Ticks 6000]] False)
     = Fault Uninitialised w'"
  using at_un_byte reset_respuesta_corta [of _ "[0x4F]"] by fastforce

text \<open>Finding. \<^verbatim>\<open>conectado\<close> is never cleared, so after the first connection the check for an
  address has no effect: \<^verbatim>\<open>inicializarESP\<close> reports a WiFi connection whenever the module answers
  \<^verbatim>\<open>OK\<close> to \<^verbatim>\<open>AT\<close>, even if it never gets an address again.\<close>

lemma reconexion_aparente:
  assumes "conectado w" and "esp_saludo timeoutMs w = Ret True w1"
  shows "sat {} (\<lambda>ok _. ok) (\<lambda>_. True) (inicializarESP timeoutMs w)"
proof -
  let ?cfg = "block [
         void (enviarComandoAT ''AT+CWMODE=1'' 256 1000),
         void (enviarComandoAT ''AT+CIPMUX=0'' 256 1000),
         void (enviarComandoAT ''AT+CWAUTOCONN=1'' 256 1000),
         esp_espera_ip] :: (unit, 'a) eprog"
  have "respeta conectado_frame (esp_saludo timeoutMs)" by (rule cf.within_esp_saludo)
  from within_Ret [OF this assms(2)] have c1: "conectado w1"
    using assms(1) by (simp add: conectado_frame_def)
  have f: "respeta conectado_frame ?cfg"
    by (intro cf.within_block) (auto intro: cf.esp_cmd_rules conectado_espera_ip)
  have sf: "safe {} ?cfg"
    by (intro keeps_block) (auto intro!: keeps_void safe_enviarComandoAT safe_esp_espera_ip)
  show ?thesis
    unfolding inicializarESP_def bind_apply [of "esp_saludo _"] assms(2) res.case
    by (simp del: block.simps bind_block_Cons, rule sat_frame_bind [OF sf f])
      (use c1 in \<open>simp add: bind_gets conectado_frame_def\<close>)
qed

definition con_ok :: esp where
  "con_ok = esp_con [[], [], [], [], [RxByte 3 0x4F, RxByte 3 0x4B], [], [], [], [], [Ticks 2000]] True"

lemma saludo_ok: "\<exists>w'. esp_saludo 10000 con_ok = Ret True w'"
proof -
  have "contains (cstr [0x4F, 0x4B]) ''OK''" by code_simp
  then show ?thesis by (simp add: at_eval esp_saludo_def con_ok_def)
qed

lemma reconexion_aparente_witness:
  "sat {} (\<lambda>ok _. ok) (\<lambda>_. True) (inicializarESP 10000 con_ok)"
proof -
  have "conectado con_ok" by (simp add: con_ok_def esp_con_def hw0_def)
  with saludo_ok reconexion_aparente show ?thesis by blast
qed

end
