(* ===== verification/Validacion.thy ===== *)
theory Validacion
  imports Esp_At
begin

text \<open>
  The user table as part of the program's state, the operations on it as
  statements, and the synchronisation with the server
  (\<^verbatim>\<open>sincronizarConServidor\<close> of \<^verbatim>\<open>validacion.c\<close>).
\<close>

section \<open>State\<close>

record val = esp +
  listaPins :: tabla

type_synonym ('a, 'z) vprog = "('a, 'z val_scheme) prog"

text \<open>An operation of theory Usuarios on the table of the state.\<close>

definition sobre_tabla :: "(tabla \<Rightarrow> fault + 'a \<times> tabla) \<Rightarrow> ('a, 'z) vprog" where
  "sobre_tabla f =
     bind (gets listaPins) (\<lambda>us.
     case f us of
       Inl e \<Rightarrow> fault e
     | Inr (x, us') \<Rightarrow> bind (modify (\<lambda>w. w\<lparr>listaPins := us'\<rparr>)) (\<lambda>_. ret x))"

section \<open>Synchronisation\<close>

text \<open>
  \<^verbatim>\<open>bufferUsuarios\<close> is zeroed before the request and holds the received users
  first; the table is written only when at least one user was received.
\<close>

definition sincronizarConServidor :: "(u8, 'z) vprog" where
  "sincronizarConServidor =
     bind (block [display_clear, display_println ''SINCRONIZANDO...'' 20, display_update]) (\<lambda>_.
     bind (espHTTPGetPins MAX_PINS) (\<lambda>recibidos.
     bind display_clear (\<lambda>_.
     bind (if 0 < length recibidos then
             bind (sobre_tabla (\<lambda>_. map_sum id (Pair ()) (actualizarBaseDeDatos
               (recibidos @ replicate (MAX_PINS - length recibidos) usuario_cero)
               (int (length recibidos))))) (\<lambda>_.
             bind (display_println ''SYNC COMPLETADA'' 20) (\<lambda>_.
             bind (store_str 20 (''USUARIOS: '' @ fmt_d (int (length recibidos)))) (\<lambda>buff.
             bind (display_println buff 40) (\<lambda>_. ret 0))))
           else
             bind (block [display_println ''ERROR DE SYNC'' 20, display_println ''MANTENIENDO DB'' 40]) (\<lambda>_.
             ret 1)) (\<lambda>valor.
     bind (block [display_update, delay 1000, display_clear]) (\<lambda>_.
     ret valor)))))"

section \<open>What it keeps\<close>

locale val_stable = esp_stable r pins usarts
  for r :: "'z val_scheme \<Rightarrow> 'z val_scheme \<Rightarrow> bool" and pins usarts +
  assumes r_tabla: "r w (w\<lparr>listaPins := us\<rparr>)"
begin

lemma within_sobre_tabla: "respeta r (sobre_tabla f)"
  unfolding sobre_tabla_def by (intro within_rules within_splits r_tabla)

lemma within_sincronizar: "respeta r sincronizarConServidor"
  unfolding sincronizarConServidor_def
  by (intro within_bind within_splits within_ret within_block within_espHTTPGetPins within_sobre_tabla
      within_store_str disp_rules)
    (auto intro!: disp_rules)

lemmas val_rules = esp_rules within_sobre_tabla within_sincronizar

end

interpretation shr: val_stable shrinks UNIV UNIV
  by unfold_locales (simp_all add: shrinks_def)

section \<open>What it does\<close>

definition tabla_frame :: "'z val_scheme \<Rightarrow> 'z val_scheme \<Rightarrow> bool" where
  "tabla_frame w w' \<longleftrightarrow> listaPins w' = listaPins w"

lemma env_frame_tabla: "env_frame w w' \<Longrightarrow> tabla_frame w w'"
  unfolding env_frame_def tabla_frame_def by (cases w, cases w') simp

interpretation tb: esp_stable tabla_frame UNIV UNIV
  by unfold_locales (simp_all add: within_poll_frame env_frame_tabla, simp_all add: tabla_frame_def)

text \<open>A table that a successful synchronisation leaves.\<close>

definition tabla_recibida :: "tabla \<Rightarrow> bool" where
  "tabla_recibida us \<longleftrightarrow> (\<exists>rs. rs \<noteq> [] \<and> length rs \<le> MAX_PINS \<and>
     list_all (\<lambda>u. wf_usuario u \<and> codigo u \<noteq> []) rs \<and>
     us = rs @ replicate (MAX_PINS - length rs) usuario_cero)"

lemma tabla_recibida_wf: "tabla_recibida us \<Longrightarrow> wf_tabla us"
  by (auto simp: tabla_recibida_def wf_tabla_def list_all_iff wf_usuario_cero)

lemma actualizar_recibidos:
  assumes "length rs \<le> MAX_PINS"
  shows "actualizarBaseDeDatos (rs @ replicate (MAX_PINS - length rs) usuario_cero) (int (length rs)) =
    Inr (rs @ replicate (MAX_PINS - length rs) usuario_cero)"
  using assms by (simp add: actualizarBaseDeDatos_def Let_def)

lemma espHTTPGetPins_sat:
  "sat E (\<lambda>rs w'. length rs \<le> n \<and> list_all (\<lambda>u. wf_usuario u \<and> codigo u \<noteq> []) rs \<and> tabla_frame w w')
     (\<lambda>_. True) (espHTTPGetPins n w)"
proof -
  have "sat E (\<lambda>rs w'. length rs \<le> n \<and> list_all (\<lambda>u. wf_usuario u \<and> codigo u \<noteq> []) rs) (\<lambda>_. True)
      (espHTTPGetPins n w)"
    unfolding espHTTPGetPins_def
    using extraer_usuarios_cotas
    by (auto intro!: sat_safe_bind safe_espHTTP simp: list_all_iff split: option.splits)
  from sat_conjI [OF this sat_safe_within [OF safe_espHTTPGetPins tb.within_espHTTPGetPins]]
  show ?thesis by (rule sat_weaken) auto
qed

lemma safe_usuarios: "n \<le> MAX_PINS \<Longrightarrow> length (''USUARIOS: '' @ fmt_d (int n)) \<le> 12"
  using fmt_u_length [of n 1] by (simp add: fmt_d_def MAX_PINS_def)

text \<open>The table after \<open>rs\<close> was received.\<close>

definition tabla_de :: "PinUsuario list \<Rightarrow> tabla" where
  "tabla_de rs = rs @ replicate (MAX_PINS - length rs) usuario_cero"

lemma tabla_recibida_de:
  "length rs \<le> MAX_PINS \<Longrightarrow> list_all (\<lambda>u. wf_usuario u \<and> codigo u \<noteq> []) rs \<Longrightarrow> rs \<noteq> [] \<Longrightarrow> tabla_recibida (tabla_de rs)"
  by (auto simp: tabla_recibida_def tabla_de_def)

text \<open>The part behind the request.\<close>

lemma sincronizar_guardar:
  assumes "length rs \<le> MAX_PINS"
  shows "sat E (\<lambda>valor w'. valor = 0 \<and> listaPins w' = tabla_de rs) (\<lambda>_. True)
    (bind (sobre_tabla (\<lambda>_. map_sum id (Pair ()) (actualizarBaseDeDatos
               (rs @ replicate (MAX_PINS - length rs) usuario_cero) (int (length rs))))) (\<lambda>_.
             bind (display_println ''SYNC COMPLETADA'' 20) (\<lambda>_.
             bind (store_str 20 (''USUARIOS: '' @ fmt_d (int (length rs)))) (\<lambda>buff.
             bind (display_println buff 40) (\<lambda>_. ret (0 :: u8))))) w)"
proof -
  let ?us = "rs @ replicate (MAX_PINS - length rs) usuario_cero"
  let ?t = "''USUARIOS: '' @ fmt_d (int (length rs))"
  have l: "length ?t \<le> 12" by (rule safe_usuarios [OF assms(1)])
  have "sat E (\<lambda>valor w'. valor = 0 \<and> listaPins w' = tabla_de rs) (\<lambda>_. True)
     (bind (display_println ''SYNC COMPLETADA'' 20) (\<lambda>_.
      bind (display_println ?t 40) (\<lambda>_. ret (0 :: u8))) (w\<lparr>listaPins := ?us\<rparr>))"
    by (rule sat_frame_bind [OF safe_print tb.within_display_println], simp_all,
        rule sat_frame_bind [OF safe_print tb.within_display_println])
      (use l in \<open>simp_all add: tabla_frame_def tabla_de_def\<close>)
  then show ?thesis
    using l by (simp add: sobre_tabla_def actualizar_recibidos [OF assms(1)] bind_assoc bind_gets
        bind_modify bind_store_str)
qed

lemma sincronizar_resto:
  assumes "length rs \<le> MAX_PINS"
  shows "sat E (\<lambda>valor w'. valor = (if rs = [] then 1 else 0) \<and> listaPins w' = (if rs = [] then listaPins w else tabla_de rs))
     (\<lambda>_. True)
    (bind display_clear (\<lambda>_.
     bind (if 0 < length rs then
             bind (sobre_tabla (\<lambda>_. map_sum id (Pair ()) (actualizarBaseDeDatos
               (rs @ replicate (MAX_PINS - length rs) usuario_cero) (int (length rs))))) (\<lambda>_.
             bind (display_println ''SYNC COMPLETADA'' 20) (\<lambda>_.
             bind (store_str 20 (''USUARIOS: '' @ fmt_d (int (length rs)))) (\<lambda>buff.
             bind (display_println buff 40) (\<lambda>_. ret 0))))
           else
             bind (block [display_println ''ERROR DE SYNC'' 20, display_println ''MANTENIENDO DB'' 40]) (\<lambda>_.
             ret (1 :: u8))) (\<lambda>valor.
     bind (block [display_update, delay 1000, display_clear]) (\<lambda>_.
     ret valor))) w)"
proof -
  let ?Q = "\<lambda>valor w'. valor = (if rs = [] then 1 else 0 :: u8) \<and> listaPins w' = (if rs = [] then listaPins w else tabla_de rs)"
  let ?e = "block [display_println ''ERROR DE SYNC'' 20, display_println ''MANTENIENDO DB'' 40]"
  have z: "sat E ?Q (\<lambda>_. True) (bind (block [display_update, delay 1000, display_clear]) (\<lambda>_. ret v) u)"
    if "?Q v u" for v u
    by (rule sat_frame_bind [where r = tabla_frame], intro keeps_block)
      (use that in \<open>auto intro!: safe_disp(1,2) safe_delay tb.within_bind tb.disp_rules simp: tabla_frame_def\<close>)
  have e: "sat E ?Q (\<lambda>_. True) (bind ?e (\<lambda>_. ret 1) u)" if "rs = []" "listaPins u = listaPins w" for u
    by (rule sat_frame_bind [where r = tabla_frame], intro keeps_block)
      (use that in \<open>auto intro!: safe_print tb.within_bind tb.disp_rules simp: tabla_frame_def\<close>)
  show ?thesis
  proof (rule sat_frame_bind [OF safe_display_clear tb.within_display_clear], rule sat_bind, goal_cases)
    case (1 y w1)
    then have t: "listaPins w1 = listaPins w" by (simp add: tabla_frame_def)
    show ?case
    proof (cases "rs = []")
      case True
      show ?thesis
        by (subst if_not_P, simp add: True, rule sat_weaken [OF e [OF True t]], rule z) (use True in simp_all)
    next
      case False
      show ?thesis
        by (subst if_P, simp add: False, rule sat_weaken [OF sincronizar_guardar [OF assms]], rule z)
          (use False in simp_all)
    qed
  qed
qed

lemma sincronizar_sat:
  "sat E (\<lambda>valor w'. valor = 1 \<and> listaPins w' = listaPins w \<or> valor = 0 \<and> tabla_recibida (listaPins w'))
     (\<lambda>_. True) (sincronizarConServidor w)"
proof -
  have a: "safe E (block [display_clear, display_println ''SINCRONIZANDO...'' 20, display_update])"
    by (intro keeps_block) (auto intro!: safe_disp(1,2) safe_print)
  have a': "respeta tabla_frame (block [display_clear, display_println ''SINCRONIZANDO...'' 20, display_update])"
    by (intro tb.within_block) (auto intro!: tb.disp_rules)
  show ?thesis
    unfolding sincronizarConServidor_def
  proof (rule sat_frame_bind [OF a a'], rule sat_bind, rule sat_weaken [OF espHTTPGetPins_sat], goal_cases)
    case (1 x w1 rs w2)
    then show ?case
      by (intro sat_weaken [OF sincronizar_resto])
        (auto simp: tabla_frame_def tabla_recibida_de split: if_splits)
  qed simp
qed

section \<open>Properties\<close>

text \<open>C19: Synchronisation is all or nothing. \<^verbatim>\<open>sincronizarConServidor\<close> has no undefined behaviour and
  does not hang, whatever the WiFi module sends. When it returns 1 the table is unchanged; when it
  returns 0 the table holds the received users, at least one of them, each with a code and with every
  text inside its array, and behind them only inactive, empty entries, so that no local credential
  survives.\<close>

theorem sincronizacion_atomica:
  "sat {} (\<lambda>valor w'. valor = 1 \<and> listaPins w' = listaPins w \<or>
      valor = 0 \<and> wf_tabla (listaPins w') \<and> tabla_recibida (listaPins w')) (\<lambda>_. True)
     (sincronizarConServidor w)"
  by (rule sat_weaken [OF sincronizar_sat]) (auto simp: tabla_recibida_wf)

end
