(* ===== verification/Rc522.thy ===== *)
theory Rc522
  imports Sapi CString
begin

text \<open>
  The RFID reader (\<^verbatim>\<open>rc522_drv.c\<close>): register access over SPI, the transceive
  command with its time limit, the ISO14443-A request and anticollision, and the
  card number as a hexadecimal text. What the reader and the card answer is the
  \<open>miso\<close> byte of the environment at every SPI read.

  \<^verbatim>\<open>transceive\<close> stores as many bytes as the reader's FIFO level register says into
  an array of the caller; \<open>backSize\<close> is the size of that array.
\<close>

section \<open>Registers and commands\<close>

definition CommandReg :: u8 where "CommandReg = 0x01"
definition CommIEnReg :: u8 where "CommIEnReg = 0x02"
definition CommIrqReg :: u8 where "CommIrqReg = 0x04"
definition DivIrqReg :: u8 where "DivIrqReg = 0x05"
definition ErrorReg :: u8 where "ErrorReg = 0x06"
definition FIFODataReg :: u8 where "FIFODataReg = 0x09"
definition FIFOLevelReg :: u8 where "FIFOLevelReg = 0x0A"
definition ControlReg :: u8 where "ControlReg = 0x0C"
definition BitFramingReg :: u8 where "BitFramingReg = 0x0D"
definition CollReg :: u8 where "CollReg = 0x0E"
definition ModeReg :: u8 where "ModeReg = 0x11"
definition TxControlReg :: u8 where "TxControlReg = 0x14"
definition TxASKReg :: u8 where "TxASKReg = 0x15"
definition RFCfgReg :: u8 where "RFCfgReg = 0x26"
definition TModeReg :: u8 where "TModeReg = 0x2A"
definition TPrescalerReg :: u8 where "TPrescalerReg = 0x2B"
definition TReloadRegH :: u8 where "TReloadRegH = 0x2C"
definition TReloadRegL :: u8 where "TReloadRegL = 0x2D"

definition PCD_Idle :: u8 where "PCD_Idle = 0x00"
definition PCD_Transceive :: u8 where "PCD_Transceive = 0x0C"
definition PCD_SoftReset :: u8 where "PCD_SoftReset = 0x0F"
definition PICC_REQIDL :: u8 where "PICC_REQIDL = 0x26"

definition RC522_SPI :: nat where "RC522_SPI = SPI0"
definition RC522_CS_GPIO :: gpioMap_t where "RC522_CS_GPIO = GPIO6"
definition RC522_RST_GPIO :: gpioMap_t where "RC522_RST_GPIO = GPIO7"

section \<open>Operations\<close>

definition rc522_cs_low :: "(unit, 'z) hwprog" where
  "rc522_cs_low = void (gpioWrite RC522_CS_GPIO False)"

definition rc522_cs_high :: "(unit, 'z) hwprog" where
  "rc522_cs_high = void (gpioWrite RC522_CS_GPIO True)"

definition spi_write :: "u8 list \<Rightarrow> (unit, 'z) hwprog" where
  "spi_write bs = void (spiWrite RC522_SPI bs)"

definition spi_read :: "nat \<Rightarrow> (u8 list option, 'z) hwprog" where
  "spi_read n = spiRead RC522_SPI n"

definition rc522_write_reg :: "u8 \<Rightarrow> u8 \<Rightarrow> (unit, 'z) hwprog" where
  "rc522_write_reg reg val =
     (let addr = push_bit 1 reg AND 0x7E in
      block [rc522_cs_low, spi_write [addr], spi_write [val], rc522_cs_high])"

definition rc522_read_reg :: "u8 \<Rightarrow> (u8, 'z) hwprog" where
  "rc522_read_reg reg =
     (let addr = (push_bit 1 reg AND 0x7E) OR 0x80 in
      bind rc522_cs_low (\<lambda>_.
      bind (spi_write [addr]) (\<lambda>_.
      bind (spi_read 1) (\<lambda>r.
      bind rc522_cs_high (\<lambda>_.
      ret (case r of Some (b # _) \<Rightarrow> b | _ \<Rightarrow> 0))))))"

definition rc522_set_bits :: "u8 \<Rightarrow> u8 \<Rightarrow> (unit, 'z) hwprog" where
  "rc522_set_bits reg m = bind (rc522_read_reg reg) (\<lambda>v. rc522_write_reg reg (v OR m))"

definition rc522_clr_bits :: "u8 \<Rightarrow> u8 \<Rightarrow> (unit, 'z) hwprog" where
  "rc522_clr_bits reg m = bind (rc522_read_reg reg) (\<lambda>v. rc522_write_reg reg (v AND NOT m))"

definition rc522_reset :: "(unit, 'z) hwprog" where
  "rc522_reset = block [rc522_write_reg CommandReg PCD_SoftReset, delay 50]"

definition rc522_antenna_on :: "(unit, 'z) hwprog" where
  "rc522_antenna_on =
     bind (rc522_read_reg TxControlReg) (\<lambda>v.
     if v AND 0x03 \<noteq> 0x03 then rc522_set_bits TxControlReg 0x03 else ret ())"

text \<open>Waiting for the answer, at most 50 ms.\<close>

definition transceive_wait :: "(unit, 'z) hwprog" where
  "transceive_wait =
     bind tickRead (\<lambda>trans_start.
     loop (\<lambda>_.
       bind tickRead (\<lambda>t.
       if t - trans_start < 50 then
         bind (rc522_read_reg CommIrqReg) (\<lambda>irq.
         if irq AND 0x30 \<noteq> 0 then ret (Inr ())
         else
           bind (rc522_read_reg DivIrqReg) (\<lambda>d.
           ret (if d AND 0x01 \<noteq> 0 then Inr () else Inl ())))
       else ret (Inr ()))) ())"

text \<open>\<^verbatim>\<open>back[i] = rc522_read_reg(FIFODataReg)\<close> for \<open>i\<close> from the bytes already stored on.\<close>

primrec leer_fifo :: "nat \<Rightarrow> nat \<Rightarrow> u8 list \<Rightarrow> (u8 list, 'z) hwprog" where
  "leer_fifo 0 backSize back = ret back"
| "leer_fifo (Suc n) backSize back =
     bind (rc522_read_reg FIFODataReg) (\<lambda>b.
     if length back < backSize then leer_fifo n backSize (back @ [b]) else fault BufferOverflow)"

definition contar_bits :: "u8 \<Rightarrow> u8 \<Rightarrow> u8" where
  "contar_bits fifo lastBits =
     (if lastBits \<noteq> 0 then (fifo - 1) * 8 + lastBits else fifo * 8)"

text \<open>The result, the bytes stored and \<^verbatim>\<open>*backBits\<close> (0 before the call in both callers).\<close>

definition transceive :: "u8 list \<Rightarrow> nat \<Rightarrow> (bool \<times> u8 list \<times> u8, 'z) hwprog" where
  "transceive send backSize =
     bind (block [
       rc522_write_reg CommandReg PCD_Idle,
       rc522_write_reg CommIrqReg 0x7F,
       rc522_write_reg FIFOLevelReg 0x80,
       for_each send (rc522_write_reg FIFODataReg),
       rc522_write_reg CommandReg PCD_Transceive,
       rc522_set_bits BitFramingReg 0x80,
       transceive_wait,
       rc522_clr_bits BitFramingReg 0x80]) (\<lambda>_.
     bind (rc522_read_reg ErrorReg) (\<lambda>e.
     if e AND 0x1B \<noteq> 0 then ret (False, [], 0)
     else
       bind (rc522_read_reg FIFOLevelReg) (\<lambda>fifo.
       bind (rc522_read_reg ControlReg) (\<lambda>c.
       bind (leer_fifo (unat fifo) backSize []) (\<lambda>back.
       ret (fifo > 0, back, contar_bits fifo (c AND 0x07)))))))"

definition rc522_hw_init :: "(unit, 'z) hwprog" where
  "rc522_hw_init = block [
     void (gpioInit RC522_CS_GPIO GPIO_OUTPUT),
     void (gpioInit RC522_RST_GPIO GPIO_OUTPUT),
     rc522_cs_high,
     void (gpioWrite RC522_RST_GPIO True),
     void (spiInit RC522_SPI)]"

definition rc522_init_iso14443a :: "(unit, 'z) hwprog" where
  "rc522_init_iso14443a = block [
     rc522_reset,
     rc522_write_reg TModeReg 0x8D,
     rc522_write_reg TPrescalerReg 0x3E,
     rc522_write_reg TReloadRegL 30,
     rc522_write_reg TReloadRegH 0,
     rc522_write_reg TxASKReg 0x40,
     rc522_write_reg ModeReg 0x3D,
     rc522_write_reg RFCfgReg 0x70,
     rc522_write_reg CommIrqReg 0x7F,
     rc522_write_reg CommIEnReg 0x30,
     rc522_antenna_on,
     delay 5]"

definition rc522_version :: "(u8, 'z) hwprog" where
  "rc522_version = rc522_read_reg 0x37"

definition rc522_txcontrol :: "(u8, 'z) hwprog" where
  "rc522_txcontrol = rc522_read_reg TxControlReg"

text \<open>\<^verbatim>\<open>back\<close> is zeroed here; the first two bytes are the answer.\<close>

definition rc522_requestA :: "(u8 list option, 'z) hwprog" where
  "rc522_requestA =
     bind (rc522_write_reg CollReg 0x80) (\<lambda>_.
     bind (rc522_write_reg BitFramingReg 0x07) (\<lambda>_.
     bind (transceive [PICC_REQIDL] 3) (\<lambda>(ok, back, backBits).
     bind (rc522_write_reg BitFramingReg 0x00) (\<lambda>_.
     ret (if \<not> ok \<or> backBits \<noteq> 16 then None else Some (take 2 (back @ [0, 0, 0])))))))"

definition rc522_anticoll_cl1 :: "(u8 list option, 'z) hwprog" where
  "rc522_anticoll_cl1 =
     bind (rc522_write_reg BitFramingReg 0x00) (\<lambda>_.
     bind (transceive [0x93, 0x20] 10) (\<lambda>(ok, back, bits).
     ret (if \<not> ok then None else if bits \<noteq> 40 then None else Some (take 5 back))))"

definition rc522_clear_irqs :: "(unit, 'z) hwprog" where
  "rc522_clear_irqs = rc522_write_reg CommIrqReg 0x7F"

definition hex_digit :: "u8 \<Rightarrow> char" where
  "hex_digit n = ''0123456789ABCDEF'' ! unat n"

definition hex_byte :: "u8 \<Rightarrow> string" where
  "hex_byte b = [hex_digit (drop_bit 4 b AND 0x0F), hex_digit (b AND 0x0F)]"

definition hex_uid :: "u8 list \<Rightarrow> string" where
  "hex_uid bs = concat (map hex_byte bs)"

text \<open>\<open>None\<close>: \<^verbatim>\<open>false\<close>, with the destination unchanged.\<close>

definition leer_rfid_str :: "nat \<Rightarrow> (string option, 'z) hwprog" where
  "leer_rfid_str maxlen =
     bind rc522_requestA (\<lambda>atqa.
     if atqa = None then ret None
     else
       bind rc522_anticoll_cl1 (\<lambda>uid5.
       case uid5 of None \<Rightarrow> ret None
       | Some uid \<Rightarrow> if maxlen < 9 then ret None else ret (Some (hex_uid (take 4 uid)))))"

section \<open>What the driver keeps\<close>

definition rc522_pins :: "pin set" where
  "rc522_pins = {(3, 6), (3, 7)}"

lemma gpio_of_rc522: "gpio_of RC522_CS_GPIO = Some (3, 6)" "gpio_of RC522_RST_GPIO = Some (3, 7)"
  by (simp_all add: gpio_of_def RC522_CS_GPIO_def RC522_RST_GPIO_def gpio_map_defs
      gpioObtainPinInit_def gpioPinsInit_def)

locale rc522_stable = hw_stable r pins usarts
  for r :: "'z hw_scheme \<Rightarrow> 'z hw_scheme \<Rightarrow> bool" and pins usarts +
  assumes rc522_pins: "rc522_pins \<subseteq> pins"
begin

lemma within_cs: "respeta r rc522_cs_low" "respeta r rc522_cs_high"
  unfolding rc522_cs_low_def rc522_cs_high_def
  using rc522_pins by (auto intro!: within_void within_gpioWrite simp: gpio_of_rc522 rc522_pins_def)

lemma within_write_reg: "respeta r (rc522_write_reg a b)"
  unfolding rc522_write_reg_def spi_write_def Let_def
  by (intro within_block) (auto intro!: within_cs sapi_rules)

lemma within_read_reg: "respeta r (rc522_read_reg a)"
  unfolding rc522_read_reg_def spi_write_def spi_read_def Let_def
  by (intro sapi_rules within_cs)

lemma within_set_clr: "respeta r (rc522_set_bits a m)" "respeta r (rc522_clr_bits a m)"
  unfolding rc522_set_bits_def rc522_clr_bits_def
  by (intro sapi_rules within_read_reg within_write_reg)+

lemma within_transceive_wait: "respeta r transceive_wait"
  unfolding transceive_wait_def by (intro sapi_rules within_splits within_read_reg)

lemma within_leer_fifo: "respeta r (leer_fifo n m bs)"
  by (induction n arbitrary: bs) (auto intro!: sapi_rules within_splits within_read_reg)

lemma within_transceive: "respeta r (transceive cmd n)"
  unfolding transceive_def
  by (intro within_bind within_splits sapi_rules within_read_reg within_leer_fifo within_block)
    (auto intro!: sapi_rules within_write_reg within_set_clr within_transceive_wait)

lemma within_leer_rfid_str: "respeta r (leer_rfid_str n)"
  unfolding leer_rfid_str_def rc522_requestA_def rc522_anticoll_cl1_def
  by (intro within_bind within_splits sapi_rules within_write_reg within_transceive)

lemma within_rc522_init: "respeta r rc522_hw_init" "respeta r rc522_init_iso14443a"
  unfolding rc522_hw_init_def rc522_init_iso14443a_def rc522_reset_def rc522_antenna_on_def
  using rc522_pins
  by (intro within_block; auto intro!: sapi_rules within_splits within_cs within_write_reg within_read_reg
      within_set_clr within_gpioInit within_gpioWrite within_block
      simp: gpio_of_rc522 rc522_pins_def)+

lemmas rc522_rules = within_leer_rfid_str within_rc522_init

end

interpretation shr: rc522_stable shrinks UNIV UNIV
  by unfold_locales simp

section \<open>Absence of other faults\<close>

lemma rc522_pin_valido: "pin_valido RC522_CS_GPIO"
  by (simp add: pin_valido_def RC522_CS_GPIO_def GPIO6_def)

lemma safe_write_reg: "safe E (rc522_write_reg a b)"
  unfolding rc522_write_reg_def spi_write_def Let_def rc522_cs_low_def rc522_cs_high_def
  by (intro keeps_block) (auto intro!: keeps_rules safe_sapi rc522_pin_valido)

lemma safe_read_reg: "safe E (rc522_read_reg a)"
  unfolding rc522_read_reg_def spi_write_def spi_read_def Let_def rc522_cs_low_def rc522_cs_high_def
  by (intro keeps_rules safe_sapi rc522_pin_valido)

lemma consumes_read_wait:
  "consumes (bind tickRead (\<lambda>t. if t - t0 < 50 then
         bind (rc522_read_reg CommIrqReg) (\<lambda>irq.
         if irq AND 0x30 \<noteq> 0 then ret (Inr ())
         else bind (rc522_read_reg DivIrqReg) (\<lambda>d. ret (if d AND 0x01 \<noteq> 0 then Inr () else Inl ())))
       else ret (Inr ())))" for t0 :: u64
  by (intro consumes_bind consumes_tickRead within_splits shr.within_rules shr.within_read_reg)

lemma safe_transceive_wait: "safe E transceive_wait"
  unfolding transceive_wait_def
  by (intro keeps_bind keeps_loop consumes_read_wait keeps_splits keeps_rules safe_sapi safe_read_reg)

lemma leer_fifo_sat:
  assumes "length bk \<le> backSize"
  shows "sat {BufferOverflow} (\<lambda>bs _. length bs = length bk + n \<and> length bs \<le> backSize) (\<lambda>_. True)
     (leer_fifo n backSize bk w)"
  using assms
proof (induction n arbitrary: bk w)
  case 0
  then show ?case by simp
next
  case (Suc n)
  show ?case unfolding leer_fifo.simps
  proof (rule sat_safe_bind [OF safe_read_reg])
    fix b and w' :: "'a hw_scheme"
    show "sat {BufferOverflow} (\<lambda>bs _. length bs = length bk + Suc n \<and> length bs \<le> backSize) (\<lambda>_. True)
      ((if length bk < backSize then leer_fifo n backSize (bk @ [b]) else fault BufferOverflow) w')"
      using Suc.IH [of "bk @ [b]" w'] by simp
  qed
qed

text \<open>How many bytes are behind a bit count, given that they fit the array.\<close>

lemma contar_bits_bytes:
  assumes "contar_bits fifo lb = of_nat (8 * k)" and "unat lb < 8" and "k < 32" and "unat fifo < 32"
  shows "unat fifo = k"
proof (cases "lb = 0")
  case True
  with assms have "fifo * 8 = of_nat (8 * k)" by (simp add: contar_bits_def)
  from arg_cong [OF this, of unat] assms(3,4) show ?thesis
    by (simp add: unat_word_ariths unat_of_nat take_bit_nat_eq_self)
next
  case False
  with assms(1) have eq: "(fifo - 1) * 8 + lb = of_nat (8 * k)" by (simp add: contar_bits_def)
  have "(a * 8 mod 256 + l) mod 256 mod 8 = l mod 8" for a l :: nat
  proof -
    have "(a * 8 mod 256 + l) mod 256 mod 8 = (a * 8 mod 256 + l) mod 8" by (rule mod_mod_cancel) simp
    also have "\<dots> = (a * 8 mod 256 mod 8 + l) mod 8" by (simp only: mod_add_left_eq)
    also have "a * 8 mod 256 mod 8 = a * 8 mod 8" by (rule mod_mod_cancel) simp
    finally show ?thesis by simp
  qed
  then have "unat (x * 8 + lb) mod 8 = unat lb mod 8" for x by (simp add: unat_word_ariths)
  from this [of "fifo - 1"] have "unat ((fifo - 1) * 8 + lb) mod 8 = unat lb mod 8" .
  moreover have "unat ((fifo - 1) * 8 + lb) mod 8 = 0"
    unfolding eq using assms(3)
    by (simp add: unat_of_nat take_bit_nat_eq_self del: of_nat_mult)
  ultimately have "unat lb = 0" using assms(2) by simp
  with False show ?thesis by (simp add: unsigned_eq_0_iff)
qed

lemma transceive_sat:
  "sat {BufferOverflow} (\<lambda>(ok, bs, bits) _. length bs \<le> backSize \<and>
      (\<exists>fifo lb. unat lb < 8 \<and> bits = contar_bits fifo lb \<and> (ok \<longrightarrow> length bs = unat fifo)))
     (\<lambda>_. True) (transceive cmd backSize w)"
proof -
  have m: "unat (c AND 0x07 :: u8) < 8" for c
    using word_and_le1 [of c 7] by (simp add: word_le_nat_alt)
  have s: "safe {BufferOverflow} (block [
       rc522_write_reg CommandReg PCD_Idle, rc522_write_reg CommIrqReg 0x7F,
       rc522_write_reg FIFOLevelReg 0x80, for_each cmd (rc522_write_reg FIFODataReg),
       rc522_write_reg CommandReg PCD_Transceive, rc522_set_bits BitFramingReg 0x80,
       transceive_wait, rc522_clr_bits BitFramingReg 0x80])"
    unfolding rc522_set_bits_def rc522_clr_bits_def
    by (intro keeps_block) (auto intro!: keeps_rules safe_write_reg safe_read_reg safe_transceive_wait)
  have z: "\<exists>fifo lb. unat lb < 8 \<and> contar_bits fifo lb = 0"
    by (rule exI [of _ 0], rule exI [of _ 0]) (simp add: contar_bits_def)
  show ?thesis
    unfolding transceive_def
  proof (rule sat_safe_bind [OF s], rule sat_safe_bind [OF safe_read_reg])
    fix x and e :: u8 and w' :: "'a hw_scheme"
    have "sat {BufferOverflow} (\<lambda>(ok, bs, bits) _. length bs \<le> backSize \<and>
      (\<exists>fifo lb. unat lb < 8 \<and> bits = contar_bits fifo lb \<and> (ok \<longrightarrow> length bs = unat fifo)))
      (\<lambda>_. True) (bind (rc522_read_reg FIFOLevelReg) (\<lambda>fifo.
       bind (rc522_read_reg ControlReg) (\<lambda>c.
       bind (leer_fifo (unat fifo) backSize []) (\<lambda>back.
       ret (fifo > 0, back, contar_bits fifo (c AND 0x07))))) w')"
      by (intro sat_safe_bind [OF safe_read_reg] sat_bind, rule sat_weaken [OF leer_fifo_sat])
        (auto intro: m)
    then show "sat {BufferOverflow} (\<lambda>(ok, bs, bits) _. length bs \<le> backSize \<and>
      (\<exists>fifo lb. unat lb < 8 \<and> bits = contar_bits fifo lb \<and> (ok \<longrightarrow> length bs = unat fifo)))
      (\<lambda>_. True) ((if e AND 0x1B \<noteq> 0 then ret (False, [], 0)
       else bind (rc522_read_reg FIFOLevelReg) (\<lambda>fifo.
       bind (rc522_read_reg ControlReg) (\<lambda>c.
       bind (leer_fifo (unat fifo) backSize []) (\<lambda>back.
       ret (fifo > 0, back, contar_bits fifo (c AND 0x07)))))) w')"
      by (simp add: z)
  qed
qed

lemma anticoll_sat:
  "sat {BufferOverflow} (\<lambda>r _. case r of None \<Rightarrow> True | Some uid \<Rightarrow> length uid = 5) (\<lambda>_. True)
     (rc522_anticoll_cl1 w)"
proof -
  have n: "unat fifo = 5" if "unat fifo \<le> 10" "unat lb < 8" "contar_bits fifo lb = 40"
    for fifo lb :: u8
    using contar_bits_bytes [of fifo lb 5] that by simp
  show ?thesis
    unfolding rc522_anticoll_cl1_def
    by (rule sat_safe_bind [OF safe_write_reg], rule sat_bind, rule sat_weaken [OF transceive_sat])
      (auto, frule (2) n, simp)
qed

lemma safe_requestA: "safe {BufferOverflow} rc522_requestA"
  unfolding rc522_requestA_def
  by (intro keeps_bind keeps_splits keeps_ret safe_write_reg)
    (auto intro: keepsI sat_weaken [OF transceive_sat])

section \<open>Card numbers\<close>

lemma hex_digit_inj:
  "unat a < 16 \<Longrightarrow> unat b < 16 \<Longrightarrow> hex_digit a = hex_digit b \<Longrightarrow> a = b"
proof -
  have "distinct ''0123456789ABCDEF''" by simp
  moreover have "length ''0123456789ABCDEF'' = 16" by simp
  ultimately show "unat a < 16 \<Longrightarrow> unat b < 16 \<Longrightarrow> hex_digit a = hex_digit b \<Longrightarrow> a = b"
    unfolding hex_digit_def by (metis nth_eq_iff_index_eq word_unat_eq_iff)
qed

lemma nibble: "unat (x AND 0x0F :: u8) < 16"
  using word_and_le1 [of x "0x0F"] by (simp add: word_le_nat_alt)

lemma hex_byte_inj: "hex_byte a = hex_byte b \<longleftrightarrow> a = b"
proof
  assume "hex_byte a = hex_byte b"
  then have eq: "drop_bit 4 a AND 0x0F = drop_bit 4 b AND 0x0F" "a AND 0x0F = b AND 0x0F"
    by (auto simp: hex_byte_def dest: hex_digit_inj [OF nibble nibble])
  have lo: "unat (x AND 0x0F) = unat x mod 16" for x :: u8
  proof -
    have "x AND 0x0F = take_bit 4 x" by (simp add: take_bit_eq_mask mask_eq_exp_minus_1)
    then show ?thesis by (simp add: unsigned_take_bit_eq take_bit_eq_mod unat_mod)
  qed
  have hi: "unat (drop_bit 4 x AND 0x0F) = unat x div 16" for x :: u8
    using unsigned_less [of x, where 'a = nat] by (simp add: lo drop_bit_eq_div unat_div)
  have "unat a mod 16 = unat b mod 16" using arg_cong [OF eq(2), of unat] by (simp add: lo)
  moreover have "unat a div 16 = unat b div 16" using arg_cong [OF eq(1), of unat] by (simp add: hi)
  ultimately have "unat a = unat b" by (metis mult_div_mod_eq)
  then show "a = b" by (simp add: word_unat_eq_iff)
qed simp

lemma hex_uid_inj: "length as = length bs \<Longrightarrow> hex_uid as = hex_uid bs \<longleftrightarrow> as = bs"
proof (induction as bs rule: list_induct2)
  case (Cons a as b bs)
  have "length (hex_byte a) = length (hex_byte b)" by (simp add: hex_byte_def)
  with Cons.IH show ?case by (simp add: hex_uid_def hex_byte_inj append_eq_append_conv)
qed simp

lemma length_hex_uid: "length (hex_uid bs) = 2 * length bs"
  by (induction bs) (simp_all add: hex_uid_def hex_byte_def)

lemma leer_rfid_sat:
  "sat {BufferOverflow} (\<lambda>r _. case r of None \<Rightarrow> True
       | Some t \<Rightarrow> 9 \<le> maxlen \<and> (\<exists>uid. length uid = 4 \<and> t = hex_uid uid)) (\<lambda>_. True)
     (leer_rfid_str maxlen w)"
  unfolding leer_rfid_str_def
proof (rule sat_safe_bind [OF safe_requestA])
  fix atqa and w' :: "'a hw_scheme"
  have "sat {BufferOverflow} (\<lambda>r _. case r of None \<Rightarrow> True
       | Some t \<Rightarrow> 9 \<le> maxlen \<and> (\<exists>uid. length uid = 4 \<and> t = hex_uid uid)) (\<lambda>_. True)
      (bind rc522_anticoll_cl1 (\<lambda>uid5. case uid5 of None \<Rightarrow> ret None
       | Some uid \<Rightarrow> if maxlen < 9 then ret None else ret (Some (hex_uid (take 4 uid)))) w')"
    by (rule sat_bind, rule sat_weaken [OF anticoll_sat])
      (auto split: option.splits intro!: exI [of _ "take 4 _"])
  then show "sat {BufferOverflow} (\<lambda>r _. case r of None \<Rightarrow> True
       | Some t \<Rightarrow> 9 \<le> maxlen \<and> (\<exists>uid. length uid = 4 \<and> t = hex_uid uid)) (\<lambda>_. True)
      ((if atqa = None then ret None
     else bind rc522_anticoll_cl1 (\<lambda>uid5. case uid5 of None \<Rightarrow> ret None
       | Some uid \<Rightarrow> if maxlen < 9 then ret None else ret (Some (hex_uid (take 4 uid))))) w')"
    by simp
qed

section \<open>Properties\<close>


text \<open>The answer array of the request can overflow. \<^verbatim>\<open>transceive\<close> stores as many bytes as the
  FIFO level register says, without a bound, and \<^verbatim>\<open>rc522_requestA\<close> passes an array of three: a
  reader that reports four bytes after the request makes \<^verbatim>\<open>leer_rfid_str\<close> write past its end.\<close>

lemma rfid_desborde:
  "\<exists>w'. leer_rfid_str 10 (hw0 [[], [], [], [Miso 0x30], [Miso 0], [], [Miso 4], [Miso 0], [], [], [], []] ())
     = Fault BufferOverflow w'"
proof -
  have g: "gpioWrite 29 v = bind (Chip_GPIO_SetPinState 3 6 v) (\<lambda>_. ret True)" for v
    by (simp add: gpioWrite_def gpioObtainPinInit_def gpioPinsInit_def VCC_def GND_def)
  have f: "leer_fifo 4 n bs = leer_fifo (Suc (Suc (Suc (Suc 0)))) n bs" for n bs
    by (simp only: numeral_eq_Suc pred_numeral_simps arith_simps)
  show ?thesis
    by (simp add: f leer_rfid_str_def rc522_requestA_def transceive_def transceive_wait_def
        rc522_write_reg_def rc522_read_reg_def rc522_set_bits_def rc522_clr_bits_def rc522_cs_low_def
        rc522_cs_high_def spi_write_def spi_read_def spiWrite_def spiRead_def RC522_SPI_def SPI0_def
        RC522_CS_GPIO_def GPIO6_def g Chip_GPIO_SetPinState_def bind_apply void_def hw0_def
        tickRead_def poll_def loop_def iter.simps Let_def)
qed

end
