(* ===== verification/Mef.thy ===== *)
theory Mef
  imports Validacion Rc522
begin

text \<open>
  The main state machine (\<^verbatim>\<open>MEF.c\<close>) and \<^verbatim>\<open>main\<close> (\<^verbatim>\<open>CerraduraElectronica.c\<close>). One
  definition per case of the switch of \<^verbatim>\<open>mefUpdate\<close>, and one per loop or sub-menu
  inside a case. The proofs start in theory Mef\_Frame.

  \<^verbatim>\<open>long int\<close> variables that hold a time are 32 bits wide; C converts them to the
  64 bit type of \<^verbatim>\<open>tickRead\<close> with their sign (\<open>desde_l\<close>). Local variables of a loop
  are its loop state. Output on the console is left out.
\<close>

section \<open>State\<close>

datatype EstadoMEF =
    REPOSO | ESPERANDO_ACCION | LEER_Y_VALIDAR_HUELLA | VALIDAR_RFID | VALIDAR | SENSOR_CIERRE
  | BLOQUEADO | MENU_ADMIN | REGISTRAR_RFID | REGISTRAR_HUELLA

record mef = val +
  estadoActual :: EstadoMEF
  pinIngresado :: string       \<comment> \<open>\<^verbatim>\<open>char[6]\<close>\<close>
  intentosFallidos :: int
  ultimaPresencia :: u32       \<comment> \<open>\<^verbatim>\<open>long int\<close>\<close>
  ultimaVersionConocida :: double
  rfidLeido :: string          \<comment> \<open>\<^verbatim>\<open>char rfid[10]\<close>\<close>
  agendaHuella :: u32          \<comment> \<open>\<^verbatim>\<open>long int\<close>\<close>
  escaneoActivo :: bool

type_synonym ('a, 'z) mprog = "('a, 'z mef_scheme) prog"

definition TIMEOUT_MS :: u64 where "TIMEOUT_MS = 40000"
definition INTERVALO_HUELLA_MS :: u64 where "INTERVALO_HUELLA_MS = 600"
definition OMITIR_SENSOR_CIERRE :: bool where "OMITIR_SENSOR_CIERRE = False"
definition OMITIR_MOTOR :: bool where "OMITIR_MOTOR = False"
definition ALERTAS_ENABLE :: bool where "ALERTAS_ENABLE = True"
definition SENSOR_WIFI_ENABLE :: bool where "SENSOR_WIFI_ENABLE = True"
definition SENSOR_HUELLA_ENABLE :: bool where "SENSOR_HUELLA_ENABLE = True"

text \<open>\<^verbatim>\<open>tickRead() - v\<close> with a \<^verbatim>\<open>long int v\<close>.\<close>

definition desde_l :: "u64 \<Rightarrow> u32 \<Rightarrow> u64" where
  "desde_l t v = t - scast v"

section \<open>Statements that occur in many places\<close>

definition ir :: "EstadoMEF \<Rightarrow> (unit, 'z) mprog" where
  "ir e = modify (\<lambda>w. w\<lparr>estadoActual := e\<rparr>)"

text \<open>\<^verbatim>\<open>ultimaPresencia = tickRead()\<close>.\<close>

definition marcar :: "(unit, 'z) mprog" where
  "marcar = bind tick32 (\<lambda>t. modify (\<lambda>w. w\<lparr>ultimaPresencia := t\<rparr>))"

text \<open>Clear, print the lines, update.\<close>

definition lineas :: "(string \<times> u8) list \<Rightarrow> (unit, 'z) dprog" where
  "lineas ls = for_each ls (\<lambda>(s, y). display_println s y)"

definition mostrar :: "(string \<times> u8) list \<Rightarrow> (unit, 'z) dprog" where
  "mostrar ls = block [display_clear, lineas ls, display_update]"

text \<open>\<^verbatim>\<open>char buffer[30]; sprintf(buffer, "BIENVENIDO, %s", tag)\<close>.\<close>

definition bienvenida :: "string option \<Rightarrow> (string, 'z) mprog" where
  "bienvenida tg = (case tg of None \<Rightarrow> fault NullPointer
     | Some t \<Rightarrow> store_str 30 (''BIENVENIDO, '' @ t))"

definition abrir_si :: "(unit, 'z) mprog" where
  "abrir_si = (if \<not> OMITIR_MOTOR then abrirCerradura else ret ())"

section \<open>Low power (entrarModoSleep)\<close>

text \<open>
  The part up to the wake-up. \<^verbatim>\<open>SCB->SCR\<close> only selects the depth of the sleep; it
  has no place in the model.
\<close>

definition dormir :: "(unit, 'z) mprog" where
  "dormir = block [
     mostrar [(''ENTRANDO EN MODO'', 10), (''BAJO CONSUMO'', 30)],
     delay 100,
     modify (\<lambda>w. w\<lparr>eventoPresencia := False\<rparr>),
     Chip_PININT_ClearIntStatus,
     NVIC_ClearPendingIRQ,
     NVIC_EnableIRQ,
     SysTick_setTickInt False,
     mostrar [(''MODO BAJO'', 10), (''CONSUMO ACTIVADO'', 30)],
     WFI]"

definition reconectar :: "(double, 'z) mprog" where
  "reconectar =
     bind espObtenerTiempoServidor (\<lambda>v.
     if mayor (Fin 0) v then
       bind (mostrar [(''RECONECTANDO'', 10), (''WIFI...'', 30)]) (\<lambda>_.
       bind (inicializarESP 15000) (\<lambda>ok.
       if ok then espObtenerTiempoServidor else ret v))
     else ret v)"

definition verificarVersion :: "double \<Rightarrow> (unit, 'z) mprog" where
  "verificarVersion versionServer =
     (if mayor (Fin 0) versionServer then
        block [lineas [(''ERROR RED'', 40), (''SIN CONEXION'', 50)], display_update, delay 2000,
          display_clear]
      else
        bind (gets ultimaVersionConocida) (\<lambda>conocida.
        if mayor versionServer conocida then
          bind (block [mostrar [(''DESCARGANDO'', 10), (''DATOS NUEVOS...'', 22)], delay 1000]) (\<lambda>_.
          bind sincronizarConServidor (\<lambda>valor.
          bind (if valor = 0 then modify (\<lambda>w. w\<lparr>ultimaVersionConocida := versionServer\<rparr>) else ret ()) (\<lambda>_.
          delay 1000)))
        else block [mostrar [(''SISTEMA'', 10), (''ACTUALIZADO'', 30)], delay 1000]))"

definition entrarModoSleep :: "(unit, 'z) mprog" where
  "entrarModoSleep =
     bind (block [
       dormir,
       NVIC_DisableIRQ,
       SysTick_setTickInt True,
       mostrar [(''DESPERTANDO...'', 10)],
       delay 500,
       mostrar [(''VERIFICANDO'', 10), (''ACTUALIZACIONES...'', 30)]]) (\<lambda>_.
     bind reconectar verificarVersion)"

section \<open>The cases of mefUpdate\<close>

definition caso_REPOSO :: "(unit, 'z) mprog" where
  "caso_REPOSO = block [entrarModoSleep, display_clear, ir ESPERANDO_ACCION]"

text \<open>The administrator's PIN, for at most ten seconds of inactivity.\<close>

definition pinAdmin :: "(bool, 'z) mprog" where
  "pinAdmin =
     bind tick32 (\<lambda>tAuth0.
     bind tecladoReset (\<lambda>_.
     loop (\<lambda>(pin, tAuth).
       bind tickRead (\<lambda>t.
       if desde_l t tAuth < 10000 then
         bind (tecladoLeerPin pin tAuth) (\<lambda>(res, pin', tAuth').
         if res = 1 then bind (gets (\<lambda>w. esPinMaster (listaPins w) pin')) (\<lambda>m. ret (Inr m))
         else if res = - 1 then ret (Inr False)
         else bind (delay 50) (\<lambda>_. ret (Inl (pin', tAuth'))))
       else ret (Inr False))) ([], tAuth0)))"

definition acceso_admin :: "(unit, 'z) mprog" where
  "acceso_admin =
     bind (mostrar [(''SEGURIDAD'', 10), (''PIN ADMIN?'', 22)]) (\<lambda>_.
     bind pinAdmin (\<lambda>accesoConcedido.
     if accesoConcedido then
       block [mostrar [(''ACCESO CONCEDIDO'', 20)], alertaExito, delay 1000, marcar, ir MENU_ADMIN]
     else
       block [mostrar [(''PIN INCORRECTO'', 20)], alertaError, delay 1500, display_clear, tecladoReset]))"

text \<open>The card reader, then the schedule of the fingerprint scan.\<close>

definition programar_escaneo :: "(unit, 'z) mprog" where
  "programar_escaneo =
     bind (gets escaneoActivo) (\<lambda>a.
     bind (if a then ret ()
           else
             bind tickRead (\<lambda>t.
             bind (gets agendaHuella) (\<lambda>agenda.
             if desde_l t agenda \<ge> INTERVALO_HUELLA_MS then
               block [
                 as608ScanReset,
                 modify (\<lambda>w. w\<lparr>escaneoActivo := True\<rparr>),
                 bind tick32 (\<lambda>t2. modify (\<lambda>w. w\<lparr>agendaHuella := t2\<rparr>))]
             else ret ()))) (\<lambda>_.
     bind (gets escaneoActivo) (\<lambda>a2.
     if a2 then ir LEER_Y_VALIDAR_HUELLA else ret ())))"

definition esperar_sensores :: "(unit, 'z) mprog" where
  "esperar_sensores =
     bind (leer_rfid_str 10) (\<lambda>r.
     case r of
       Some t \<Rightarrow> block [modify (\<lambda>w. w\<lparr>rfidLeido := t\<rparr>), marcar, mostrar [(''PROCESANDO...'', 20)],
         ir VALIDAR_RFID]
     | None \<Rightarrow> programar_escaneo)"

definition leer_pin_mef :: "(int, 'z) mprog" where
  "leer_pin_mef =
     bind (gets pinIngresado) (\<lambda>pin.
     bind (gets ultimaPresencia) (\<lambda>act.
     bind (tecladoLeerPin pin act) (\<lambda>(res, pin', act').
     bind (modify (\<lambda>w. w\<lparr>pinIngresado := pin', ultimaPresencia := act'\<rparr>)) (\<lambda>_. ret res))))"

definition caso_ESPERANDO_ACCION :: "(unit, 'z) mprog" where
  "caso_ESPERANDO_ACCION =
     bind (gets eventoPresencia) (\<lambda>e.
     bind (if e then block [modify (\<lambda>w. w\<lparr>eventoPresencia := False\<rparr>), marcar] else ret ()) (\<lambda>_.
     bind (block [lineas [(''SISTEMA DE ACCESO'', 0), (''INGRESE PIN:'', 18)], display_update]) (\<lambda>_.
     bind leer_pin_mef (\<lambda>resultado.
     if resultado = 1 then block [marcar, ir VALIDAR]
     else if resultado = - 1 then acceso_admin
     else
       bind tickRead (\<lambda>t.
       bind (gets ultimaPresencia) (\<lambda>u.
       if desde_l t u > TIMEOUT_MS then ir REPOSO else esperar_sensores))))))"

text \<open>
  The identifier is a \<^verbatim>\<open>short int\<close> printed as \<^verbatim>\<open>unsigned\<close> into \<^verbatim>\<open>char idStr[5]\<close>:
  extended with its sign and cut to four characters.
\<close>

definition idStr :: "u16 \<Rightarrow> string" where
  "idStr i = cut_str 5 (fmt_04u (unat (scast i :: u32)))"

definition caso_LEER_HUELLA :: "(unit, 'z) mprog" where
  "caso_LEER_HUELLA =
     bind (as608ScanStep 0 0) (\<lambda>(s, i, score).
     bind (gets listaPins) (\<lambda>us.
     if s = AS608_SCAN_MATCH \<and> validarHuella us (idStr i) then
       bind display_clear (\<lambda>_.
       bind (lineas [(''ACCESO CONCEDIDO'', 20)]) (\<lambda>_.
       bind (bienvenida (obtenerTagPorHuella us (idStr i))) (\<lambda>b.
       block [
         lineas [(b, 35)], display_update, alertaExito,
         modify (\<lambda>w. w\<lparr>intentosFallidos := 0\<rparr>),
         abrir_si,
         ir SENSOR_CIERRE,
         modify (\<lambda>w. w\<lparr>escaneoActivo := False\<rparr>)])))
     else
       block [
         if s = AS608_SCAN_NOMATCH then
           block [
             mostrar [(''HUELLA NO'', 20), (''REGISTRADA'', 35)], alertaError, delay 1500, display_clear,
             modify (\<lambda>w. w\<lparr>escaneoActivo := False\<rparr>), marcar]
         else if s = AS608_SCAN_NOFINGER \<or> s = AS608_SCAN_ERROR then
           modify (\<lambda>w. w\<lparr>escaneoActivo := False\<rparr>)
         else ret (),
         ir ESPERANDO_ACCION]))"

definition caso_VALIDAR_RFID :: "(unit, 'z) mprog" where
  "caso_VALIDAR_RFID =
     bind (gets (\<lambda>w. obtenerTagPorRFID (listaPins w) (rfidLeido w))) (\<lambda>tg.
     if tg \<noteq> None then
       bind display_clear (\<lambda>_.
       bind (lineas [(''ACCESO CONCEDIDO'', 20)]) (\<lambda>_.
       bind (bienvenida tg) (\<lambda>b.
       block [
         lineas [(b, 10)], display_update, alertaExito, abrir_si, ir SENSOR_CIERRE,
         modify (\<lambda>w. w\<lparr>rfidLeido := []\<rparr>)])))
     else
       block [
         alertaError,
         mostrar [(''ACCESO DENEGADO'', 20), (''RFID NO REGISTRADO'', 35)],
         delay 1500, display_clear, tecladoReset, ir ESPERANDO_ACCION])"

definition pin_correcto :: "(unit, 'z) mprog" where
  "pin_correcto =
     bind (gets (\<lambda>w. obtenerTagPorPin (listaPins w) (pinIngresado w))) (\<lambda>tg.
     bind (if tg \<noteq> None then
             bind (lineas [(''ACCESO CONCEDIDO'', 20)]) (\<lambda>_.
             bind (bienvenida tg) (\<lambda>b. lineas [(b, 35)]))
           else lineas [(''ACCESO CONCEDIDO'', 20), (''SIN ETIQUETA'', 35)]) (\<lambda>_.
     block [
       alertaExito,
       modify (\<lambda>w. w\<lparr>intentosFallidos := 0\<rparr>),
       ir SENSOR_CIERRE,
       display_update,
       abrirCerradura,
       delay 1200,
       display_clear]))"

definition pin_incorrecto :: "(unit, 'z) mprog" where
  "pin_incorrecto =
     bind (block [alertaError, modify (\<lambda>w. w\<lparr>intentosFallidos := intentosFallidos w + 1\<rparr>),
       lineas [(''ACCESO DENEGADO '', 10)]]) (\<lambda>_.
     bind (gets intentosFallidos) (\<lambda>k.
     bind (store_str 40 (''INTENTOS = '' @ fmt_d k @ '' de 3'')) (\<lambda>b.
     block [
       lineas [(b, 25)],
       if k = 3 then
         block [lineas [(''ALERTA INTRUSO '', 40)], modify (\<lambda>w. w\<lparr>intentosFallidos := 0\<rparr>), alertaError]
       else ret (),
       tecladoReset, display_update, delay 1000, display_clear, ir ESPERANDO_ACCION])))"

definition caso_VALIDAR :: "(unit, 'z) mprog" where
  "caso_VALIDAR =
     bind display_clear (\<lambda>_.
     bind (gets (\<lambda>w. validarPin (listaPins w) (pinIngresado w))) (\<lambda>ok.
     if ok then pin_correcto else pin_incorrecto))"

definition caso_SENSOR_CIERRE :: "(unit, 'z) mprog" where
  "caso_SENSOR_CIERRE =
     bind (block [lineas [(''CERRADURA'', 40), (''ABIERTA'', 60)], display_update]) (\<lambda>_.
     if OMITIR_SENSOR_CIERRE then
       block [delay 4000, cerrarCerradura, display_clear, ir ESPERANDO_ACCION]
     else
       bind (Chip_GPIO_GetPinState SENSORHALL_GPIO_PORT SENSORHALL_GPIO_PIN) (\<lambda>sensorState.
       block [
         if \<not> sensorState then
           block [
             if \<not> OMITIR_MOTOR then cerrarCerradura else ret (),
             marcar, ir ESPERANDO_ACCION, display_clear]
         else ret (),
         delay 500]))"

section \<open>Administrator menu\<close>

definition leer_opcion :: "(char, 'z) mprog" where
  "leer_opcion = loop (\<lambda>_.
     bind tecladoLeerTecla (\<lambda>k.
     bind (delay 60) (\<lambda>_.
     ret (case k of None \<Rightarrow> Inl () | Some c \<Rightarrow> if c = NUL then Inl () else Inr c)))) ()"

definition opcion_wifi :: "(unit, 'z) mprog" where
  "opcion_wifi =
     bind (mostrar [(''RESET WiFi '', 30)]) (\<lambda>_.
     bind resetearCredencialesESP (\<lambda>ok.
     block [
       if ok then
         block [
           mostrar [(''RECONECTANDO ESP...'', 30)], delay 3000, void (inicializarESP 60000),
           mostrar [(''CONFIGURAR WiFi:'', 10), (''USA LA APP'', 25), (entre_comillas ''ESP BluFI'', 40)],
           delay 5000]
       else mostrar [(''ERROR AL RESETEAR ESP'', 30)],
       delay 1000, display_clear, marcar, ir ESPERANDO_ACCION]))"

text \<open>A PIN, \<open>None\<close> after \<open>limite\<close> milliseconds of inactivity; the source writes this loop out twice.\<close>

definition leer_pin_hasta :: "u64 \<Rightarrow> (string \<times> bool, 'z) mprog" where
  "leer_pin_hasta limite =
     bind tick32 (\<lambda>t0.
     loop (\<lambda>(pin, tAuth).
       bind (tecladoLeerPin pin tAuth) (\<lambda>(res, pin', tAuth').
       if res = 1 then ret (Inr (pin', True))
       else
         bind tickRead (\<lambda>t.
         if desde_l t tAuth' > limite then ret (Inr (pin', False))
         else bind (delay 50) (\<lambda>_. ret (Inl (pin', tAuth')))))) ([], t0))"

definition borrar_todas :: "(unit, 'z) mprog" where
  "borrar_todas =
     bind (mostrar [(''BORRANDO...'', 10)]) (\<lambda>_.
     bind as608ClearAllTemplates (\<lambda>ok.
     block [
       if ok then
         block [
           sobre_tabla (\<lambda>us. Inr ((), eliminarTodasHuellasLocal us)),
           void espBorrarTodasHuellasServidor,
           lineas [(''SENSOR SIN'', 30), (''HUELLAS'', 40)],
           alertaExito]
       else block [lineas [(''3RROR SENSOR'', 40)], alertaError],
       display_update, delay 2000, display_clear]))"

text \<open>The identifier assigned to a valid PIN; \<open>None\<close> for an invalid one.\<close>

definition huella_de :: "string \<Rightarrow> (string option, 'z) mprog" where
  "huella_de pin =
     bind (gets listaPins) (\<lambda>us.
     case obtenerHuellaAsignadaPorPin us pin of Inl e \<Rightarrow> fault e | Inr r \<Rightarrow> ret r)"

definition borrar_id :: "string \<Rightarrow> string \<Rightarrow> (unit, 'z) mprog" where
  "borrar_id pinTarget i =
     (let idSensor = (of_int (atoi i) :: u16) in
      bind display_clear (\<lambda>_.
      bind (lineas [(''SE BORRARA'', 20)]) (\<lambda>_.
      bind (store_str 30 (''ID = , '' @ fmt_u (unat idSensor))) (\<lambda>b.
      bind (block [lineas [(b, 35)], display_update, delay 5000]) (\<lambda>_.
      bind (as608DeleteId idSensor) (\<lambda>ok.
      if ok then
        block [
          void (sobre_tabla (\<lambda>us. Inr (eliminarHuellaLocal us pinTarget))),
          void (espBorrarHuellaServidor pinTarget),
          display_clear, lineas [(''HUELLA BORRADA'', 20)], alertaExito]
      else block [lineas [(''ERROR SENSOR'', 40)], alertaError]))))))"

definition borrar_una :: "(unit, 'z) mprog" where
  "borrar_una =
     bind (mostrar [(''PIN DE USUARIO'', 10), (''A BORRAR:'', 22)]) (\<lambda>_.
     bind (leer_pin_hasta 15000) (\<lambda>(pinTarget, _).
     bind (gets (\<lambda>w. validarPin (listaPins w) pinTarget)) (\<lambda>valido.
     bind (if valido then huella_de pinTarget else ret None) (\<lambda>h.
     block [
       case h of
         Some i \<Rightarrow> borrar_id pinTarget i
       | None \<Rightarrow> block [display_clear, lineas [(''NO TIENE HUELLA'', 20), (''O PIN INVALIDO'', 40)], alertaError],
       display_update, delay 2000, display_clear]))))"

definition leer_subopcion :: "(char option, 'z) mprog" where
  "leer_subopcion =
     bind tick32 (\<lambda>tSub.
     loop (\<lambda>_.
       bind tickRead (\<lambda>t.
       if desde_l t tSub < 10000 then
         bind tecladoLeerTecla (\<lambda>k.
         bind (delay 50) (\<lambda>_.
         ret (if k = Some (CHR ''1'') \<or> k = Some (CHR ''2'') then Inr k else Inl ())))
       else ret (Inr None))) ())"

definition opcion_borrar :: "(unit, 'z) mprog" where
  "opcion_borrar =
     bind (mostrar [(''SEGURIDAD:'', 10), (''PIN MASTER?'', 22)]) (\<lambda>_.
     bind (leer_pin_hasta 10000) (\<lambda>(pinAuth, completo).
     bind (gets (\<lambda>w. esPinMaster (listaPins w) pinAuth)) (\<lambda>maestro.
     if \<not> completo \<or> \<not> maestro then
       block [mostrar [(''ERROR SEGURIDAD'', 30)], alertaError, delay 1500]
     else
       bind (mostrar [(''1=BORRAR TODAS'', 10), (''2=BORRAR UNA'', 22)]) (\<lambda>_.
       bind leer_subopcion (\<lambda>subOp.
       block [
         if subOp = Some (CHR ''1'') then borrar_todas
         else if subOp = Some (CHR ''2'') then borrar_una
         else ret (),
         marcar, ir ESPERANDO_ACCION])))))"

definition caso_MENU_ADMIN :: "(unit, 'z) mprog" where
  "caso_MENU_ADMIN =
     bind (block [
       display_clear,
       display_println ''MENU ADMINISTRADOR'' 0,
       display_printAt ''1=Registrar RFID'' 0 16,
       display_printAt ''2=Registrar Huella'' 0 30,
       display_printAt ''3=Reset WiFi'' 0 35,
       display_printAt ''4=Borrar Huellas'' 0 42,
       display_printAt ''5=Sinc. con servidor'' 0 49,
       display_update]) (\<lambda>_.
     bind leer_opcion (\<lambda>opcion.
     if opcion = CHR ''1'' then ir REGISTRAR_RFID
     else if opcion = CHR ''2'' then ir REGISTRAR_HUELLA
     else if opcion = CHR ''3'' then opcion_wifi
     else if opcion = CHR ''4'' then opcion_borrar
     else if opcion = CHR ''5'' then block [void sincronizarConServidor, marcar, ir ESPERANDO_ACCION]
     else block [mostrar [(''OPCION INVALIDA'', 30)], display_clear, marcar, ir ESPERANDO_ACCION]))"

section \<open>Registration\<close>

text \<open>
  Both registrations first ask for the PIN of a user, with the same code. A
  time-out leaves only the inner loop: it changes the state, counts as a failed
  attempt, and the outer loop goes on.
\<close>

definition pedir_pin_paso :: "string \<Rightarrow> u32 \<Rightarrow> (string \<times> u32, 'z) mprog" where
  "pedir_pin_paso pin0 timer0 = loop (\<lambda>(pin, timer).
     bind (tecladoLeerPin pin timer) (\<lambda>(res, pin', timer').
     if res = 1 then ret (Inr (pin', timer'))
     else
       bind tickRead (\<lambda>t.
       if desde_l t timer' > 15000 then
         bind (block [display_clear, marcar, ir ESPERANDO_ACCION]) (\<lambda>_. ret (Inr (pin', timer')))
       else bind (delay 50) (\<lambda>_. ret (Inl (pin', timer')))))) (pin0, timer0)"

definition pedir_pin :: "(string, 'z) mprog" where
  "pedir_pin =
     bind tick32 (\<lambda>t0.
     loop (\<lambda>(intentos, pin, timer).
       bind (mostrar [(''INGRESE PIN USUARIO'', 30)]) (\<lambda>_.
       bind (pedir_pin_paso pin timer) (\<lambda>(pin', timer').
       bind (gets (\<lambda>w. validarPin (listaPins w) pin')) (\<lambda>valido.
       if valido then ret (Inr pin')
       else
         bind (block [alertaError, display_clear, lineas [(''PIN INVALIDO'', 20)]]) (\<lambda>_.
         bind (store_str 40 (''INTENTOS = '' @ fmt_d (intentos + 1) @ '' de 3'')) (\<lambda>b.
         bind (block [lineas [(b, 40)], display_update, delay 1500]) (\<lambda>_.
         if intentos + 1 \<ge> 3 then
           bind (block [display_clear, lineas [(''DEMASIADOS INTENTOS'', 20)], delay 2000, display_clear,
             marcar, ir ESPERANDO_ACCION]) (\<lambda>_. ret (Inr pin'))
         else ret (Inl (intentos + 1, pin', timer'))))))))) (0 :: int, [], t0))"

definition esperar_tarjeta :: "(unit, 'z) mprog" where
  "esperar_tarjeta =
     bind tick32 (\<lambda>timer.
     bind (block [lineas [(''ACERQUE TARJETA'', 20)], display_update]) (\<lambda>_.
     loop (\<lambda>_.
       bind (leer_rfid_str 10) (\<lambda>r.
       case r of
         Some x \<Rightarrow> bind (modify (\<lambda>w. w\<lparr>rfidLeido := x\<rparr>)) (\<lambda>_. ret (Inr ()))
       | None \<Rightarrow>
           bind tickRead (\<lambda>t.
           if desde_l t timer > 15000 then
             bind (block [display_clear, marcar, ir ESPERANDO_ACCION]) (\<lambda>_. ret (Inr ()))
           else bind (delay 50) (\<lambda>_. ret (Inl ()))))) ()))"

definition guardar_tarjeta :: "string \<Rightarrow> (unit, 'z) mprog" where
  "guardar_tarjeta pin =
     bind (gets rfidLeido) (\<lambda>x.
     bind (block [
       alertaExito,
       void (sobre_tabla (\<lambda>us. asociarRFIDaPin us pin x)),
       mostrar [(''TARJETA GUARDADA'', 20), (''Sincronizando servidor'', 40)]]) (\<lambda>_.
     bind (espEnviarNuevoRFID pin x) (\<lambda>ok.
     block [
       display_clear,
       lineas [(if ok then ''NUBE: OK'' else ''NUBE: ERROR'', 40)],
       display_update, delay 2000, display_clear, marcar, ir ESPERANDO_ACCION])))"

definition caso_REGISTRAR_RFID :: "(unit, 'z) mprog" where
  "caso_REGISTRAR_RFID =
     bind (block [mostrar [(''REGISTRAR TARJETA'', 20)], delay 1500]) (\<lambda>_.
     bind pedir_pin (\<lambda>pinValidado.
     bind (gets estadoActual) (\<lambda>e.
     if e = ESPERANDO_ACCION then ret ()
     else
       bind esperar_tarjeta (\<lambda>_.
       bind (gets estadoActual) (\<lambda>e2.
       if e2 = ESPERANDO_ACCION then ret () else guardar_tarjeta pinValidado)))))"

text \<open>Up to five attempts to enrol; \<open>None\<close> when all failed.\<close>

definition enrolar :: "u16 \<Rightarrow> (string option, 'z) mprog" where
  "enrolar idObjetivo = for_find [1, 2, 3, 4, 5] (\<lambda>k :: nat.
     bind (as608EnrollAtId idObjetivo) (\<lambda>(ok, idResultado).
     if ok then ret (Some idResultado)
     else
       bind (block [alertaError, display_clear, lineas [(''ERROR REGISTRANDO'', 20)]]) (\<lambda>_.
       bind (store_str 40 (''INTENTOS = '' @ fmt_u k @ '' de 5'')) (\<lambda>b.
       bind (block [lineas [(b, 40)], display_update, delay 1500]) (\<lambda>_. ret None)))))"

definition guardar_huella :: "string \<Rightarrow> string \<Rightarrow> (unit, 'z) mprog" where
  "guardar_huella pin idResultado =
     bind (block [
       void (sobre_tabla (\<lambda>us. Inr (asociarHuellaaPin us pin idResultado))),
       mostrar [(''HUELLA GUARDADA'', 10), (''SUBIENDO...'', 30)],
       alertaExito, delay 1500]) (\<lambda>_.
     bind (espEnviarNuevaHuella pin idResultado) (\<lambda>ok.
     block [
       lineas [(if ok then ''NUBE: OK'' else ''NUBE: ERROR'', 50)],
       display_update, ir ESPERANDO_ACCION, delay 1500, display_clear, marcar]))"

definition registrar_id :: "string \<Rightarrow> string \<Rightarrow> (unit, 'z) mprog" where
  "registrar_id pin i =
     (let idObjetivo = (of_int (atoi i) :: u16) in
      bind (block [display_clear, lineas [(''COLOCAR DEDO EN'', 20), (''SENSOR'', 30)]]) (\<lambda>_.
      bind (store_str 20 (''ID ASIGNADO: '' @ fmt_d (sint idObjetivo))) (\<lambda>b.
      bind (block [lineas [(b, 50)], display_update, delay 2000]) (\<lambda>_.
      bind (enrolar idObjetivo) (\<lambda>r.
      case r of
        None \<Rightarrow> block [mostrar [(''FALL'' @ [CHR 0xC3, CHR 0x93] @ '' REGISTRO'', 20)], delay 2000,
          display_clear, marcar, ir ESPERANDO_ACCION]
      | Some idResultado \<Rightarrow> guardar_huella pin idResultado)))))"

definition caso_REGISTRAR_HUELLA :: "(unit, 'z) mprog" where
  "caso_REGISTRAR_HUELLA =
     bind (mostrar [(''REGISTRAR HUELLA'', 10), (''INGRESE PIN USUARIO'', 22)]) (\<lambda>_.
     bind pedir_pin (\<lambda>pinValidado.
     bind (gets estadoActual) (\<lambda>e.
     if e = ESPERANDO_ACCION then ret ()
     else
       bind (huella_de pinValidado) (\<lambda>h.
       case h of
         Some i \<Rightarrow> registrar_id pinValidado i
       | None \<Rightarrow> block [lineas [(''ERROR BASE DATOS'', 30)], display_update, delay 1500, display_clear,
           marcar]))))"

section \<open>The machine\<close>

definition mefInit :: "(unit, 'z) mprog" where
  "mefInit = block [
     configurarPines,
     if ALERTAS_ENABLE then alertasInit else ret (),
     if SENSOR_WIFI_ENABLE then
       block [
         mostrar [(''CONECTANDO WIFI...'', 20)],
         espATInit 115200,
         bind (inicializarESP 10000) (\<lambda>wifiOk.
         if wifiOk then ret ()
         else loop (\<lambda>_.
           bind (mostrar [(''REINTENTO WIFI...'', 20)]) (\<lambda>_.
           bind (inicializarESP 5000) (\<lambda>ok. ret (if ok then Inr () else Inl ())))) ()),
         void sincronizarConServidor]
     else ret (),
     if SENSOR_HUELLA_ENABLE then block [as608Init 0, as608SetDebug 1, as608ScanReset] else ret (),
     configurarInterrupcionPRESENCIA,
     NVIC_DisableIRQ,
     rc522_hw_init,
     rc522_init_iso14443a,
     mostrar [(''CERRADURA ELECTRONICA'', 20), (''INICIADA'', 35)],
     delay 1000,
     display_clear,
     marcar,
     ir ESPERANDO_ACCION]"

definition mefUpdate :: "(unit, 'z) mprog" where
  "mefUpdate =
     bind (gets estadoActual) (\<lambda>e.
     case e of
       REPOSO \<Rightarrow> caso_REPOSO
     | ESPERANDO_ACCION \<Rightarrow> caso_ESPERANDO_ACCION
     | LEER_Y_VALIDAR_HUELLA \<Rightarrow> caso_LEER_HUELLA
     | VALIDAR_RFID \<Rightarrow> caso_VALIDAR_RFID
     | VALIDAR \<Rightarrow> caso_VALIDAR
     | SENSOR_CIERRE \<Rightarrow> caso_SENSOR_CIERRE
     | BLOQUEADO \<Rightarrow> ret ()
     | MENU_ADMIN \<Rightarrow> caso_MENU_ADMIN
     | REGISTRAR_RFID \<Rightarrow> caso_REGISTRAR_RFID
     | REGISTRAR_HUELLA \<Rightarrow> caso_REGISTRAR_HUELLA)"

text \<open>Everything before the endless loop of \<^verbatim>\<open>main\<close>.\<close>

definition arranque :: "(unit, 'z) mprog" where
  "arranque = block [boardInit, display_init, driverConfig, tecladoInit, mefInit]"

text \<open>
  \<^verbatim>\<open>while(true) mefUpdate()\<close>. A round that does not look at the hardware is
  followed by one that does (theory Mef\_Maquina, lemma \<open>mefUpdate_avanza\<close>), so twice the script is enough:
  the bound is not what ends the loop.
\<close>

definition main_c :: "(unit, 'z) mprog" where
  "main_c =
     bind arranque (\<lambda>_. (\<lambda>w.
     iter (2 * length (script w) + 2) (\<lambda>_. bind mefUpdate (\<lambda>_. ret (Inl ()))) () w))"

text \<open>The memory at power-up.\<close>

definition mef0 :: "ev list list \<Rightarrow> mef" where
  "mef0 sc = hw0 sc (disp_ext (\<lambda>_. 0) 0 0 [] (tecl_ext \<lparr>keypadRowPins = [], keypadColPins = []\<rparr>
     (replicate 6 NUL) 0 False 0xFFFF (as608_ext scan0 0 (esp_ext False (val_ext listaPins_init
     (mef_ext REPOSO [] 0 0 (Fin 0) [] 0 False ()))))))"

end
