(* ===== verification/Mef_Frame.thy ===== *)
theory Mef_Frame
  imports Mef
begin

text \<open>
  The interface of a relation that the whole state machine respects, and what
  follows from it: every loop of the machine makes progress, and the cases that
  do not open or close leave the motor alone.
\<close>

section \<open>The interface\<close>

locale mef_stable = val_stable r pins usarts + tecl_stable r pins usarts + rc522_stable r pins usarts
  + as608_stable r pins usarts
  for r :: "'z mef_scheme \<Rightarrow> 'z mef_scheme \<Rightarrow> bool" and pins usarts +
  assumes r_estado: "r w (w\<lparr>estadoActual := e\<rparr>)"
    and r_pinIngresado: "r w (w\<lparr>pinIngresado := p, ultimaPresencia := u\<rparr>)"
    and r_intentos: "r w (w\<lparr>intentosFallidos := k\<rparr>)"
    and r_presencia: "r w (w\<lparr>ultimaPresencia := u\<rparr>)"
    and r_version: "r w (w\<lparr>ultimaVersionConocida := v\<rparr>)"
    and r_rfid: "r w (w\<lparr>rfidLeido := x\<rparr>)"
    and r_agenda: "r w (w\<lparr>agendaHuella := u\<rparr>)"
    and r_escaneo: "r w (w\<lparr>escaneoActivo := b\<rparr>)"
    and buzzer: "BUZZER_PIN \<in> pins"
begin

lemmas within_alerta = within_alertas [OF buzzer, THEN conjunct1]
  within_alertas [OF buzzer, THEN conjunct2, THEN conjunct1]
  within_alertas [OF buzzer, THEN conjunct2, THEN conjunct2]

lemma within_ir: "respeta r (ir e)"
  unfolding ir_def by (intro within_modify r_estado)

lemma within_marcar: "respeta r marcar"
  unfolding marcar_def by (intro within_bind within_tick32 within_modify r_presencia)

lemma within_lineas: "respeta r (lineas ls)"
  unfolding lineas_def by (intro within_for_each within_splits disp_rules)

lemma within_mostrar: "respeta r (mostrar ls)"
  unfolding mostrar_def by (intro within_block) (auto intro!: disp_rules within_lineas)

lemmas mef_ops = val_rules tecl_rules as608_rules rc522_rules within_alerta within_ir within_marcar
  within_lineas within_mostrar within_store_str

lemmas mef_mods = r_estado r_pinIngresado r_intentos r_presencia r_version r_rfid r_agenda r_escaneo

lemma within_entrarModoSleep: "respeta r entrarModoSleep"
  unfolding entrarModoSleep_def reconectar_def verificarVersion_def dormir_def
  by (intro within_bind within_splits within_block within_gets within_ret)
    (auto intro!: mef_ops within_block r_version)

lemma within_caso_REPOSO: "respeta r caso_REPOSO"
  unfolding caso_REPOSO_def by (intro within_block) (auto intro!: mef_ops within_entrarModoSleep)

lemma within_acceso_admin: "respeta r acceso_admin"
  unfolding acceso_admin_def pinAdmin_def
  by (intro within_bind within_splits within_loop within_block mef_ops)
    (auto intro!: mef_ops)

lemma within_esperar_sensores: "respeta r esperar_sensores"
  unfolding esperar_sensores_def programar_escaneo_def
  by (intro within_bind within_splits within_block mef_ops)
    (auto intro!: mef_ops mef_mods within_bind)

lemma within_caso_ESPERANDO: "respeta r caso_ESPERANDO_ACCION"
  unfolding caso_ESPERANDO_ACCION_def leer_pin_mef_def
  by (intro within_bind within_splits within_block mef_ops within_acceso_admin within_esperar_sensores)
    (auto intro!: mef_ops mef_mods)

lemma within_bienvenida: "respeta r (bienvenida tg)"
  unfolding bienvenida_def by (intro within_splits within_fault within_store_str)

lemma within_pin_incorrecto: "respeta r pin_incorrecto"
  unfolding pin_incorrecto_def
  by (intro within_bind within_block mef_ops) (auto intro!: mef_ops mef_mods within_block)

lemma within_leer_opcion: "respeta r leer_opcion"
  unfolding leer_opcion_def by (intro within_loop within_bind within_splits mef_ops)

lemma within_leer_pin_hasta: "respeta r (leer_pin_hasta t)"
  unfolding leer_pin_hasta_def by (intro within_loop within_bind within_splits mef_ops)

lemma within_opcion_wifi: "respeta r opcion_wifi"
  unfolding opcion_wifi_def
  by (intro within_bind within_block mef_ops) (auto intro!: mef_ops within_block)

lemma within_huella_de: "respeta r (huella_de p)"
  unfolding huella_de_def by (intro within_bind within_splits within_rules)

lemma within_borrar_todas: "respeta r borrar_todas"
  unfolding borrar_todas_def
  by (intro within_bind within_block mef_ops) (auto intro!: mef_ops within_block)

lemma within_borrar_id: "respeta r (borrar_id p i)"
  unfolding borrar_id_def
  by (intro within_bind within_splits within_block mef_ops) (auto intro!: mef_ops)

lemma within_borrar_una: "respeta r borrar_una"
  unfolding borrar_una_def
  by (intro within_bind within_splits within_block mef_ops within_leer_pin_hasta within_huella_de)
    (auto intro!: mef_ops within_block within_borrar_id split: option.split)

lemma within_opcion_borrar: "respeta r opcion_borrar"
  unfolding opcion_borrar_def leer_subopcion_def
  by (intro within_bind within_splits within_block mef_ops within_leer_pin_hasta)
    (auto intro!: mef_ops within_borrar_todas within_borrar_una)

lemma within_caso_MENU: "respeta r caso_MENU_ADMIN"
  unfolding caso_MENU_ADMIN_def
  by (intro within_bind within_splits within_block mef_ops within_leer_opcion within_opcion_wifi
      within_opcion_borrar)
    (auto intro!: mef_ops)

lemma within_pedir_pin_paso: "respeta r (pedir_pin_paso pin t)"
  unfolding pedir_pin_paso_def
  by (intro within_bind within_splits within_loop within_block mef_ops) (auto intro!: mef_ops)

lemma within_pedir_pin: "respeta r pedir_pin"
  unfolding pedir_pin_def
  by (intro within_bind within_splits within_loop within_block mef_ops within_pedir_pin_paso)
    (auto intro!: mef_ops)

lemma within_caso_REGISTRAR_RFID: "respeta r caso_REGISTRAR_RFID"
  unfolding caso_REGISTRAR_RFID_def esperar_tarjeta_def guardar_tarjeta_def
  by (intro within_bind within_splits within_loop within_block mef_ops within_pedir_pin mef_mods)
    (auto intro!: mef_ops)

lemma within_registrar_id: "respeta r (registrar_id p i)"
  unfolding registrar_id_def enrolar_def guardar_huella_def
  by (intro within_bind within_splits within_for_find within_block mef_ops within_as608EnrollAtId)
    (auto intro!: mef_ops)

lemma within_caso_REGISTRAR_HUELLA: "respeta r caso_REGISTRAR_HUELLA"
  unfolding caso_REGISTRAR_HUELLA_def
  by (intro within_bind within_splits within_block mef_ops within_pedir_pin within_huella_de
      within_registrar_id)
    (auto intro!: mef_ops)

text \<open>The cases that move the motor, for a relation that allows it.\<close>

lemma within_abrir_si: "motor_pins \<subseteq> pins \<Longrightarrow> respeta r abrir_si"
  unfolding abrir_si_def using within_motor by (intro within_splits within_ret) auto

lemma within_aperturas:
  assumes "motor_pins \<subseteq> pins"
  shows "respeta r caso_LEER_HUELLA" "respeta r caso_VALIDAR_RFID" "respeta r caso_VALIDAR"
    "respeta r caso_SENSOR_CIERRE"
proof -
  have m: "respeta r abrirCerradura" "respeta r cerrarCerradura" using within_motor [OF assms] by auto
  note a = within_abrir_si [OF assms]
  show "respeta r caso_LEER_HUELLA"
    unfolding caso_LEER_HUELLA_def
    by (intro within_bind within_splits within_block mef_ops within_bienvenida)
      (auto intro!: mef_ops mef_mods a within_block)
  show "respeta r caso_VALIDAR_RFID"
    unfolding caso_VALIDAR_RFID_def
    by (intro within_bind within_splits within_block mef_ops within_bienvenida)
      (auto intro!: mef_ops mef_mods a within_block)
  show "respeta r caso_VALIDAR"
    unfolding caso_VALIDAR_def pin_correcto_def
    by (intro within_bind within_splits within_block mef_ops within_bienvenida within_pin_incorrecto)
      (auto intro!: mef_ops mef_mods m within_block)
  show "respeta r caso_SENSOR_CIERRE"
    unfolding caso_SENSOR_CIERRE_def
    by (intro within_bind within_splits within_block mef_ops)
      (auto intro!: mef_ops mef_mods m within_block)
qed

lemmas mef_casos = within_caso_REPOSO within_caso_ESPERANDO within_caso_MENU within_caso_REGISTRAR_RFID
  within_caso_REGISTRAR_HUELLA

end

section \<open>Progress\<close>

interpretation shr: mef_stable shrinks UNIV UNIV
  by unfold_locales (simp_all add: shrinks_def)

lemma consumes_mostrar: "consumes (mostrar ls :: (unit, 'z) mprog)"
  unfolding mostrar_def
proof (rule consumes_block [where m = display_update])
  show "consumes display_update"
    unfolding display_update_def
    by (rule consumes_block [where m = poll])
      (auto intro!: consumes_poll shr.sapi_rules shr.within_block simp: ssd1306_cmd_def ssd1306_data_def)
qed (auto intro!: shr.disp_rules shr.within_lineas)

lemma consumes_leer_rfid: "consumes (leer_rfid_str n)"
proof -
  have w: "consumes transceive_wait"
    unfolding transceive_wait_def
    by (intro consumes_bind consumes_tickRead shr.within_loop shr.sapi_rules within_splits shr.within_read_reg)
  have "consumes (transceive bs k)" for bs k
    unfolding transceive_def
    by (intro consumes_bind consumes_block [OF _ _ w] within_splits shr.within_bind shr.within_ret
        shr.within_read_reg shr.within_leer_fifo)
      (auto intro!: shr.sapi_rules shr.within_write_reg shr.within_set_clr shr.within_transceive_wait)
  then have "consumes rc522_requestA"
    unfolding rc522_requestA_def
    by (intro consumes_despues [OF shr.within_write_reg] consumes_bind within_splits shr.within_bind
        shr.within_ret shr.within_write_reg)
  then show ?thesis
    unfolding leer_rfid_str_def rc522_anticoll_cl1_def
    by (intro consumes_bind within_splits shr.within_bind shr.within_ret shr.within_write_reg
        shr.within_transceive)
qed

text \<open>A complete PIN comes with a time stamp; otherwise the caller looks at the clock itself.\<close>

lemma leerPin_completo_consume:
  assumes "tecladoLeerPin pin act w = Ret (1, p, t) w'"
  shows "length (script w') < length (script w)"
proof -
  obtain r w1 where r: "keypadRead (keypad w) w = Ret r w1"
    using assms by (auto simp: tecladoLeerPin_def bind_gets bind_eq_Ret)
  have "respeta shrinks (keypadRead (keypad w))" by (rule shr.within_keypadRead) simp
  from within_Ret [OF this r] have l1: "length (script w1) \<le> length (script w)" by (simp add: shrinks_def)
  have b: "bind (keypadRead (keypad w)) g w = g r w1" for g :: "u16 option \<Rightarrow> (int \<times> string \<times> u32, 'a) tprog"
    using r by (simp add: bind_apply)
  obtain i c w2 where i: "r = Some i" "tecla_de i (w1\<lparr>keyHeld := True, lastIndex := i\<rparr>) = Ret c w2"
    and p: "procesar_tecla pin c w2 = Ret (1, p, t) w'"
    using assms by (auto simp: tecladoLeerPin_def bind_gets b bind_modify bind_eq_Ret
        split: option.splits if_splits)
  have "length (script w2) \<le> length (script w1)"
    using within_Ret [OF shr.within_tecla_de i(2)] by (simp add: shrinks_def)
  moreover have "consumes (procesar_tecla pin c)"
    unfolding procesar_tecla_def completar_def
    by (intro consumes_bind consumes_tickRead within_splits shr.within_bind shr.tecl_rules
        shr.within_acumular shr.within_limpiar)
  ultimately show ?thesis using p l1 by (fastforce simp: consumes_def)
qed

lemma consumes_leerPin_bind:
  assumes "\<And>res p t. res \<noteq> 1 \<Longrightarrow> consumes (f (res, p, t))" and "\<And>p t. respeta shrinks (f (1, p, t))"
  shows "consumes (bind (tecladoLeerPin pin act) f)"
  unfolding consumes_def bind_eq_Ret
proof (intro allI impI, elim exE conjE)
  fix w y w2 x w1
  assume x: "tecladoLeerPin pin act w = Ret x w1" and f: "f x w1 = Ret y w2"
  obtain res p t where e: "x = (res, p, t)" by (cases x) auto
  show "length (script w2) < length (script w)"
  proof (cases "res = 1")
    case True
    then show ?thesis
      using leerPin_completo_consume [of pin act w p t w1] within_Ret [OF assms(2)] x f e
      by (fastforce simp: shrinks_def)
  next
    case False
    then show ?thesis
      using within_Ret [OF shr.within_tecladoLeerPin x] assms(1) f e
      by (fastforce simp: shrinks_def consumes_def)
  qed
qed

section \<open>The motor\<close>

text \<open>With the keypad of the board, nothing but \<^verbatim>\<open>abrirCerradura\<close> and \<^verbatim>\<open>cerrarCerradura\<close> moves the motor.\<close>

lemma env_frame_motor: "env_frame w w' \<Longrightarrow> teclado_motor w w'"
  unfolding teclado_motor_def using motor_gpioLog env_frame_gpioLog env_frame_tecl
  by (metis tecl_frame_def)

lemma filas_no_motor: "p \<in> set rowPins \<Longrightarrow> gpio_of p = Some q \<Longrightarrow> q \<notin> motor_pins"
  using gpio_of_rows by (fastforce simp: row_gpios_def motor_pins_def motor_pin_defs)

lemma teclado_motor_filas:
  "(\<forall>p \<in> set (keypadRowPins (keypad w)). \<forall>q. gpio_of p = Some q \<longrightarrow> q \<in> - motor_pins) \<or>
   (\<forall>w'. teclado_motor w w')"
  by (cases "keypad w = teclado_k") (auto simp: teclado_motor_def teclado_k_def dest: filas_no_motor)

lemma perifericos_no_motor: "rc522_pins \<subseteq> - motor_pins" "BUZZER_PIN \<in> - motor_pins"
  by (auto simp: rc522_pins_def BUZZER_PIN_def motor_pins_def motor_pin_defs)

interpretation mt: mef_stable teclado_motor "- motor_pins" UNIV
  by (unfold_locales; (rule teclado_motor_filas perifericos_no_motor)?)
    (simp_all add: within_poll_frame env_frame_motor,
     simp_all add: teclado_motor_def motor_set_pin motor_ev_otro, simp_all add: motor_def)

end
