(* ===== verification/Mef_Seguridad.thy ===== *)
theory Mef_Seguridad
  imports Mef_Frame
begin

text \<open>
  Access control: when the state machine moves the bolt. Every theorem here is
  about all outcomes of a step, also the runs that are still waiting or end in
  undefined behaviour.
\<close>

section \<open>What a program can return\<close>

definition da :: "('a \<Rightarrow> bool) \<Rightarrow> ('a, 's) prog \<Rightarrow> bool" where
  "da P m \<longleftrightarrow> (\<forall>w x w'. m w = Ret x w' \<longrightarrow> P x)"

lemma da_ret: "P x \<Longrightarrow> da P (ret x)"
  by (simp add: da_def)

lemma da_bind: "(\<And>x. da P (f x)) \<Longrightarrow> da P (bind m f)"
  by (auto simp: da_def bind_eq_Ret)

lemma da_If: "da P m \<Longrightarrow> da P n \<Longrightarrow> da P (if c then m else n)"
  by simp

lemma da_Let: "da P (f x) \<Longrightarrow> da P (let y = x in f y)"
  by simp

lemmas da_rules = da_bind da_If da_Let da_ret

text \<open>A step of the scan reports a match only from the state that holds one.\<close>

lemma scan_en_curso:
  "da (\<lambda>(s, _, _). s = AS608_SCAN_INPROGRESS) (scan_wait_getimage i c)"
  "da (\<lambda>(s, _, _). s = AS608_SCAN_INPROGRESS) (scan_wait_image2tz i c)"
  "da (\<lambda>(s, _, _). s = AS608_SCAN_INPROGRESS) (scan_wait_search i c)"
  unfolding scan_wait_getimage_def scan_wait_image2tz_def scan_wait_search_def
  by (auto intro!: da_rules simp: Let_def)

lemma scan_match:
  assumes "as608ScanStep i c w = Ret (AS608_SCAN_MATCH, j, d) w'"
  shows "st (g_scan w) = ST_DONE_MATCH \<and> j = lastId (g_scan w)"
proof -
  have p: "da (\<lambda>(s, _, _). s = AS608_SCAN_INPROGRESS) m \<Longrightarrow> m w \<noteq> Ret (AS608_SCAN_MATCH, j, d) w'"
    for m :: "(scan_out, 'a) aprog"
    by (fastforce simp: da_def)
  show ?thesis
    using assms p [OF scan_en_curso(1)] p [OF scan_en_curso(2)] p [OF scan_en_curso(3)]
    by (auto simp: as608ScanStep_def bind_gets scan_done_def bind_eq_Ret split: as608ScanState.splits)
qed

section \<open>Credentials\<close>

text \<open>
  What the machine has in its hands when it may open: a valid PIN in
  \<^verbatim>\<open>pinIngresado\<close>, a card in \<^verbatim>\<open>rfid\<close> that belongs to a user with a tag, or a match of
  the sensor with an identifier of a user.
\<close>

definition credencial :: "'z mef_scheme \<Rightarrow> bool" where
  "credencial w = (case estadoActual w of
       VALIDAR \<Rightarrow> validarPin (listaPins w) (pinIngresado w)
     | VALIDAR_RFID \<Rightarrow> obtenerTagPorRFID (listaPins w) (rfidLeido w) \<noteq> None
     | LEER_Y_VALIDAR_HUELLA \<Rightarrow> st (g_scan w) = ST_DONE_MATCH \<and>
         validarHuella (listaPins w) (idStr (lastId (g_scan w)))
     | _ \<Rightarrow> False)"

lemma final_bind_frame:
  assumes "respeta r m" and "\<And>s t u. r s t \<Longrightarrow> r t u \<Longrightarrow> r s u"
    and "\<And>x w'. m w = Ret x w' \<Longrightarrow> r w' (final (f x w'))"
  shows "r w (final (bind m f w))"
proof (cases "m w")
  case (Ret x w')
  from within_Ret [OF assms(1) Ret] assms(3) [OF Ret] show ?thesis
    by (simp add: bind_apply Ret) (rule assms(2))
qed (use withinD [OF assms(1), of w] in \<open>simp_all add: bind_apply\<close>)

interpretation tbs: as608_stable tabla_frame UNIV UNIV
  by unfold_locales (simp_all add: tabla_frame_def)

lemma sin_credencial_HUELLA:
  assumes "estadoActual w = LEER_Y_VALIDAR_HUELLA" and "\<not> credencial w"
  shows "teclado_motor w (final (caso_LEER_HUELLA w))"
  unfolding caso_LEER_HUELLA_def
proof (rule final_bind_frame [OF mt.within_as608ScanStep mt.r_trans], assumption+, goal_cases)
  case (1 x w')
  obtain s i c where x: "x = (s, i, c)" by (cases x) auto
  have "listaPins w' = listaPins w"
    using within_Ret [OF tbs.within_as608ScanStep 1] by (simp add: tabla_frame_def)
  then have n: "\<not> (s = AS608_SCAN_MATCH \<and> validarHuella (listaPins w') (idStr i))"
    using assms scan_match [of 0 0 w i c w'] 1 by (auto simp: x credencial_def)
  have "respeta teclado_motor (block [
         if s = AS608_SCAN_NOMATCH then
           block [
             mostrar [(''HUELLA NO'', 20), (''REGISTRADA'', 35)], alertaError, delay 1500, display_clear,
             modify (\<lambda>w. w\<lparr>escaneoActivo := False\<rparr>), marcar]
         else if s = AS608_SCAN_NOFINGER \<or> s = AS608_SCAN_ERROR then
           modify (\<lambda>w. w\<lparr>escaneoActivo := False\<rparr>)
         else ret (),
         ir ESPERANDO_ACCION] :: (unit, 'a) mprog)"
    by (intro mt.within_block) (auto intro!: mt.mef_ops mt.mef_mods mt.within_block)
  from withinD [OF this, of w'] n show ?case
    by (auto simp add: x bind_gets simp del: block.simps bind_block_Cons)
qed

lemma sin_credencial_RFID:
  assumes "estadoActual w = VALIDAR_RFID" and "\<not> credencial w"
  shows "teclado_motor w (final (caso_VALIDAR_RFID w))"
proof -
  have "respeta teclado_motor (block [
         alertaError,
         mostrar [(''ACCESO DENEGADO'', 20), (''RFID NO REGISTRADO'', 35)],
         delay 1500, display_clear, tecladoReset, ir ESPERANDO_ACCION] :: (unit, 'a) mprog)"
    by (intro mt.within_block) (auto intro!: mt.mef_ops)
  from withinD [OF this, of w] assms show ?thesis
    by (simp add: caso_VALIDAR_RFID_def bind_gets credencial_def del: block.simps bind_block_Cons)
qed

lemma sin_credencial_PIN:
  assumes "estadoActual w = VALIDAR" and "\<not> credencial w"
  shows "teclado_motor w (final (caso_VALIDAR w))"
  unfolding caso_VALIDAR_def
proof (rule final_bind_frame [OF mt.within_display_clear mt.r_trans], assumption+, goal_cases)
  case (1 x w')
  then have "\<not> validarPin (listaPins w') (pinIngresado w')"
    using assms by (auto simp: display_clear_def credencial_def)
  then show ?case using withinD [OF mt.within_pin_incorrecto, of w'] by (simp add: bind_gets)
qed

lemma sin_credencial_motor:
  assumes "keypad w = teclado_k" and "estadoActual w \<noteq> SENSOR_CIERRE" and "\<not> credencial w"
  shows "motor (final (mefUpdate w)) = motor w"
proof -
  have "teclado_motor w (final (mefUpdate w))"
    using assms(2,3) withinD [OF mt.within_caso_REPOSO, of w] withinD [OF mt.within_caso_ESPERANDO, of w]
      withinD [OF mt.within_caso_MENU, of w] withinD [OF mt.within_caso_REGISTRAR_RFID, of w]
      withinD [OF mt.within_caso_REGISTRAR_HUELLA, of w] sin_credencial_HUELLA [of w]
      sin_credencial_RFID [of w] sin_credencial_PIN [of w] mt.r_refl [of w]
    by (cases "estadoActual w") (simp_all add: mefUpdate_def bind_gets)
  with assms(1) show ?thesis by (simp add: teclado_motor_def)
qed

section \<open>Properties\<close>

text \<open>C2: No credential, no movement. In every state of the machine except the one that waits for the door
  to close, if there is no valid credential then a step of the machine does not move the bolt: whatever
  the environment does, and whether the step returns, is still waiting, or ends in undefined
  behaviour, the driver has taken no step.\<close>

theorem sin_credencial_no_se_mueve:
  assumes "keypad w = teclado_k" and "estadoActual w \<noteq> SENSOR_CIERRE" and "\<not> credencial w"
  shows "motor (final (mefUpdate w)) = motor w"
  by (rule sin_credencial_motor [OF assms])

theorem sin_credencial_no_se_mueve_witness:
  "\<forall>sc. motor (final (mefUpdate ((mef0 sc)\<lparr>keypad := teclado_k, estadoActual := VALIDAR,
     pinIngresado := ''99999''\<rparr>))) = motor0"
proof
  fix sc
  let ?w = "(mef0 sc)\<lparr>keypad := teclado_k, estadoActual := VALIDAR, pinIngresado := ''99999''\<rparr>"
  have "\<not> validarPin listaPins_init ''99999''"
    by (simp add: sin_pin listaPins_init_def es_pin_def usuario_cero_def)
  then have "\<not> credencial ?w" by (simp add: credencial_def mef0_def hw0_def)
  moreover have "motor ?w = motor0" by (simp add: motor_def mef0_def hw0_def)
  ultimately show "motor (final (mefUpdate ?w)) = motor0"
    using sin_credencial_no_se_mueve [of ?w] by simp
qed

end
