(* ===== verification/Mef_Control.thy ===== *)
theory Mef_Control
  imports Mef_Seguridad
begin

text \<open>
  The control state of the machine: what of the program's memory decides the
  access (state, user table, failed attempts, PIN and card read, motor), as an
  abstraction \<open>ctl\<close> of the whole memory. \<open>cumple E c m Q\<close> is the judgement of the
  refinement proofs: run from any memory whose control state is \<open>c\<close>, \<open>m\<close> does not
  hang, has no undefined behaviour but \<open>E\<close>, and returns with a control state that
  satisfies \<open>Q\<close>. Everything that does not touch the control state is \<open>quieto\<close>.
\<close>

section \<open>Abstraction\<close>

record ctl =
  c_estado :: EstadoMEF
  c_tabla :: tabla
  c_intentos :: int
  c_pin :: string
  c_rfid :: string
  c_motor :: motor_t

definition ctl :: "'z mef_scheme \<Rightarrow> ctl" where
  "ctl w = \<lparr>c_estado = estadoActual w, c_tabla = listaPins w, c_intentos = intentosFallidos w,
     c_pin = pinIngresado w, c_rfid = rfidLeido w, c_motor = motor w\<rparr>"

text \<open>The keypad driver is in order and STEP is low.\<close>

definition base :: "'z mef_scheme \<Rightarrow> bool" where
  "base w \<longleftrightarrow> teclado_inv w \<and> \<not> m_step (motor w)"

definition cumple :: "fault set \<Rightarrow> ctl \<Rightarrow> ('a, 'z) mprog \<Rightarrow> ('a \<Rightarrow> ctl \<Rightarrow> bool) \<Rightarrow> bool" where
  "cumple E c m Q \<longleftrightarrow> (\<forall>w. base w \<and> ctl w = c \<longrightarrow>
     sat E (\<lambda>x w'. base w' \<and> Q x (ctl w')) (\<lambda>_. True) (m w))"

lemma cumpleI:
  "(\<And>w. base w \<Longrightarrow> ctl w = c \<Longrightarrow> sat E (\<lambda>x w'. base w' \<and> Q x (ctl w')) (\<lambda>_. True) (m w)) \<Longrightarrow>
   cumple E c m Q"
  by (simp add: cumple_def)

lemma cumpleD:
  "cumple E c m Q \<Longrightarrow> base w \<Longrightarrow> ctl w = c \<Longrightarrow>
   sat E (\<lambda>x w'. base w' \<and> Q x (ctl w')) (\<lambda>_. True) (m w)"
  by (simp add: cumple_def)

lemma cumple_mono:
  assumes "cumple E c m Q" and "\<And>x c'. Q x c' \<Longrightarrow> Q' x c'"
  shows "cumple E c m Q'"
  using assms unfolding cumple_def by (blast intro: sat_weaken)

lemma cumple_fallos: "cumple E c m Q \<Longrightarrow> E \<subseteq> E' \<Longrightarrow> cumple E' c m Q"
  unfolding cumple_def by (blast intro: sat_mono)

lemma cumple_ret: "Q x c \<Longrightarrow> cumple E c (ret x) Q"
  by (simp add: cumple_def)

lemma cumple_bind: "cumple E c m (\<lambda>x c'. cumple E c' (f x) Q) \<Longrightarrow> cumple E c (bind m f) Q"
  by (rule cumpleI, rule sat_bind, rule sat_weaken, erule (2) cumpleD) (auto dest: cumpleD)

lemma cumple_fault: "e \<in> E \<Longrightarrow> cumple E c (fault e) Q"
  by (simp add: cumple_def)

lemma cumple_If:
  "(b \<Longrightarrow> cumple E c m Q) \<Longrightarrow> (\<not> b \<Longrightarrow> cumple E c n Q) \<Longrightarrow> cumple E c (if b then m else n) Q"
  by simp

lemma cumple_gets: "(\<And>w. ctl w = c \<Longrightarrow> cumple E c (f (g w)) Q) \<Longrightarrow> cumple E c (bind (gets g) f) Q"
  by (simp add: cumple_def bind_gets)

text \<open>A loop of the machine, with an invariant on its local variables.\<close>

lemma cumple_loop:
  assumes "I x c" and "\<And>x. consumes (body x)"
    and "\<And>x c. I x c \<Longrightarrow> cumple E c (body x) (\<lambda>r c'. case r of Inl y \<Rightarrow> I y c' | Inr z \<Rightarrow> Q z c')"
  shows "cumple E c (loop body x) Q"
proof (rule cumpleI, rule sat_loop [where I = "\<lambda>x w. base w \<and> I x (ctl w)"])
  fix x and w :: "'b mef_scheme"
  assume "base w \<and> I x (ctl w)"
  then show "sat E (\<lambda>r w'. case r of Inl y \<Rightarrow> base w' \<and> I y (ctl w') | Inr z \<Rightarrow> base w' \<and> Q z (ctl w'))
      (\<lambda>_. True) (body x w)"
    by (intro sat_weaken [OF cumpleD [OF assms(3)]]) (auto split: sum.splits)
qed (use assms(1,2) in auto)

lemma cumple_for_find:
  assumes "\<And>x. x \<in> set xs \<Longrightarrow> cumple E c (body x) (\<lambda>r c'. c' = c \<and> (\<forall>y. r = Some y \<longrightarrow> P y))"
  shows "cumple E c (for_find xs body) (\<lambda>r c'. c' = c \<and> (\<forall>y. r = Some y \<longrightarrow> P y))"
  using assms
proof (induction xs)
  case (Cons x xs)
  show ?case
    unfolding for_find.simps
    by (rule cumple_bind, rule cumple_mono [OF Cons.prems])
      (use Cons in \<open>auto intro!: cumple_ret split: option.split\<close>)
qed (simp add: cumple_ret)

section \<open>What leaves the control state alone\<close>

definition quieto :: "fault set \<Rightarrow> ('a, 'z) mprog \<Rightarrow> bool" where
  "quieto E m \<longleftrightarrow> (\<forall>c. cumple E c m (\<lambda>_ c'. c' = c))"

lemma cumple_quieto: "quieto E m \<Longrightarrow> (\<And>x. Q x c) \<Longrightarrow> cumple E c m Q"
  by (auto simp: quieto_def intro: cumple_mono)

lemma cumple_quieto_bind:
  "quieto E m \<Longrightarrow> (\<And>x. cumple E c (f x) Q) \<Longrightarrow> cumple E c (bind m f) Q"
  by (rule cumple_bind, rule cumple_quieto)

lemma quieto_bind: "quieto E m \<Longrightarrow> (\<And>x. quieto E (f x)) \<Longrightarrow> quieto E (bind m f)"
  by (simp add: quieto_def cumple_quieto_bind [unfolded quieto_def])

lemma quieto_ret: "quieto E (ret x)"
  by (simp add: quieto_def cumple_ret)

lemma quieto_block: "(\<And>m. m \<in> set ms \<Longrightarrow> quieto E m) \<Longrightarrow> quieto E (block ms)"
  by (induction ms) (auto intro: quieto_bind quieto_ret)

lemma quieto_fallos: "quieto E m \<Longrightarrow> E \<subseteq> E' \<Longrightarrow> quieto E' m"
  unfolding quieto_def by (blast intro: cumple_fallos)

definition reposo :: "'z mef_scheme \<Rightarrow> 'z mef_scheme \<Rightarrow> bool" where
  "reposo w w' \<longleftrightarrow> (base w \<longrightarrow> base w' \<and> ctl w' = ctl w)"

lemma quieto_safe: "safe E m \<Longrightarrow> respeta reposo m \<Longrightarrow> quieto E m"
  unfolding quieto_def
  by (intro allI cumpleI, rule sat_weaken [OF sat_safe_within [where r = reposo]]) (auto simp: reposo_def)

lemma env_frame_ctl: "env_frame w w' \<Longrightarrow> estadoActual w' = estadoActual w \<and> listaPins w' = listaPins w \<and>
    intentosFallidos w' = intentosFallidos w \<and> pinIngresado w' = pinIngresado w \<and>
    rfidLeido w' = rfidLeido w"
  unfolding env_frame_def by (cases w, cases w') simp

lemma env_frame_reposo: "env_frame w w' \<Longrightarrow> reposo w w'"
  using env_frame_motor [of w w'] teclado_inv_frame [OF env_frame_tecl, of w w'] env_frame_ctl [of w w']
  unfolding reposo_def base_def teclado_motor_def
  by (simp add: teclado_inv_def ctl_def)

interpretation qs: as608_stable reposo "- motor_pins" UNIV
  by unfold_locales
    (simp_all add: within_poll_frame env_frame_reposo,
     simp_all add: reposo_def base_def teclado_inv_def digitos_def ctl_def motor_set_pin motor_ev_otro,
     simp_all add: motor_def)

interpretation qe: esp_stable reposo "- motor_pins" UNIV
  by unfold_locales
    (simp_all add: reposo_def base_def teclado_inv_def digitos_def ctl_def, simp_all add: motor_def)

interpretation qc: rc522_stable reposo "- motor_pins" UNIV
  by unfold_locales (rule perifericos_no_motor)

lemma quieto_modify:
  "(\<And>w. base w \<Longrightarrow> base (f w) \<and> ctl (f w) = ctl w) \<Longrightarrow> quieto E (modify f)"
  by (intro quieto_safe keeps_modify qs.within_modify) (auto simp: reposo_def)

lemma quieto_vars:
  "quieto E (modify (\<lambda>w. w\<lparr>ultimaPresencia := u\<rparr>))"
  "quieto E (modify (\<lambda>w. w\<lparr>agendaHuella := u\<rparr>))"
  "quieto E (modify (\<lambda>w. w\<lparr>escaneoActivo := b\<rparr>))"
  "quieto E (modify (\<lambda>w. w\<lparr>ultimaVersionConocida := v\<rparr>))"
  "quieto E (modify (\<lambda>w. w\<lparr>eventoPresencia := b\<rparr>))"
  by (rule quieto_modify,
      simp add: base_def teclado_inv_def digitos_def ctl_def, simp add: motor_def)+

lemma quieto_hw: "quieto E tickRead" "quieto E tick32" "quieto E (delay d)"
    "quieto E display_clear" "quieto E display_update" "quieto E alertaExito" "quieto E alertaError"
  by (intro quieto_safe safe_tickRead safe_tick32 safe_delay safe_disp(1,2) safe_alertas
      qs.as608_cmd_rules qs.within_alertas [OF perifericos_no_motor(2), THEN conjunct2, THEN conjunct1]
      qs.within_alertas [OF perifericos_no_motor(2), THEN conjunct2, THEN conjunct2])+

lemma quieto_marcar: "quieto E marcar"
  unfolding marcar_def by (intro quieto_bind quieto_hw quieto_vars)

lemma quieto_println: "cabe (length s) y \<Longrightarrow> quieto E (display_println s y)"
  by (intro quieto_safe safe_display_println qs.as608_cmd_rules)

lemma quieto_lineas: "list_all (\<lambda>(s, y). cabe (length s) y) ls \<Longrightarrow> quieto E (lineas ls)"
  unfolding lineas_def by (induction ls) (auto intro!: quieto_bind quieto_ret quieto_println)

lemma quieto_mostrar: "list_all (\<lambda>(s, y). cabe (length s) y) ls \<Longrightarrow> quieto E (mostrar ls)"
  unfolding mostrar_def by (intro quieto_block) (auto intro!: quieto_hw quieto_lineas)

lemma quieto_store_str: "length s < n \<Longrightarrow> quieto E (store_str n s)"
  by (simp add: store_str_def quieto_ret)

lemma quieto_If: "(b \<Longrightarrow> quieto E m) \<Longrightarrow> (\<not> b \<Longrightarrow> quieto E n) \<Longrightarrow> quieto E (if b then m else n)"
  by simp

lemma quieto_void: "quieto E m \<Longrightarrow> quieto E (void m)"
  unfolding void_def by (intro quieto_bind quieto_ret)

lemma quieto_gets: "quieto E (gets f)"
  by (simp add: quieto_def cumple_def)

lemma quieto_loop:
  assumes "\<And>x. consumes (body x)" and "\<And>x. quieto E (body x)"
  shows "quieto E (loop body x)"
  unfolding quieto_def
proof
  fix c
  show "cumple E c (loop body x) (\<lambda>_ c'. c' = c)"
    by (rule cumple_loop [where I = "\<lambda>_ c'. c' = c"])
      (use assms in \<open>auto intro!: cumple_quieto split: sum.split\<close>)
qed

lemma quieto_reset: "quieto E tecladoReset"
  unfolding tecladoReset_def
proof (rule quieto_modify)
  fix w :: "'a mef_scheme"
  assume "base w"
  then have "keypad w = teclado_k" by (simp add: base_def teclado_inv_def)
  from teclado_reset_inv [OF this] \<open>base w\<close>
  show "base (w\<lparr>pinTecleado := replicate (PIN_LENGTH + 1) NUL, pos := 0\<rparr>) \<and>
      ctl (w\<lparr>pinTecleado := replicate (PIN_LENGTH + 1) NUL, pos := 0\<rparr>) = ctl w"
    by (simp add: base_def ctl_def motor_def)
qed

section \<open>Keypad, card reader, server\<close>

text \<open>With the keypad of the board, a scan leaves the control state alone.\<close>

definition ctl_teclado :: "'z mef_scheme \<Rightarrow> 'z mef_scheme \<Rightarrow> bool" where
  "ctl_teclado w w' \<longleftrightarrow> (keypad w = teclado_k \<longrightarrow> keypad w' = teclado_k \<and> ctl w' = ctl w)"

lemma ctl_teclado_filas:
  "(\<forall>p \<in> set (keypadRowPins (keypad w)). \<forall>q. gpio_of p = Some q \<longrightarrow> q \<in> - motor_pins) \<or>
   (\<forall>w'. ctl_teclado w w')"
  by (cases "keypad w = teclado_k") (auto simp: ctl_teclado_def teclado_k_def dest: filas_no_motor)

lemma env_frame_ctl_teclado: "env_frame w w' \<Longrightarrow> ctl_teclado w w'"
  using env_frame_motor [of w w'] env_frame_ctl [of w w']
  by (simp add: ctl_teclado_def teclado_motor_def ctl_def)

interpretation ct: tecl_stable ctl_teclado "- motor_pins" UNIV
  by (unfold_locales; (rule ctl_teclado_filas)?)
    (simp_all add: within_poll_frame env_frame_ctl_teclado,
     simp_all add: ctl_teclado_def ctl_def motor_set_pin motor_ev_otro, simp_all add: motor_def)

lemma sat_ctl_teclado:
  assumes "base w" and "sat E (\<lambda>x w'. teclado_inv w' \<and> Q x) (\<lambda>_. True) (m w)" and "respeta ctl_teclado m"
  shows "sat E (\<lambda>x w'. base w' \<and> ctl w' = ctl w \<and> Q x) (\<lambda>_. True) (m w)"
  using assms(2) withinD [OF assms(3), of w] assms(1)
  by (cases "m w") (auto simp: base_def ctl_teclado_def teclado_inv_def ctl_def)

lemma cumple_leerPin:
  "cumple E c (tecladoLeerPin pin act) (\<lambda>(res, pin', _) c'. c' = c \<and>
     (if res = 1 then length pin' = PIN_LENGTH \<and> list_all is_digit pin' else pin' = pin))"
proof (rule cumpleI)
  fix w :: "'a mef_scheme"
  assume w: "base w" "ctl w = c"
  let ?Q = "\<lambda>(res, pin', _ :: u32). if res = (1 :: int) then length pin' = PIN_LENGTH \<and> list_all is_digit pin'
      else pin' = pin"
  have "sat E (\<lambda>x w'. teclado_inv w' \<and> ?Q x) (\<lambda>_. True) (tecladoLeerPin pin act w)"
    by (rule sat_weaken [OF tecladoLeerPin_sat]) (use w in \<open>auto simp: base_def\<close>)
  from sat_ctl_teclado [OF w(1) this ct.within_tecladoLeerPin] w(2)
  show "sat E (\<lambda>x w'. base w' \<and> (case x of (res, pin', _) \<Rightarrow> \<lambda>c'. c' = c \<and>
     (if res = 1 then length pin' = PIN_LENGTH \<and> list_all is_digit pin' else pin' = pin)) (ctl w'))
     (\<lambda>_. True) (tecladoLeerPin pin act w)"
    by (elim sat_weaken) auto
qed

lemma quieto_leerPin: "quieto E (tecladoLeerPin pin act)"
  unfolding quieto_def by (intro allI cumple_mono [OF cumple_leerPin]) auto

lemma quieto_leerTecla: "quieto E tecladoLeerTecla"
  unfolding quieto_def
proof (intro allI cumpleI)
  fix c and w :: "'a mef_scheme"
  assume w: "base w" "ctl w = c"
  have "sat E (\<lambda>x w'. teclado_inv w' \<and> True) (\<lambda>_. True) (tecladoLeerTecla w)"
    by (rule sat_weaken [OF tecladoLeerTecla_sat]) (use w in \<open>auto simp: base_def\<close>)
  from sat_ctl_teclado [OF w(1) this ct.within_tecladoLeerTecla] w(2)
  show "sat E (\<lambda>x w'. base w' \<and> ctl w' = c) (\<lambda>_. True) (tecladoLeerTecla w)"
    by (elim sat_weaken) auto
qed

lemma cumple_rfid:
  assumes "BufferOverflow \<in> E"
  shows "cumple E c (leer_rfid_str 10) (\<lambda>r c'. c' = c \<and> (\<forall>t. r = Some t \<longrightarrow> length t = 8))"
proof (rule cumpleI)
  fix w :: "'a mef_scheme"
  assume w: "base w" "ctl w = c"
  have "sat {BufferOverflow} (\<lambda>r _. \<forall>t. r = Some t \<longrightarrow> length t = 8) (\<lambda>_. True) (leer_rfid_str 10 w)"
    by (rule sat_weaken [OF leer_rfid_sat]) (auto simp: length_hex_uid)
  then show "sat E (\<lambda>r w'. base w' \<and> ctl w' = c \<and> (\<forall>t. r = Some t \<longrightarrow> length t = 8)) (\<lambda>_. True)
      (leer_rfid_str 10 w)"
    using withinD [OF qc.within_leer_rfid_str [of 10], of w] w assms
    by (cases "leer_rfid_str 10 w") (auto simp: reposo_def)
qed

text \<open>Requests to the server other than the synchronisation.\<close>

lemma quieto_esp:
  "quieto E (inicializarESP t)" "quieto E espObtenerTiempoServidor"
  "quieto E espBorrarTodasHuellasServidor"
  "length p \<le> 20 \<Longrightarrow> quieto E (espBorrarHuellaServidor p)"
  "length p + length i \<le> 150 \<Longrightarrow> quieto E (espEnviarNuevaHuella p i)"
  "length p + length i \<le> 150 \<Longrightarrow> quieto E (espEnviarNuevoRFID p i)"
  "Uninitialised \<in> E \<Longrightarrow> quieto E resetearCredencialesESP"
  by (intro quieto_safe safe_esp safe_resetearCredencialesESP qe.esp_rules; simp)+

lemma quieto_as608:
  "quieto E as608ClearAllTemplates" "quieto E (as608DeleteId i)" "quieto E (as608EnrollAtId i)"
  "quieto E (as608ScanStep i s)" "quieto E as608ScanReset"
  by (intro quieto_safe safe_as608 qs.as608_rules)+
    (simp_all add: as608ScanReset_def keeps_modify)

text \<open>The synchronisation changes the table and nothing else.\<close>

definition solo_tabla :: "'z mef_scheme \<Rightarrow> 'z mef_scheme \<Rightarrow> bool" where
  "solo_tabla w w' \<longleftrightarrow> (base w \<longrightarrow> base w' \<and> ctl w' = (ctl w)\<lparr>c_tabla := listaPins w'\<rparr>)"

lemma reposo_solo_tabla: "reposo w w' \<Longrightarrow> solo_tabla w w'"
  by (auto simp: reposo_def solo_tabla_def ctl_def)

interpretation st: val_stable solo_tabla "- motor_pins" UNIV
  by unfold_locales
    (simp_all add: within_poll_frame env_frame_reposo reposo_solo_tabla,
     simp_all add: solo_tabla_def base_def teclado_inv_def digitos_def ctl_def motor_set_pin motor_ev_otro,
     simp_all add: motor_def)

lemma cumple_sincronizar:
  "cumple E c sincronizarConServidor (\<lambda>v c'. \<exists>us. c' = c\<lparr>c_tabla := us\<rparr> \<and>
     (v = 1 \<and> us = c_tabla c \<or> v = 0 \<and> tabla_recibida us))"
proof (rule cumpleI)
  fix w :: "'a mef_scheme"
  assume w: "base w" "ctl w = c"
  show "sat E (\<lambda>v w'. base w' \<and> (\<exists>us. ctl w' = c\<lparr>c_tabla := us\<rparr> \<and>
     (v = 1 \<and> us = c_tabla c \<or> v = 0 \<and> tabla_recibida us))) (\<lambda>_. True) (sincronizarConServidor w)"
    using sincronizar_sat [of E w] withinD [OF st.within_sincronizar, of w] w
    by (cases "sincronizarConServidor w") (auto simp: solo_tabla_def ctl_def)
qed

section \<open>What changes the control state\<close>

definition efecto :: "fault set \<Rightarrow> ('a, 'z) mprog \<Rightarrow> (ctl \<Rightarrow> ctl) \<Rightarrow> bool" where
  "efecto E m g \<longleftrightarrow> (\<forall>c. cumple E c m (\<lambda>_ c'. c' = g c))"

lemma cumple_efecto_bind:
  "efecto E m g \<Longrightarrow> (\<And>x. cumple E (g c) (f x) Q) \<Longrightarrow> cumple E c (bind m f) Q"
  by (rule cumple_bind, rule cumple_mono [where Q = "\<lambda>_ c'. c' = g c"]) (auto simp: efecto_def)

lemma cumple_efecto: "efecto E m g \<Longrightarrow> (\<And>x. Q x (g c)) \<Longrightarrow> cumple E c m Q"
  by (rule cumple_mono [where Q = "\<lambda>_ c'. c' = g c"]) (auto simp: efecto_def)

lemma efecto_modify:
  "(\<And>w. base w \<Longrightarrow> base (f w) \<and> ctl (f w) = g (ctl w)) \<Longrightarrow> efecto E (modify f) g"
  by (simp add: efecto_def cumple_def)

lemma efecto_ir: "efecto E (ir e) (\<lambda>c. c\<lparr>c_estado := e\<rparr>)"
  unfolding ir_def
  by (rule efecto_modify, simp add: base_def teclado_inv_def digitos_def ctl_def, simp add: motor_def)

lemma efecto_vars:
  "efecto E (modify (\<lambda>w. w\<lparr>intentosFallidos := k\<rparr>)) (\<lambda>c. c\<lparr>c_intentos := k\<rparr>)"
  "efecto E (modify (\<lambda>w. w\<lparr>intentosFallidos := intentosFallidos w + 1\<rparr>)) (\<lambda>c. c\<lparr>c_intentos := c_intentos c + 1\<rparr>)"
  "efecto E (modify (\<lambda>w. w\<lparr>rfidLeido := x\<rparr>)) (\<lambda>c. c\<lparr>c_rfid := x\<rparr>)"
  "efecto E (modify (\<lambda>w. w\<lparr>pinIngresado := p, ultimaPresencia := u\<rparr>)) (\<lambda>c. c\<lparr>c_pin := p\<rparr>)"
  by (rule efecto_modify,
      simp add: base_def teclado_inv_def digitos_def ctl_def, simp add: motor_def)+

lemma efecto_step_move: "efecto E (step_move d) (\<lambda>c. c\<lparr>c_motor := movido d (c_motor c)\<rparr>)"
  unfolding efecto_def
proof (intro allI cumpleI)
  fix c and w :: "'a mef_scheme"
  assume w: "base w" "ctl w = c"
  then have "\<not> m_step (motor w)" by (simp add: base_def)
  from step_move_motor [OF this, of d]
  obtain w' where r: "step_move d w = Ret () w'" "motor w' = movido d (motor w)"
    and f: "w' = w\<lparr>pinOut := pinOut w', gpioLog := gpioLog w'\<rparr>" by blast
  have "teclado_inv w' \<longleftrightarrow> teclado_inv w"
    by (subst f) (simp add: teclado_inv_def digitos_def)
  moreover have "estadoActual w' = estadoActual w" "listaPins w' = listaPins w"
      "intentosFallidos w' = intentosFallidos w" "pinIngresado w' = pinIngresado w"
      "rfidLeido w' = rfidLeido w"
    by (subst f, simp)+
  ultimately show "sat E (\<lambda>_ w'. base w' \<and> ctl w' = c\<lparr>c_motor := movido d (c_motor c)\<rparr>) (\<lambda>_. True)
      (step_move d w)"
    using r w by (auto simp: base_def ctl_def movido_def)
qed

lemma efecto_abrir:
  "efecto E abrirCerradura (\<lambda>c. c\<lparr>c_motor := movido True (c_motor c)\<rparr>)"
  "efecto E abrir_si (\<lambda>c. c\<lparr>c_motor := movido True (c_motor c)\<rparr>)"
  "efecto E cerrarCerradura (\<lambda>c. c\<lparr>c_motor := movido False (c_motor c)\<rparr>)"
  by (simp_all add: abrir_si_def OMITIR_MOTOR_def abrirCerradura_def cerrarCerradura_def efecto_step_move)

lemma efecto_tabla:
  "efecto E (modify (\<lambda>w. w\<lparr>listaPins := us\<rparr>)) (\<lambda>c. c\<lparr>c_tabla := us\<rparr>)"
  by (rule efecto_modify, simp add: base_def teclado_inv_def digitos_def ctl_def, simp add: motor_def)

lemma cumple_sobre_tabla:
  assumes "\<And>e. f (c_tabla c) = Inl e \<Longrightarrow> e \<in> E"
    and "\<And>x us. f (c_tabla c) = Inr (x, us) \<Longrightarrow> cumple E (c\<lparr>c_tabla := us\<rparr>) (n x) Q"
  shows "cumple E c (bind (sobre_tabla f) n) Q"
  unfolding sobre_tabla_def bind_assoc
proof (rule cumple_gets)
  fix w :: "'b mef_scheme"
  assume "ctl w = c"
  then have "listaPins w = c_tabla c" by (auto simp: ctl_def)
  then show "cumple E c (bind (case f (listaPins w) of Inl e \<Rightarrow> fault e
      | Inr (x, us') \<Rightarrow> bind (modify (\<lambda>w. w\<lparr>listaPins := us'\<rparr>)) (\<lambda>_. ret x)) n) Q"
  proof (cases "f (c_tabla c)")
    case (Inl e)
    with \<open>listaPins w = _\<close> assms(1) show ?thesis by (simp add: cumple_def bind_apply)
  next
    case (Inr r)
    then obtain x us where "f (c_tabla c) = Inr (x, us)" by (cases r) auto
    with \<open>listaPins w = _\<close> assms(2) show ?thesis
      by (auto simp: bind_assoc intro!: cumple_efecto_bind [OF efecto_tabla])
  qed
qed

text \<open>The rules for one statement, by its form.\<close>

lemmas quietos = quieto_ret quieto_hw quieto_vars quieto_marcar quieto_lineas quieto_mostrar
  quieto_store_str quieto_reset quieto_leerTecla quieto_esp(1-6) quieto_as608 quieto_gets quieto_If
  quieto_void quieto_bind

lemmas pasos_quietos = quieto_hw [THEN cumple_quieto_bind] quieto_vars [THEN cumple_quieto_bind]
  quieto_marcar [THEN cumple_quieto_bind] quieto_lineas [THEN cumple_quieto_bind]
  quieto_mostrar [THEN cumple_quieto_bind] quieto_reset [THEN cumple_quieto_bind]
  quieto_leerTecla [THEN cumple_quieto_bind] quieto_esp [THEN cumple_quieto_bind]
  quieto_as608 [THEN cumple_quieto_bind]

lemmas pasos_efecto = efecto_ir [THEN cumple_efecto_bind] efecto_vars [THEN cumple_efecto_bind]
  efecto_abrir [THEN cumple_efecto_bind]

lemmas pasos_finales = quieto_hw [THEN cumple_quieto] quieto_marcar [THEN cumple_quieto]
  quieto_lineas [THEN cumple_quieto] efecto_ir [THEN cumple_efecto] efecto_vars [THEN cumple_efecto]

lemmas pasos = pasos_quietos pasos_efecto pasos_finales cumple_ret

text \<open>Statement lists and nested sequences as one sequence.\<close>

lemmas secuencia = block.simps bind_assoc bind_ret void_def

lemma cumple_If_bind:
  "(b \<Longrightarrow> cumple E c (bind m f) Q) \<Longrightarrow> (\<not> b \<Longrightarrow> cumple E c (bind n f) Q) \<Longrightarrow>
   cumple E c (bind (if b then m else n) f) Q"
  by simp

lemma ctl_campos:
  "ctl w = c \<Longrightarrow> estadoActual w = c_estado c" "ctl w = c \<Longrightarrow> listaPins w = c_tabla c"
  "ctl w = c \<Longrightarrow> intentosFallidos w = c_intentos c" "ctl w = c \<Longrightarrow> pinIngresado w = c_pin c"
  "ctl w = c \<Longrightarrow> rfidLeido w = c_rfid c" "ctl w = c \<Longrightarrow> motor w = c_motor c"
  by (auto simp: ctl_def)

end
