(* ===== verification/Mef_Refina.thy ===== *)
theory Mef_Refina
  imports Mef_Control
begin

text \<open>
  The abstract machine of the lock and the proof that \<^verbatim>\<open>mefUpdate\<close> implements it:
  every step of the program is a step of \<open>paso\<close> on the control state.
\<close>

section \<open>The abstract machine\<close>

definition es_pin_tecleado :: "string \<Rightarrow> bool" where
  "es_pin_tecleado p \<longleftrightarrow> length p = PIN_LENGTH \<and> list_all is_digit p"

definition abierta :: "ctl \<Rightarrow> ctl" where
  "abierta c = c\<lparr>c_motor := movido True (c_motor c), c_estado := SENSOR_CIERRE\<rparr>"

text \<open>The tables the administrator's menu can leave behind.\<close>

definition tabla_menu :: "tabla \<Rightarrow> tabla \<Rightarrow> bool" where
  "tabla_menu us us' \<longleftrightarrow> us' = us \<or> tabla_recibida us' \<or> us' = eliminarTodasHuellasLocal us \<or>
     (\<exists>p. validarPin us p \<and> us' = snd (eliminarHuellaLocal us p))"

inductive paso :: "ctl \<Rightarrow> ctl \<Rightarrow> bool" where
  despertar: "c_estado c = REPOSO \<Longrightarrow> us = c_tabla c \<or> tabla_recibida us \<Longrightarrow>
    paso c (c\<lparr>c_tabla := us, c_estado := ESPERANDO_ACCION\<rparr>)"
| esperar: "c_estado c = ESPERANDO_ACCION \<Longrightarrow> paso c c"
| inactividad: "c_estado c = ESPERANDO_ACCION \<Longrightarrow> paso c (c\<lparr>c_estado := REPOSO\<rparr>)"
| pin_completo: "c_estado c = ESPERANDO_ACCION \<Longrightarrow> es_pin_tecleado p \<Longrightarrow>
    paso c (c\<lparr>c_pin := p, c_estado := VALIDAR\<rparr>)"
| pin_maestro: "c_estado c = ESPERANDO_ACCION \<Longrightarrow> es_pin_tecleado p \<Longrightarrow> esPinMaster (c_tabla c) p \<Longrightarrow>
    paso c (c\<lparr>c_estado := MENU_ADMIN\<rparr>)"
| tarjeta: "c_estado c = ESPERANDO_ACCION \<Longrightarrow> length t = 8 \<Longrightarrow>
    paso c (c\<lparr>c_rfid := t, c_estado := VALIDAR_RFID\<rparr>)"
| escaneo: "c_estado c = ESPERANDO_ACCION \<Longrightarrow> paso c (c\<lparr>c_estado := LEER_Y_VALIDAR_HUELLA\<rparr>)"
| huella_valida: "c_estado c = LEER_Y_VALIDAR_HUELLA \<Longrightarrow> validarHuella (c_tabla c) h \<Longrightarrow>
    paso c (abierta (c\<lparr>c_intentos := 0\<rparr>))"
| huella_no: "c_estado c = LEER_Y_VALIDAR_HUELLA \<Longrightarrow> paso c (c\<lparr>c_estado := ESPERANDO_ACCION\<rparr>)"
| rfid_valida: "c_estado c = VALIDAR_RFID \<Longrightarrow> obtenerTagPorRFID (c_tabla c) (c_rfid c) \<noteq> None \<Longrightarrow>
    paso c ((abierta c)\<lparr>c_rfid := []\<rparr>)"
| rfid_no: "c_estado c = VALIDAR_RFID \<Longrightarrow> obtenerTagPorRFID (c_tabla c) (c_rfid c) = None \<Longrightarrow>
    paso c (c\<lparr>c_estado := ESPERANDO_ACCION\<rparr>)"
| pin_valido_abre: "c_estado c = VALIDAR \<Longrightarrow> validarPin (c_tabla c) (c_pin c) \<Longrightarrow>
    paso c (abierta (c\<lparr>c_intentos := 0\<rparr>))"
| pin_no: "c_estado c = VALIDAR \<Longrightarrow> \<not> validarPin (c_tabla c) (c_pin c) \<Longrightarrow>
    paso c (c\<lparr>c_intentos := (c_intentos c + 1) mod 3, c_estado := ESPERANDO_ACCION\<rparr>)"
| puerta_abierta: "c_estado c = SENSOR_CIERRE \<Longrightarrow> paso c c"
| puerta_cerrada: "c_estado c = SENSOR_CIERRE \<Longrightarrow>
    paso c (c\<lparr>c_motor := movido False (c_motor c), c_estado := ESPERANDO_ACCION\<rparr>)"
| menu_sigue: "c_estado c = MENU_ADMIN \<Longrightarrow> paso c c"
| menu_registro: "c_estado c = MENU_ADMIN \<Longrightarrow> e = REGISTRAR_RFID \<or> e = REGISTRAR_HUELLA \<Longrightarrow>
    paso c (c\<lparr>c_estado := e\<rparr>)"
| menu_fin: "c_estado c = MENU_ADMIN \<Longrightarrow> tabla_menu (c_tabla c) us \<Longrightarrow>
    paso c (c\<lparr>c_tabla := us, c_estado := ESPERANDO_ACCION\<rparr>)"
| registro_falla: "c_estado c = REGISTRAR_RFID \<or> c_estado c = REGISTRAR_HUELLA \<Longrightarrow>
    paso c (c\<lparr>c_estado := ESPERANDO_ACCION\<rparr>)"
| registro_rfid: "c_estado c = REGISTRAR_RFID \<Longrightarrow> validarPin (c_tabla c) p \<Longrightarrow> length t = 8 \<Longrightarrow>
    asociarRFIDaPin (c_tabla c) p t = Inr (True, us) \<Longrightarrow>
    paso c (c\<lparr>c_rfid := t, c_tabla := us, c_estado := ESPERANDO_ACCION\<rparr>)"
| registro_huella: "c_estado c = REGISTRAR_HUELLA \<Longrightarrow>
    obtenerHuellaAsignadaPorPin (c_tabla c) p = Inr (Some i) \<Longrightarrow>
    us = snd (asociarHuellaaPin (c_tabla c) p (fmt_04u (unat (of_int (atoi i) :: u16)))) \<Longrightarrow>
    paso c (c\<lparr>c_tabla := us, c_estado := ESPERANDO_ACCION\<rparr>)"

inductive_cases pasoE: "paso c c'"

section \<open>Each case implements it\<close>

lemma cabe_corto: "l \<le> 29 \<Longrightarrow> unat y < 48 \<Longrightarrow> cabe l y"
  by (auto simp: cabe_def BUFFER_SIZE_def max_def)

text \<open>The greeting fits its buffer when no tag is longer than 17 characters.\<close>

definition tags_cortos :: "tabla \<Rightarrow> bool" where
  "tags_cortos us \<longleftrightarrow> list_all (\<lambda>u. length (tag u) \<le> 17) us"

lemma tags_caben:
  assumes "BufferOverflow \<in> E \<or> tags_cortos us"
  shows "BufferOverflow \<in> E \<or> (\<forall>t. obtenerTagPorPin us p = Some t \<longrightarrow> length t \<le> 17)"
    and "BufferOverflow \<in> E \<or> (\<forall>t. obtenerTagPorRFID us p = Some t \<longrightarrow> length t \<le> 17)"
    and "BufferOverflow \<in> E \<or> (\<forall>t. obtenerTagPorHuella us p = Some t \<longrightarrow> length t \<le> 17)"
  using assms cred_pin.tag_duenio [of us p] cred_rfid.tag_duenio [of us p] cred_huella.tag_duenio [of us p]
  by (fastforce simp: tags_cortos_def list_all_iff)+

lemma cumple_bienvenida:
  assumes "tg \<noteq> None" and "BufferOverflow \<in> E \<or> (\<forall>t. tg = Some t \<longrightarrow> length t \<le> 17)"
    and "\<And>b. length b \<le> 29 \<Longrightarrow> cumple E c (f b) Q"
  shows "cumple E c (bind (bienvenida tg) f) Q"
proof -
  obtain t where "tg = Some t" using assms(1) by auto
  then show ?thesis
    using assms(2,3) by (auto simp: bienvenida_def store_str_def bind_apply cumple_def)
qed

lemmas cabe_simps = cabe_corto cabe_def BUFFER_SIZE_def

lemma caso_RFID_paso:
  assumes "c_estado c = VALIDAR_RFID"
    and "BufferOverflow \<in> E \<or> tags_cortos (c_tabla c)"
  shows "cumple E c caso_VALIDAR_RFID (\<lambda>_. paso c)"
  unfolding caso_VALIDAR_RFID_def secuencia
proof (rule cumple_gets, rule cumple_If, goal_cases)
  case (1 w)
  note f = ctl_campos(2,5) [OF 1(1)]
  show ?case
    using 1(2) tags_caben(2) [OF assms(2), of "c_rfid c"] rfid_valida [OF assms(1)]
    by (intro pasos cumple_bienvenida) (simp_all add: cabe_simps f abierta_def)
next
  case (2 w)
  note f = ctl_campos(2,5) [OF 2(1)]
  show ?case
    using 2(2) rfid_no [OF assms(1)] by (intro pasos) (simp_all add: cabe_simps f)
qed

lemma caso_HUELLA_paso:
  assumes "c_estado c = LEER_Y_VALIDAR_HUELLA"
    and "BufferOverflow \<in> E \<or> tags_cortos (c_tabla c)"
  shows "cumple E c caso_LEER_HUELLA (\<lambda>_. paso c)"
  unfolding caso_LEER_HUELLA_def secuencia
proof (intro cumple_quieto_bind [OF quieto_as608(4)], goal_cases)
  case (1 x)
  obtain s i sc where x: "x = (s, i, sc)" by (cases x) auto
  show ?case
    unfolding x prod.case
  proof (rule cumple_gets, rule cumple_If, goal_cases)
    case (1 w)
    then have v: "validarHuella (c_tabla c) (idStr i)" by (simp add: ctl_campos)
    then have t: "obtenerTagPorHuella (c_tabla c) (idStr i) \<noteq> None"
      using cred_huella.valida_tag by fastforce
    show ?case
      using v t tags_caben(3) [OF assms(2), of "idStr i"] huella_valida [OF assms(1) v]
      by (intro pasos cumple_bienvenida) (simp_all add: cabe_simps ctl_campos(2) [OF 1(1)] abierta_def)
  next
    case (2 w)
    show ?case
      using huella_no [OF assms(1)]
      by (intro cumple_If_bind pasos; (unfold secuencia)?; (intro pasos)?) (simp_all add: cabe_simps)
  qed
qed

lemma ctl_conmuta: "c\<lparr>c_estado := e, c_motor := m\<rparr> = c\<lparr>c_motor := m, c_estado := e\<rparr>"
    "c\<lparr>c_intentos := k, c_intentos := j\<rparr> = c\<lparr>c_intentos := j\<rparr>"
  by (cases c, simp)+

lemma fmt_d_corto: "0 \<le> k \<Longrightarrow> k \<le> 9 \<Longrightarrow> length (fmt_d k) = 1"
  by (simp add: fmt_d_def fmt_u.simps)

lemma caso_VALIDAR_paso:
  assumes "c_estado c = VALIDAR" and "0 \<le> c_intentos c" and "c_intentos c \<le> 2"
    and "BufferOverflow \<in> E \<or> tags_cortos (c_tabla c)"
  shows "cumple E c caso_VALIDAR (\<lambda>_. paso c)"
  unfolding caso_VALIDAR_def
proof (intro pasos, rule cumple_gets, rule cumple_If, goal_cases)
  case (1 x w)
  note f = ctl_campos(2,4) [OF 1(1)]
  show ?case
    unfolding pin_correcto_def secuencia
  proof (rule cumple_gets, rule cumple_If_bind, goal_cases)
    case (1 w')
    note f' = ctl_campos(2,4) [OF 1(1)]
    from 1 show ?case
      unfolding secuencia
      using 1 tags_caben(1) [OF assms(4), of "c_pin c"] pin_valido_abre [OF assms(1)] \<open>validarPin _ _\<close> f f'
      by (intro pasos cumple_bienvenida) (simp_all add: cabe_simps abierta_def ctl_conmuta)
  next
    case (2 w')
    then show ?case
      using pin_valido_abre [OF assms(1)] \<open>validarPin _ _\<close> f
      by (intro pasos) (simp_all add: cabe_simps abierta_def ctl_conmuta)
  qed
next
  case (2 x w)
  then have p: "paso c (c\<lparr>c_intentos := (c_intentos c + 1) mod 3, c_estado := ESPERANDO_ACCION\<rparr>)"
    using pin_no [OF assms(1)] by (simp add: ctl_campos)
  show ?case
    unfolding pin_incorrecto_def secuencia
  proof (intro pasos, simp_all add: cabe_simps, rule cumple_gets, goal_cases)
    case (1 w')
    then have k: "intentosFallidos w' = c_intentos c + 1" by (simp add: ctl_campos)
    have l: "length (fmt_d (c_intentos c + 1)) = 1" using assms by (intro fmt_d_corto) auto
    have m: "c_intentos c + 1 = 3 \<Longrightarrow> (c_intentos c + 1) mod 3 = 0"
      "c_intentos c + 1 \<noteq> 3 \<Longrightarrow> (c_intentos c + 1) mod 3 = c_intentos c + 1"
      using assms by simp_all
    show ?case
      unfolding k
      by (subst bind_store_str, simp add: l, intro pasos cumple_If_bind; (unfold secuencia)?; (intro pasos)?)
        (use p m in \<open>simp_all add: l cabe_simps ctl_conmuta\<close>)
  qed
qed

lemma quieto_sensor: "quieto E (Chip_GPIO_GetPinState p q)"
  unfolding Chip_GPIO_GetPinState_def
  by (intro quieto_bind quieto_gets quieto_safe safe_poll qs.r_poll)

lemma caso_CIERRE_paso:
  assumes "c_estado c = SENSOR_CIERRE"
  shows "cumple {} c caso_SENSOR_CIERRE (\<lambda>_. paso c)"
  unfolding caso_SENSOR_CIERRE_def OMITIR_SENSOR_CIERRE_def OMITIR_MOTOR_def secuencia if_False not_False_eq_True if_True
  by (intro pasos cumple_quieto_bind [OF quieto_sensor] cumple_If_bind; (unfold secuencia)?; (intro pasos)?)
    (use assms in \<open>simp_all add: cabe_simps paso.puerta_abierta paso.puerta_cerrada\<close>)

text \<open>Sleep: only the synchronisation changes anything.\<close>

lemma quieto_nvic: "quieto E Chip_PININT_ClearIntStatus" "quieto E NVIC_ClearPendingIRQ"
    "quieto E NVIC_EnableIRQ" "quieto E NVIC_DisableIRQ" "quieto E (SysTick_setTickInt b)" "quieto E WFI"
proof -
  have "safe E WFI"
    unfolding WFI_def
    by (intro keeps_bind keeps_loop keeps_modify keeps_rules safe_poll consumes_bind consumes_poll
        shr.within_rules) simp
  then show "quieto E WFI" by (rule quieto_safe) (rule qs.within_WFI)
  show "quieto E Chip_PININT_ClearIntStatus" "quieto E NVIC_ClearPendingIRQ"
    "quieto E NVIC_EnableIRQ" "quieto E NVIC_DisableIRQ" "quieto E (SysTick_setTickInt b)"
    by (rule quieto_safe,
        simp add: Chip_PININT_ClearIntStatus_def NVIC_ClearPendingIRQ_def NVIC_EnableIRQ_def
          NVIC_DisableIRQ_def SysTick_setTickInt_def keeps_modify, rule qs.hw_rules)+
qed

lemma quieto_dormir: "quieto E dormir"
  unfolding dormir_def
  by (intro quieto_block) (auto intro!: quietos quieto_nvic simp: cabe_simps)

lemma quieto_reconectar: "quieto E reconectar"
  unfolding reconectar_def by (intro quietos) (simp_all add: cabe_simps)

lemma caso_REPOSO_paso:
  assumes "c_estado c = REPOSO"
  shows "cumple {} c caso_REPOSO (\<lambda>_. paso c)"
proof -
  let ?fin = "bind display_clear (\<lambda>_. bind (ir ESPERANDO_ACCION) (\<lambda>_. ret ())) :: (unit, 'a) mprog"
  have fin: "cumple {} (c\<lparr>c_tabla := us\<rparr>) ?fin (\<lambda>_. paso c)"
    if "us = c_tabla c \<or> tabla_recibida us" for us
    by (intro pasos) (rule despertar [OF assms that])
  have sync: "cumple {} (c\<lparr>c_tabla := us\<rparr>)
      (bind (if b then modify (\<lambda>w. w\<lparr>ultimaVersionConocida := v\<rparr>) else ret ())
        (\<lambda>_. bind (delay 1000) (\<lambda>_. ?fin))) (\<lambda>_. paso c)"
    if "us = c_tabla c \<or> tabla_recibida us" for us b v
    by (intro cumple_If_bind; (unfold bind_ret)?; intro pasos_quietos fin that)
  have igual: "cumple {} c ?fin (\<lambda>_. paso c)" using fin [of "c_tabla c"] by simp
  have ver: "cumple {} c (bind (verificarVersion v) (\<lambda>_. ?fin)) (\<lambda>_. paso c)" for v
    unfolding verificarVersion_def
  proof (rule cumple_If_bind, goal_cases)
    case 1
    then show ?case
      unfolding secuencia by (intro pasos_quietos igual) (simp_all add: cabe_simps)
  next
    case 2
    show ?case
      unfolding bind_assoc
    proof (rule cumple_gets, rule cumple_If_bind, goal_cases)
      case 1
      show ?case
        unfolding secuencia
      proof (rule pasos_quietos, simp add: cabe_simps, rule pasos_quietos, rule cumple_bind,
          rule cumple_mono [OF cumple_sincronizar], goal_cases)
        case (1 _ _ _ c')
        then obtain us where "c' = c\<lparr>c_tabla := us\<rparr>" "us = c_tabla c \<or> tabla_recibida us" by blast
        with sync show ?case by blast
      qed
    next
      case 2
      show ?case unfolding secuencia by (intro pasos_quietos igual) (simp_all add: cabe_simps)
    qed
  qed
  show ?thesis
    unfolding caso_REPOSO_def entrarModoSleep_def secuencia
    by (intro cumple_quieto_bind [OF quieto_dormir] quieto_nvic [THEN cumple_quieto_bind] pasos_quietos
        cumple_quieto_bind [OF quieto_reconectar] ver)
      (simp_all add: cabe_simps)
qed

text \<open>Reading the keypad, with what the result says about the PIN.\<close>

lemma cumple_leerPin_bind:
  assumes "\<And>pin' t. es_pin_tecleado pin' \<Longrightarrow> cumple E c (f (1, pin', t)) Q"
    and "\<And>res t. res \<noteq> 1 \<Longrightarrow> cumple E c (f (res, pin, t)) Q"
  shows "cumple E c (bind (tecladoLeerPin pin act) f) Q"
  by (rule cumple_bind, rule cumple_mono [OF cumple_leerPin])
    (use assms in \<open>auto simp: es_pin_tecleado_def split: if_splits\<close>)

lemmas consume = consumes_case_prod consumes_bind consumes_tickRead within_splits shr.within_block
  shr.mef_ops shr.mef_mods

lemma pinAdmin_paso:
  "cumple E c pinAdmin (\<lambda>ok c'. c' = c \<and> (ok \<longrightarrow> (\<exists>p. es_pin_tecleado p \<and> esPinMaster (c_tabla c) p)))"
  unfolding pinAdmin_def
proof (intro pasos_quietos cumple_loop [where I = "\<lambda>_ c'. c' = c"], goal_cases)
  case (2 t u x)
  show ?case by (intro consume)
next
  case (3 t u x c')
  then show ?case
    by (cases x)
      (auto intro!: pasos_quietos cumple_If cumple_leerPin_bind cumple_gets cumple_ret
        simp: ctl_campos)
qed simp_all

lemma acceso_admin_paso:
  assumes "c_estado c = ESPERANDO_ACCION"
  shows "cumple E c acceso_admin (\<lambda>_. paso c)"
  unfolding acceso_admin_def
proof (rule pasos_quietos, simp add: cabe_simps, rule cumple_bind, rule cumple_mono [OF pinAdmin_paso],
    goal_cases)
  case (1 _ ok c')
  then have c': "c' = c" and ok: "ok \<Longrightarrow> \<exists>p. es_pin_tecleado p \<and> esPinMaster (c_tabla c) p" by auto
  show ?case
    unfolding c' secuencia
    by (intro cumple_If pasos)
      (use ok pin_maestro [OF assms] esperar [OF assms] in \<open>auto simp: cabe_simps\<close>)
qed

lemma esperar_sensores_paso:
  assumes "c_estado c = ESPERANDO_ACCION"
  shows "cumple {BufferOverflow} c esperar_sensores (\<lambda>_. paso c)"
  unfolding esperar_sensores_def
proof (rule cumple_bind, rule cumple_mono [OF cumple_rfid], simp, goal_cases)
  case (1 r c')
  then have c': "c' = c" by simp
  show ?case
  proof (cases r)
    case None
    have q: "quieto {BufferOverflow} (if a then ret ()
           else
             bind tickRead (\<lambda>t.
             bind (gets agendaHuella) (\<lambda>agenda.
             if desde_l t agenda \<ge> INTERVALO_HUELLA_MS then
               block [
                 as608ScanReset,
                 modify (\<lambda>w. w\<lparr>escaneoActivo := True\<rparr>),
                 bind tick32 (\<lambda>t2. modify (\<lambda>w. w\<lparr>agendaHuella := t2\<rparr>))]
             else ret ())) :: (unit, 'a) mprog)" for a
      by (intro quietos quieto_block) (auto intro!: quietos)
    show ?thesis
      unfolding None option.case programar_escaneo_def c'
      by (intro cumple_quieto_bind [OF quieto_gets] cumple_quieto_bind [OF q] cumple_If pasos
          escaneo [OF assms] esperar [OF assms])
  next
    case (Some t)
    with 1 tarjeta [OF assms, of t] show ?thesis
      unfolding Some option.case c' secuencia by (intro pasos) (simp_all add: cabe_simps)
  qed
qed

lemma caso_ESPERANDO_paso:
  assumes "c_estado c = ESPERANDO_ACCION"
  shows "cumple {BufferOverflow} c caso_ESPERANDO_ACCION (\<lambda>_. paso c)"
proof -
  have q: "quieto {BufferOverflow} (if e then block [modify (\<lambda>w. w\<lparr>eventoPresencia := False\<rparr>), marcar]
      else ret () :: (unit, 'a) mprog)" for e
    by (intro quietos quieto_block) (auto intro!: quietos)
  show ?thesis
    unfolding caso_ESPERANDO_ACCION_def leer_pin_mef_def bind_assoc
  proof (intro cumple_quieto_bind [OF quieto_gets] cumple_quieto_bind [OF q], unfold secuencia,
      intro pasos_quietos, simp_all add: cabe_simps, rule cumple_gets, goal_cases)
    case (1 w)
    then have p: "pinIngresado w = c_pin c" by (rule ctl_campos)
    show ?case
    proof (rule cumple_quieto_bind [OF quieto_gets], rule cumple_leerPin_bind, goal_cases)
      case (1 act pin' t)
      then show ?case
        using pin_completo [OF assms]
        by (simp add: secuencia) (intro pasos; simp)
    next
      case (2 act res t)
      show ?case
        using 2 inactividad [OF assms]
        by (simp add: p secuencia)
          (intro conjI impI pasos cumple_If cumple_quieto_bind [OF quieto_gets];
            simp add: acceso_admin_paso [OF assms] esperar_sensores_paso [OF assms])
    qed
  qed
qed

section \<open>The menu\<close>

lemma quieto_leer_opcion: "quieto E leer_opcion"
  unfolding leer_opcion_def
  by (intro quieto_loop consumes_despues [OF shr.within_tecladoLeerTecla] consumes_bind consumes_delay
      shr.within_rules quietos)

lemma quieto_leer_subopcion: "quieto E leer_subopcion"
  unfolding leer_subopcion_def by (intro quieto_loop consume quietos)

lemma leer_pin_hasta_paso:
  "cumple E c (leer_pin_hasta t) (\<lambda>(pin, ok) c'. c' = c \<and> (if ok then es_pin_tecleado pin else pin = []))"
  unfolding leer_pin_hasta_def
proof (intro pasos_quietos cumple_loop [where I = "\<lambda>(pin, _) c'. c' = c \<and> pin = []"], goal_cases)
  case (2 u x)
  show ?case
    by (cases x) (simp, rule consumes_leerPin_bind, auto intro!: consume)
next
  case (3 u x c')
  then show ?case
    by (cases x) (auto intro!: pasos_quietos cumple_If cumple_leerPin_bind cumple_ret)
qed simp_all

lemma borrar_todas_paso:
  "cumple E c borrar_todas (\<lambda>_ c'. c' = c \<or> c' = c\<lparr>c_tabla := eliminarTodasHuellasLocal (c_tabla c)\<rparr>)"
  unfolding borrar_todas_def secuencia
  by (intro pasos cumple_If_bind; (unfold secuencia)?; (intro pasos cumple_sobre_tabla)?)
    (auto simp: cabe_simps intro!: pasos)

lemma length_fmt_u16: "length (fmt_u (unat (x :: u16))) \<le> 5"
  using fmt_u_length [of "unat x" 4] unsigned_less [of x, where 'a = nat] by simp

lemma borrar_id_paso:
  assumes "length p \<le> 5"
  shows "cumple E c (borrar_id p i) (\<lambda>_ c'. c' = c \<or> c' = c\<lparr>c_tabla := snd (eliminarHuellaLocal (c_tabla c) p)\<rparr>)"
proof -
  let ?s = "''ID = , '' @ fmt_u (unat (of_int (atoi i) :: u16))"
  have l: "length ?s \<le> 12" using length_fmt_u16 by simp
  then have "length ?s < 30" by linarith
  note s = bind_store_str [OF this]
  show ?thesis
    unfolding borrar_id_def Let_def s secuencia
    by (intro pasos cumple_If; (unfold secuencia)?; (intro pasos cumple_sobre_tabla)?)
      (use l assms in \<open>auto simp: cabe_simps intro!: pasos\<close>)
qed

lemma cumple_huella_de:
  assumes "wf_tabla (c_tabla c)"
  shows "cumple E c (huella_de p) (\<lambda>h c'. c' = c \<and> obtenerHuellaAsignadaPorPin (c_tabla c) p = Inr h \<and>
     (h \<noteq> None \<longleftrightarrow> validarPin (c_tabla c) p) \<and> (\<forall>i. h = Some i \<longrightarrow> length i \<le> 4))"
proof -
  obtain h where h: "obtenerHuellaAsignadaPorPin (c_tabla c) p = Inr h" "h \<noteq> None \<longleftrightarrow> validarPin (c_tabla c) p"
      "\<And>i. h = Some i \<Longrightarrow> length i \<le> 4"
    using obtenerHuella_sin_fallo [OF assms] by metis
  show ?thesis
    unfolding huella_de_def
    by (rule cumple_gets) (simp add: ctl_campos h cumple_ret del: not_None_eq)
qed

lemma borrar_una_paso:
  assumes "wf_tabla (c_tabla c)"
  shows "cumple E c borrar_una (\<lambda>_ c'. \<exists>us. tabla_menu (c_tabla c) us \<and> c' = c\<lparr>c_tabla := us\<rparr>)"
proof -
  let ?Q = "\<lambda>_ :: unit. \<lambda>c'. \<exists>us. tabla_menu (c_tabla c) us \<and> c' = c\<lparr>c_tabla := us\<rparr>"
  let ?fin = "bind display_update (\<lambda>_. bind (delay 2000) (\<lambda>_. bind display_clear (\<lambda>_. ret ()))) :: (unit, 'a) mprog"
  have fin: "cumple E c' ?fin ?Q" if "?Q () c'" for c'
    by (intro pasos that)
  have igual: "?Q () c" by (rule exI [of _ "c_tabla c"]) (simp add: tabla_menu_def)
  have uno: "cumple E c (bind (borrar_id p i) (\<lambda>_. ?fin)) ?Q" if "validarPin (c_tabla c) p" "length p \<le> 5" for p i
  proof (rule cumple_bind, rule cumple_mono [OF borrar_id_paso [OF that(2)]], rule fin, erule disjE)
    show "?Q () c'" if "c' = c" for c' using igual that by simp
    show "?Q () c'" if "c' = c\<lparr>c_tabla := snd (eliminarHuellaLocal (c_tabla c) p)\<rparr>" for c'
      using \<open>validarPin _ p\<close> that by (auto simp: tabla_menu_def)
  qed
  have ninguno: "cumple E c (bind (block [display_clear, lineas [(''NO TIENE HUELLA'', 20), (''O PIN INVALIDO'', 40)],
      alertaError]) (\<lambda>_. ?fin)) ?Q"
    unfolding secuencia by (intro pasos igual) (simp_all add: cabe_simps)
  show ?thesis
    unfolding borrar_una_def
  proof (rule pasos_quietos, simp add: cabe_simps, rule cumple_bind, rule cumple_mono [OF leer_pin_hasta_paso],
      clarify, rule cumple_gets, goal_cases)
    case (1 p ok _ w)
    then have l: "length p \<le> 5" by (auto simp: es_pin_tecleado_def PIN_LENGTH_def split: if_splits)
    show ?case
    proof (rule cumple_If_bind, goal_cases)
      case 1
      then have v: "validarPin (c_tabla c) p" using \<open>ctl w = c\<close> by (simp add: ctl_campos)
      show ?case
      proof (rule cumple_bind, rule cumple_mono [OF cumple_huella_de [OF assms]], clarify, goal_cases)
        case (1 h)
        with v obtain i where "h = Some i" by auto
        with uno [OF v l] show ?case by simp
      qed
    next
      case 2
      show ?case using ninguno by simp
    qed
  qed
qed

lemma quieto_printAt:
  assumes "unat x + 6 * length s < 256" and "(unat y div 8) * 128 + unat x + 6 * length s \<le> BUFFER_SIZE"
  shows "quieto E (display_printAt s x y)"
proof (rule quieto_safe)
  show "safe E (display_printAt s x y :: (unit, 'a) mprog)"
    using assms
    by (simp add: keeps_def display_printAt_def display_setCursor_def bind_modify display_print_ok
      bind_apply cursor_pos_def add.commute)
qed (rule qs.within_display_printAt)

lemma opcion_wifi_paso:
  assumes "c_estado c = MENU_ADMIN"
  shows "cumple {Uninitialised} c opcion_wifi (\<lambda>_. paso c)"
proof -
  have fin: "paso c (c\<lparr>c_estado := ESPERANDO_ACCION\<rparr>)"
    using menu_fin [OF assms, of "c_tabla c"] by (simp add: tabla_menu_def)
  show ?thesis
    unfolding opcion_wifi_def secuencia
    by (intro pasos cumple_If_bind; (unfold secuencia)?; (intro pasos fin)?)
      (simp_all add: cabe_simps entre_comillas_def)
qed

lemma opcion_borrar_paso:
  assumes "c_estado c = MENU_ADMIN" and "wf_tabla (c_tabla c)"
  shows "cumple E c opcion_borrar (\<lambda>_. paso c)"
proof -
  let ?fin = "bind marcar (\<lambda>_. bind (ir ESPERANDO_ACCION) (\<lambda>_. ret ())) :: (unit, 'a) mprog"
  have fin: "cumple E (c\<lparr>c_tabla := us\<rparr>) ?fin (\<lambda>_. paso c)" if "tabla_menu (c_tabla c) us" for us
    by (intro pasos) (use menu_fin [OF assms(1) that] in simp)
  have igual: "cumple E c ?fin (\<lambda>_. paso c)"
    using fin [of "c_tabla c"] by (simp add: tabla_menu_def)
  have todas: "cumple E c (bind borrar_todas (\<lambda>_. ?fin)) (\<lambda>_. paso c)"
    by (rule cumple_bind, rule cumple_mono [OF borrar_todas_paso], elim disjE)
      (use igual fin in \<open>auto simp: tabla_menu_def\<close>)
  have una: "cumple E c (bind borrar_una (\<lambda>_. ?fin)) (\<lambda>_. paso c)"
    by (rule cumple_bind, rule cumple_mono [OF borrar_una_paso [OF assms(2)]]) (use fin in auto)
  show ?thesis
    unfolding opcion_borrar_def
  proof (rule pasos_quietos, simp add: cabe_simps, rule cumple_bind, rule cumple_mono [OF leer_pin_hasta_paso],
      clarify, rule cumple_gets, rule cumple_If, goal_cases)
    case 1
    show ?case
      unfolding secuencia by (intro pasos) (simp_all add: cabe_simps menu_sigue assms)
  next
    case 2
    show ?case
      unfolding secuencia
      by (intro pasos_quietos cumple_quieto_bind [OF quieto_leer_subopcion] cumple_If_bind; (unfold secuencia)?)
        (use todas una igual in \<open>simp_all add: cabe_simps\<close>)
  qed
qed

lemma caso_MENU_paso:
  assumes "c_estado c = MENU_ADMIN" and "wf_tabla (c_tabla c)"
  shows "cumple {Uninitialised} c caso_MENU_ADMIN (\<lambda>_. paso c)"
proof -
  have fin: "paso c (c\<lparr>c_tabla := us, c_estado := ESPERANDO_ACCION\<rparr>)" if "tabla_menu (c_tabla c) us" for us
    by (rule menu_fin [OF assms(1) that])
  have igual: "paso c (c\<lparr>c_estado := ESPERANDO_ACCION\<rparr>)"
    using fin [of "c_tabla c"] by (simp add: tabla_menu_def)
  have sinc: "cumple {Uninitialised} c (block [void sincronizarConServidor, marcar, ir ESPERANDO_ACCION])
      (\<lambda>_. paso c)"
    unfolding secuencia
    by (rule cumple_bind, rule cumple_mono [OF cumple_sincronizar])
      (use igual fin in \<open>auto simp: tabla_menu_def intro!: pasos\<close>)
  show ?thesis
    unfolding caso_MENU_ADMIN_def secuencia
    by (intro pasos_quietos quieto_println [THEN cumple_quieto_bind] quieto_printAt [THEN cumple_quieto_bind]
        cumple_quieto_bind [OF quieto_leer_opcion] cumple_If)
      (use sinc in \<open>simp_all add: cabe_simps opcion_wifi_paso opcion_borrar_paso assms secuencia\<close>,
       (intro pasos; simp add: cabe_simps igual menu_registro assms)+)
qed

end
