(* ===== verification/Mef_Registro.thy ===== *)
theory Mef_Registro
  imports Mef_Refina
begin

text \<open>
  The two registration states (\<^verbatim>\<open>REGISTRAR_RFID\<close>, \<^verbatim>\<open>REGISTRAR_HUELLA\<close>): the dialogue
  that asks for the user's PIN, the card or the finger, and the entry that is
  stored. Each is a step of the abstract machine \<open>paso\<close>.
\<close>

section \<open>Registration\<close>

definition pin_pedido :: "ctl \<Rightarrow> string \<Rightarrow> ctl \<Rightarrow> bool" where
  "pin_pedido c pin c' \<longleftrightarrow> length pin \<le> 5 \<and>
     (c' = c \<and> validarPin (c_tabla c) pin \<or> c' = c\<lparr>c_estado := ESPERANDO_ACCION\<rparr>)"

lemma pedir_pin_paso_paso:
  assumes "length pin \<le> 5"
  shows "cumple E c (pedir_pin_paso pin t) (\<lambda>(pin', _) c'. length pin' \<le> 5 \<and>
     (c' = c \<or> c' = c\<lparr>c_estado := ESPERANDO_ACCION\<rparr>))"
  unfolding pedir_pin_paso_def
proof (rule cumple_loop [where I = "\<lambda>(pin', _) c'. c' = c \<and> length pin' \<le> 5"], goal_cases)
  case (2 x)
  show ?case
    by (cases x) (simp, rule consumes_leerPin_bind, auto intro!: consume shr.within_bind)
next
  case (3 x c')
  then show ?case
    by (cases x) (auto intro!: pasos cumple_If cumple_leerPin_bind cumple_ret
      simp: es_pin_tecleado_def PIN_LENGTH_def secuencia)
qed (use assms in simp)

lemma pedir_pin_pin: "cumple E c pedir_pin (pin_pedido c)"
  unfolding pedir_pin_def
proof (intro pasos_quietos cumple_loop [where I = "\<lambda>(k, pin, _) c'. 0 \<le> k \<and> k \<le> 2 \<and> length pin \<le> 5 \<and>
      (c' = c \<or> c' = c\<lparr>c_estado := ESPERANDO_ACCION\<rparr>)"], goal_cases)
  case (2 u x)
  show ?case
    by (cases x) (auto intro!: consumes_bind consumes_mostrar shr.within_pedir_pin_paso consume shr.within_bind)
next
  case (3 u x c')
  then obtain k pin t where x: "x = (k, pin, t)" and k: "0 \<le> k" "k \<le> 2" and l: "length pin \<le> 5"
    and c': "c' = c \<or> c' = c\<lparr>c_estado := ESPERANDO_ACCION\<rparr>" by (cases x) auto
  have d: "length (fmt_d (k + 1)) = 1" using k by (intro fmt_d_corto) auto
  show ?case
    unfolding x prod.case
  proof (rule pasos_quietos, simp add: cabe_simps, rule cumple_bind, rule cumple_mono [OF pedir_pin_paso_paso [OF l]],
      clarify, rule cumple_gets, rule cumple_If, goal_cases)
    case (1 pin' t' c'' w)
    then show ?case
      using c' by (auto intro!: cumple_ret simp: pin_pedido_def ctl_campos)
  next
    case (2 pin' t' c'' w)
    then show ?case
      unfolding secuencia
      using c' k
      by (subst bind_store_str, simp add: d)
       (intro pasos cumple_If; (unfold secuencia)?; (intro pasos)?;
         auto simp: cabe_simps d pin_pedido_def)
  qed
qed simp_all

lemma cumple_enroll:
  "cumple E c (as608EnrollAtId i) (\<lambda>r c'. c' = c \<and> (fst r \<longrightarrow> snd r = fmt_04u (unat i) \<and> length (snd r) = 4))"
proof (rule cumpleI)
  fix w :: "'a mef_scheme"
  assume w: "base w" "ctl w = c"
  have "sat E (\<lambda>_ w'. base w' \<and> ctl w' = c) (\<lambda>_. True) (as608EnrollAtId i w)"
    using quieto_as608(3) [of E i] w unfolding quieto_def cumple_def by blast
  then have "sat E (\<lambda>x w'. (base w' \<and> ctl w' = c) \<and> (fst x \<longrightarrow> snd x = fmt_04u (unat i) \<and> length (snd x) = 4))
     (\<lambda>_. True) (as608EnrollAtId i w)"
  proof (rule sat_conj_Ret)
    fix x w'
    assume "as608EnrollAtId i w = Ret x w'"
    then show "fst x \<longrightarrow> snd x = fmt_04u (unat i) \<and> length (snd x) = 4"
      by (cases x) (auto dest: enroll_id)
  qed
  then show "sat E (\<lambda>x w'. base w' \<and> ctl w' = c \<and> (fst x \<longrightarrow> snd x = fmt_04u (unat i) \<and> length (snd x) = 4))
     (\<lambda>_. True) (as608EnrollAtId i w)"
    by (simp only: conj_assoc)
qed

lemma cumple_enrolar:
  "cumple E c (enrolar i) (\<lambda>r c'. c' = c \<and> (\<forall>s. r = Some s \<longrightarrow> s = fmt_04u (unat i) \<and> length s = 4))"
  unfolding enrolar_def
proof (rule cumple_for_find, rule cumple_bind, rule cumple_mono [OF cumple_enroll], clarify, rule cumple_If, goal_cases)
  case 1
  then show ?case by (intro cumple_ret) (auto simp del: fmt_04u_length)
next
  case (2 k)
  then have "k < 10" by auto
  then have d: "length (fmt_u k) = 1" by (subst fmt_u.simps) simp
  then show ?case
    unfolding secuencia
    by (intro pasos, simp_all add: cabe_simps, subst bind_store_str, simp)
      (intro pasos; simp add: cabe_simps)
qed

lemma cumple_tarjeta:
  assumes "BufferOverflow \<in> E"
  shows "cumple E c esperar_tarjeta (\<lambda>_ c'. c' = c\<lparr>c_estado := ESPERANDO_ACCION\<rparr> \<or>
     (\<exists>t. length t = 8 \<and> c' = c\<lparr>c_rfid := t\<rparr>))"
  unfolding esperar_tarjeta_def secuencia
proof (intro pasos_quietos, simp add: cabe_simps, rule cumple_loop [where I = "\<lambda>_ c'. c' = c"], goal_cases)
  case (2 u x)
  show ?case by (intro consumes_bind consumes_leer_rfid consume)
next
  case (3 u x c')
  show ?case
    unfolding 3
    by (rule cumple_bind, rule cumple_mono [OF cumple_rfid [OF assms]])
      (auto split: option.split simp: secuencia intro!: pasos cumple_If)
qed simp

lemma guardar_tarjeta_paso:
  assumes "c_estado c = REGISTRAR_RFID" and "validarPin (c_tabla c) p" and "length p \<le> 5" and "length t = 8"
  shows "cumple E (c\<lparr>c_rfid := t\<rparr>) (guardar_tarjeta p) (\<lambda>_. paso c)"
proof -
  obtain xs u ys where "c_tabla c = xs @ u # ys" "es_pin p u" "\<forall>x \<in> set xs. \<not> es_pin p x"
    using assms(2) by (rule primero)
  with assms(4) obtain us where us: "asociarRFIDaPin (c_tabla c) p t = Inr (True, us)"
    by (simp add: asociarRFID_primero)
  note fin = registro_rfid [OF assms(1,2,4) us]
  show ?thesis
    unfolding guardar_tarjeta_def
  proof (rule cumple_gets, goal_cases)
    case (1 w)
    then have x: "rfidLeido w = t" by (simp add: ctl_campos)
    show ?case
      unfolding x secuencia
    proof (rule pasos_quietos, rule cumple_sobre_tabla, goal_cases)
      case (1 e)
      then show ?case using us by simp
    next
      case (2 x b us')
      then have "us' = us" using us by simp
      with fin assms(3,4) show ?case
        by (simp only:) (intro pasos; simp add: cabe_simps)
    qed
  qed
qed

lemma caso_REGISTRAR_RFID_paso:
  assumes "c_estado c = REGISTRAR_RFID"
  shows "cumple {BufferOverflow} c caso_REGISTRAR_RFID (\<lambda>_. paso c)"
proof -
  have fin: "paso c (c\<lparr>c_estado := ESPERANDO_ACCION\<rparr>)" using assms by (simp add: registro_falla)
  show ?thesis
    unfolding caso_REGISTRAR_RFID_def secuencia
  proof (intro pasos_quietos, simp add: cabe_simps, rule cumple_bind, rule cumple_mono [OF pedir_pin_pin],
      rule cumple_gets, rule cumple_If, goal_cases)
    case (1 _ _ p c' w)
    then show ?case using fin assms by (auto simp: pin_pedido_def ctl_campos intro!: cumple_ret)
  next
    case (2 _ _ p c' w)
    then have c': "c' = c" and v: "validarPin (c_tabla c) p" "length p \<le> 5"
      by (auto simp: pin_pedido_def ctl_campos)
    show ?case
      unfolding c'
      by (rule cumple_bind, rule cumple_mono [OF cumple_tarjeta], simp, elim disjE exE conjE; rule cumple_gets)
        (use fin guardar_tarjeta_paso [OF assms v] assms in \<open>auto simp: ctl_campos intro!: cumple_ret\<close>)
  qed
qed

lemma guardar_huella_paso:
  assumes "c_estado c = REGISTRAR_HUELLA" and "obtenerHuellaAsignadaPorPin (c_tabla c) p = Inr (Some i)"
    and "length p \<le> 5" and "s = fmt_04u (unat (of_int (atoi i) :: u16))" and "length s = 4"
  shows "cumple E c (guardar_huella p s) (\<lambda>_. paso c)"
  unfolding guardar_huella_def secuencia
proof (rule cumple_sobre_tabla, simp, goal_cases)
  case (1 x us)
  then have us: "us = snd (asociarHuellaaPin (c_tabla c) p s)" by simp
  show ?case
    using registro_huella [OF assms(1,2) us [unfolded assms(4)]] assms(3,5)
    by (intro pasos; simp add: cabe_simps)
qed

lemma registrar_id_paso:
  assumes "c_estado c = REGISTRAR_HUELLA" and "obtenerHuellaAsignadaPorPin (c_tabla c) p = Inr (Some i)"
    and "length p \<le> 5"
  shows "cumple E c (registrar_id p i) (\<lambda>_. paso c)"
proof -
  let ?i = "of_int (atoi i) :: u16"
  have l: "length (''ID ASIGNADO: '' @ fmt_d (sint ?i)) < 20" using fmt_d_id [of ?i] by simp
  have fin: "paso c (c\<lparr>c_estado := ESPERANDO_ACCION\<rparr>)" using assms by (simp add: registro_falla)
  show ?thesis
    unfolding registrar_id_def Let_def secuencia bind_store_str [OF l]
  proof (intro pasos_quietos, (use fmt_d_id [of ?i] in \<open>simp_all add: cabe_simps\<close>)[2], rule cumple_bind,
      rule cumple_mono [OF cumple_enrolar], goal_cases)
    case (1 _ _ _ _ _ r c')
    then have c': "c' = c" by simp
    show ?case
    proof (cases r)
      case None
      then show ?thesis
        unfolding c' None option.case by (intro pasos; simp add: cabe_simps fin)
    next
      case (Some s)
      with 1 have "s = fmt_04u (unat ?i)" "length s = 4" by blast+
      then show ?thesis
        unfolding c' Some option.case by (rule guardar_huella_paso [OF assms])
    qed
  qed
qed

lemma caso_REGISTRAR_HUELLA_paso:
  assumes "c_estado c = REGISTRAR_HUELLA" and "wf_tabla (c_tabla c)"
  shows "cumple E c caso_REGISTRAR_HUELLA (\<lambda>_. paso c)"
proof -
  have fin: "paso c (c\<lparr>c_estado := ESPERANDO_ACCION\<rparr>)" using assms by (simp add: registro_falla)
  show ?thesis
    unfolding caso_REGISTRAR_HUELLA_def
  proof (rule pasos_quietos, simp add: cabe_simps, rule cumple_bind, rule cumple_mono [OF pedir_pin_pin],
      rule cumple_gets, rule cumple_If, goal_cases)
    case (1 _ p c' w)
    then show ?case using fin assms by (auto simp: pin_pedido_def ctl_campos intro!: cumple_ret)
  next
    case (2 _ p c' w)
    then have c': "c' = c" and v: "validarPin (c_tabla c) p" "length p \<le> 5"
      by (auto simp: pin_pedido_def ctl_campos)
    show ?case
      unfolding c'
    proof (rule cumple_bind, rule cumple_mono [OF cumple_huella_de [OF assms(2)]], goal_cases)
      case (1 h c1)
      with v obtain i where "h = Some i" by auto
      with 1 show ?case by (simp add: registrar_id_paso assms v)
    qed
  qed
qed

end
