(* ===== verification/Mef_Arranque.thy ===== *)
theory Mef_Arranque
  imports Mef_Registro
begin

text \<open>
  Power-up: \<^verbatim>\<open>main\<close> up to its endless loop (\<open>arranque\<close>) returns without undefined
  behaviour, and leaves the machine waiting for a user with the table of the
  firmware or one received from the server, no failed attempts and the bolt where
  it was.
\<close>

section \<open>The initialisations have no undefined behaviour\<close>

lemma safe_tickInit: "safe E (tickInit n)"
  by (auto simp: tickInit_def tickPowerSet_def intro!: keeps_rules keeps_modify keeps_splits)

lemma safe_boardInit: "safe E boardInit"
  unfolding boardInit_def
  by (intro keeps_block)
    (auto intro!: keeps_void keeps_rules safe_tickInit safe_gpioInit simp: pin_valido_def gpio_map_defs)

lemma safe_display_init: "safe E display_init"
  unfolding display_init_def ssd1306_cmd_def i2cInit_def
  by (intro keeps_block)
    (auto intro!: keeps_void keeps_rules keeps_modify keeps_splits safe_disp(1,2) safe_sapi safe_tickInit)

lemma safe_uartInit: "safe E (uartInit u b)"
  unfolding uartInit_def Chip_SCU_PinMux_def
  by (auto intro!: keeps_rules keeps_splits keeps_modify)

lemma safe_as608Init: "safe E (as608Init b)"
  unfolding as608Init_def as608Check_def as608CmdTemplateCount_def
  by (intro keeps_block)
    (auto intro!: keeps_void keeps_rules keeps_splits safe_sapi safe_as608FlushRx safe_as608Send safe_as608Recv
       safe_as608WritePacket safe_uartInit)

lemma safe_espATInit: "safe E (espATInit b)"
  unfolding espATInit_def
  by (intro keeps_block) (auto intro!: keeps_rules safe_sapi safe_uartInit keeps_loop consumes_bind consumes_uartReadByte shr.within_rules)

lemma safe_pines: "safe E driverConfig" "safe E alertasInit" "safe E configurarPines"
    "safe E configurarInterrupcionPRESENCIA" "safe E rc522_hw_init"
  unfolding driverConfig_def alertasInit_def configurarPines_def configurarInterrupcionPRESENCIA_def
    rc522_hw_init_def dir_salida_def Chip_GPIO_SetDir_def Chip_SCU_PinMux_def Chip_SCU_GPIOIntPinSel_def
    Chip_PININT_ClearIntStatus_def Chip_PININT_SetPinModeEdge_def Chip_PININT_EnableIntHigh_def rc522_cs_high_def
    spiInit_def
  by (intro keeps_block; auto intro!: keeps_void keeps_rules keeps_splits keeps_modify safe_set_pin safe_sapi
     simp: pin_valido_def gpio_map_defs RC522_CS_GPIO_def RC522_RST_GPIO_def)+

lemma safe_rc522_init: "safe E rc522_init_iso14443a"
  unfolding rc522_init_iso14443a_def rc522_reset_def rc522_antenna_on_def rc522_set_bits_def
  by (intro keeps_block) (auto intro!: keeps_block keeps_rules keeps_splits safe_write_reg safe_read_reg safe_sapi)

lemma safe_keypadInit: "safe E (keypadInit rowPins colPins)"
  unfolding keypadInit_def
  by (intro keeps_rules safe_gpioInit) (auto simp: pin_valido_def gpio_map_defs rowPins_def colPins_def)

definition igual_ctl :: "'z mef_scheme \<Rightarrow> 'z mef_scheme \<Rightarrow> bool" where
  "igual_ctl w w' \<longleftrightarrow> ctl w' = ctl w"

lemma env_frame_igual_ctl: "env_frame w w' \<Longrightarrow> igual_ctl w w'"
  using motor_gpioLog [OF env_frame_gpioLog, of w w'] env_frame_ctl [of w w']
  by (simp add: igual_ctl_def ctl_def)

interpretation ic: disp_stable igual_ctl "- motor_pins" UNIV
  by unfold_locales
    (simp_all add: within_poll_frame env_frame_igual_ctl,
     simp_all add: igual_ctl_def ctl_def motor_set_pin motor_ev_otro,
     simp_all add: motor_def)

section \<open>mefInit\<close>

lemma quieto_init: "quieto E alertasInit" "quieto E configurarPines" "quieto E (espATInit b)"
   "quieto E (as608Init b)" "quieto E (as608SetDebug l)" "quieto E configurarInterrupcionPRESENCIA"
   "quieto E rc522_hw_init" "quieto E rc522_init_iso14443a"
  by (intro quieto_safe safe_pines safe_espATInit safe_as608Init safe_rc522_init qs.within_config
      qe.within_espATInit qs.within_as608Init qc.within_rc522_init qs.within_as608SetDebug
      qs.within_alertas [OF perifericos_no_motor(2), THEN conjunct1]
      | simp add: as608SetDebug_def keeps_modify)+

lemma mefInit_paso:
  "cumple E c mefInit (\<lambda>_ c'. \<exists>us. (us = c_tabla c \<or> tabla_recibida us) \<and>
     c' = c\<lparr>c_tabla := us, c_estado := ESPERANDO_ACCION\<rparr>)"
proof -
  have wifi: "quieto E (if wifiOk then ret ()
         else loop (\<lambda>_.
           bind (mostrar [(''REINTENTO WIFI...'', 20)]) (\<lambda>_.
           bind (inicializarESP 5000) (\<lambda>ok. ret (if ok then Inr () else Inl ())))) () :: (unit, 'a) mprog)" for wifiOk
    by (intro quieto_If quieto_ret quieto_loop quietos consumes_bind consumes_mostrar shr.mef_ops)
      (simp_all add: cabe_simps)
  show ?thesis
    unfolding mefInit_def ALERTAS_ENABLE_def SENSOR_WIFI_ENABLE_def SENSOR_HUELLA_ENABLE_def if_True
      secuencia
  proof (intro quieto_init [THEN cumple_quieto_bind] pasos_quietos cumple_quieto_bind [OF wifi], simp add: cabe_simps,
      rule cumple_bind, rule cumple_mono [OF cumple_sincronizar], elim exE conjE, goal_cases)
    case (1 _ _ _ _ _ _ v c' us)
    then have "\<exists>us'. (us' = c_tabla c \<or> tabla_recibida us') \<and>
        c'\<lparr>c_estado := ESPERANDO_ACCION\<rparr> = c\<lparr>c_tabla := us', c_estado := ESPERANDO_ACCION\<rparr>"
      by auto
    then show ?case
      by (intro quieto_init [THEN cumple_quieto_bind] quieto_nvic [THEN cumple_quieto_bind] pasos) 
        (simp_all add: cabe_simps)
  qed
qed

section \<open>Before the state machine\<close>

lemma boot_igual_ctl:
  "respeta igual_ctl boardInit" "respeta igual_ctl display_init" "respeta igual_ctl (keypadInit rowPins colPins)"
proof -
  let ?S = "set rowPins \<union> set colPins \<union> {0, 36, 37, 38, 39, 40, 41, 42, 43, 44, 45}"
  have g: "respeta igual_ctl (gpioInit p cfg)" if "p \<in> ?S" for p cfg
    using that
    by (intro ic.within_gpioInit)
      (auto simp: gpio_of_def gpioObtainPinInit_def gpioPinsInit_def gpio_map_defs rowPins_def colPins_def
        motor_pins_def motor_pin_defs)
  have f: "respeta igual_ctl (for_each ps (\<lambda>p. void (gpioInit p cfg)))" if "set ps \<subseteq> ?S" for ps cfg
    using that by (induction ps) (auto intro!: ic.within_rules g)
  show "respeta igual_ctl boardInit"
    unfolding boardInit_def
    by (intro ic.within_block) (auto intro!: ic.within_void ic.within_bind ic.within_tickInit g)
  show "respeta igual_ctl display_init" by (rule ic.within_display_init)
  show "respeta igual_ctl (keypadInit rowPins colPins)"
    unfolding keypadInit_def
    by (intro ic.within_bind ic.within_ret f) auto
qed

lemma sat_boot:
  assumes "safe E m" and "respeta igual_ctl m" and "\<And>x w'. ctl w' = ctl w \<Longrightarrow> sat E Q (\<lambda>_. True) (f x w')"
  shows "sat E Q (\<lambda>_. True) (bind m f w)"
  by (rule sat_frame_bind [OF assms(1,2)]) (rule assms(3), simp add: igual_ctl_def)

lemma driverConfig_ctl:
  "\<exists>w'. driverConfig w = Ret () w' \<and> ctl w' = (ctl w)\<lparr>c_motor := (motor w)\<lparr>m_en := True\<rparr>\<rparr>"
  by (simp add: driverConfig_def dir_salida_def set_pin_def Chip_GPIO_SetDir_def Chip_GPIO_SetPinState_def
      bind_modify ctl_def motor_set_pin motor_ev.simps motor_pin_defs) (simp add: motor_def motor_ev.simps motor_pin_defs)

lemma tecladoInit_base:
  assumes "\<not> m_step (motor w)"
  shows "sat E (\<lambda>_ w'. base w' \<and> ctl w' = ctl w) (\<lambda>_. True) (tecladoInit w)"
proof -
  have k: "sat E (\<lambda>r w'. ctl w' = ctl w \<and> snd r = teclado_k) (\<lambda>_. True) (keypadInit rowPins colPins w)"
  proof (rule sat_conj_Ret)
    show "sat E (\<lambda>_ w'. ctl w' = ctl w) (\<lambda>_. True) (keypadInit rowPins colPins w)"
      by (rule sat_weaken [OF sat_safe_within [OF safe_keypadInit boot_igual_ctl(3)]])
        (simp_all add: igual_ctl_def)
  qed (auto simp: keypadInit_def bind_eq_Ret teclado_k_def)
  have m: "base w1 \<and> ctl w1 = ctl w"
    if "ctl w' = ctl w" "w1 = w'\<lparr>keypad := teclado_k, pinTecleado := replicate (PIN_LENGTH + 1) NUL, pos := 0\<rparr>" for w' w1
    using that assms teclado_reset_inv [of "w'\<lparr>keypad := teclado_k\<rparr>"]
    by (auto simp: base_def ctl_def motor_def)
  show ?thesis
    unfolding tecladoInit_def tecladoReset_def
    by (rule sat_bind, rule sat_weaken [OF k]) (auto simp: bind_modify dest: m)
qed

definition inicio :: "ctl \<Rightarrow> bool" where
  "inicio c \<longleftrightarrow> c_estado c = ESPERANDO_ACCION \<and> (c_tabla c = listaPins_init \<or> tabla_recibida (c_tabla c)) \<and>
     c_intentos c = 0 \<and> c_pin c = [] \<and> c_rfid c = [] \<and> m_pos (c_motor c) = 0"

lemma arranque_inicio:
  "sat {} (\<lambda>_ w'. base w' \<and> inicio (ctl w')) (\<lambda>_. True) (arranque (mef0 sc))"
  unfolding arranque_def block.simps
proof (rule sat_boot [OF safe_boardInit boot_igual_ctl(1)], rule sat_boot [OF safe_display_init boot_igual_ctl(2)],
    goal_cases)
  case (1 u w1 v w2)
  then have w2: "ctl w2 = ctl (mef0 sc)" by simp
  then have m: "motor w2 = motor0" by (simp add: ctl_def mef0_def hw0_def motor_def)
  obtain w3 where w3: "driverConfig w2 = Ret () w3" "ctl w3 = (ctl w2)\<lparr>c_motor := motor0\<lparr>m_en := True\<rparr>\<rparr>"
    using driverConfig_ctl [of w2] m by auto
  then have "\<not> m_step (motor w3)" by (auto simp: ctl_def motor0_def)
  note t = tecladoInit_base [OF this, of "{}"]
  have fin: "sat {} (\<lambda>_ w'. base w' \<and> inicio (ctl w')) (\<lambda>_. True) (mefInit w4)" if "base w4 \<and> ctl w4 = ctl w3" for w4
    using that w3(2) w2
    by (intro sat_weaken [OF cumpleD [OF mefInit_paso]])
      (auto simp: inicio_def ctl_def mef0_def hw0_def motor0_def)
  show ?case
    by (rule sat_bind, simp add: w3, rule sat_bind, rule sat_weaken [OF t])
      (use fin in \<open>simp_all add: sat_bind_iff\<close>)
qed

end
