(* ===== verification/Mef_Posible.thy ===== *)
theory Mef_Posible
  imports Mef_Arranque
begin

text \<open>
  Power-up can complete. The judgements of the other theories hold for every
  environment, also for one that ends while the program waits. Here the
  environment is chosen: \<open>puede A m B\<close> says that from a state with \<open>A\<close> some script
  lets \<open>m\<close> return with \<open>B\<close>, and that what comes after it can still be chosen.
  With a clock that runs and a WiFi module that answers \<^verbatim>\<open>OK\<close> to the greeting and
  \<^verbatim>\<open>STATUS:2\<close> to the question for the address, \<open>arranque\<close> returns, and any
  environment can follow.
\<close>

section \<open>Runs that return\<close>

text \<open>A return that satisfies \<open>K\<close>; undefined behaviour is excluded by other lemmas.\<close>

definition llega :: "('a \<Rightarrow> 's \<Rightarrow> bool) \<Rightarrow> ('a, 's) res \<Rightarrow> bool" where
  "llega K r \<longleftrightarrow> (case r of Ret x w \<Rightarrow> K x w | More w \<Rightarrow> False | Fault e w \<Rightarrow> True | Hang w \<Rightarrow> True)"

definition puede :: "('z hw_scheme \<Rightarrow> bool) \<Rightarrow> ('a, 'z) hwprog \<Rightarrow> ('a \<Rightarrow> 'z hw_scheme \<Rightarrow> bool) \<Rightarrow> bool" where
  "puede A m B \<longleftrightarrow> (\<forall>w K. A w \<and> (\<forall>x w'. B x w' \<longrightarrow> (\<exists>s. K x (w'\<lparr>script := s\<rparr>))) \<longrightarrow>
     (\<exists>s. llega K (m (w\<lparr>script := s\<rparr>))))"

lemma llega_bind: "llega K (bind m f w) = llega (\<lambda>x w'. llega K (f x w')) (m w)"
  by (simp add: llega_def bind_apply split: res.splits)

lemma puedeI:
  "(\<And>w K. A w \<Longrightarrow> (\<And>x w'. B x w' \<Longrightarrow> \<exists>s. K x (w'\<lparr>script := s\<rparr>)) \<Longrightarrow> \<exists>s. llega K (m (w\<lparr>script := s\<rparr>))) \<Longrightarrow>
   puede A m B"
  by (simp add: puede_def)

lemma puedeD:
  "puede A m B \<Longrightarrow> A w \<Longrightarrow> (\<And>x w'. B x w' \<Longrightarrow> \<exists>s. K x (w'\<lparr>script := s\<rparr>)) \<Longrightarrow> \<exists>s. llega K (m (w\<lparr>script := s\<rparr>))"
  by (simp add: puede_def)

lemma puede_mono: "puede A m B \<Longrightarrow> (\<And>w. A' w \<Longrightarrow> A w) \<Longrightarrow> (\<And>x w. B x w \<Longrightarrow> B' x w) \<Longrightarrow> puede A' m B'"
  unfolding puede_def by blast

lemma puede_bind:
  assumes "puede A m B" and "\<And>x. puede (B x) (f x) C"
  shows "puede A (bind m f) C"
proof (rule puedeI)
  fix w K
  assume "A w" and K: "\<And>x w'. C x w' \<Longrightarrow> \<exists>s. K x (w'\<lparr>script := s\<rparr>)"
  then show "\<exists>s. llega K (bind m f (w\<lparr>script := s\<rparr>))"
    unfolding llega_bind by (intro puedeD [OF assms(1)] puedeD [OF assms(2)])
qed

lemma puede_ret: "(\<And>w. A w \<Longrightarrow> B x w) \<Longrightarrow> puede A (ret x) B"
  by (simp add: puede_def llega_def)

lemma puede_gets:
  "(\<And>w s. f (w\<lparr>script := s\<rparr>) = f w) \<Longrightarrow> (\<And>w. A w \<Longrightarrow> B (f w) w) \<Longrightarrow> puede A (gets f) B"
  by (simp add: puede_def llega_def)

lemma puede_modify:
  assumes "\<And>w s. f (w\<lparr>script := s\<rparr>) = (f w)\<lparr>script := s\<rparr>" and "\<And>w. A w \<Longrightarrow> B () (f w)"
  shows "puede A (modify f) B"
  using assms by (simp add: puede_def llega_def)

lemma puede_fault: "puede A (fault e) B" "puede A Hang B"
  by (simp_all add: puede_def llega_def)

lemma puede_If:
  "(b \<Longrightarrow> puede A m B) \<Longrightarrow> (\<not> b \<Longrightarrow> puede A n B) \<Longrightarrow> puede A (if b then m else n) B"
  by simp

lemma puede_dado: "(P \<Longrightarrow> puede A m B) \<Longrightarrow> puede (\<lambda>w. A w \<and> P) m B"
  unfolding puede_def by blast

lemma puede_False: "puede (\<lambda>w. False) m B"
  by (simp add: puede_def)

lemma apply_ev_script: "apply_ev e (w\<lparr>script := s\<rparr>) = (apply_ev e w)\<lparr>script := s\<rparr>"
  by (cases e) (auto simp: nvic_dispatch_def GPIO0_IRQHandler_def)

lemma fold_script: "fold apply_ev evs (w\<lparr>script := s\<rparr>) = (fold apply_ev evs w)\<lparr>script := s\<rparr>"
  by (induction evs arbitrary: w) (simp_all add: apply_ev_script)

lemma puede_poll:
  assumes "\<And>w. A w \<Longrightarrow> \<exists>evs. B () (fold apply_ev evs w)"
  shows "puede A poll B"
proof (rule puedeI)
  fix w K
  assume "A w" and K: "\<And>x w'. B x w' \<Longrightarrow> \<exists>s. K x (w'\<lparr>script := s\<rparr>)"
  with assms obtain evs s where "K () ((fold apply_ev evs w)\<lparr>script := s\<rparr>)" by blast
  then have "llega K (poll (w\<lparr>script := evs # s\<rparr>))" by (simp add: llega_def fold_script)
  then show "\<exists>s. llega K (poll (w\<lparr>script := s\<rparr>))" by blast
qed

lemma puede_loop:
  assumes "\<And>x. consumes (body x)" and "puede A (body x) C"
    and "\<And>r. puede (C r) (case r of Inl y \<Rightarrow> loop body y | Inr z \<Rightarrow> ret z) B"
  shows "puede A (loop body x) B"
  by (subst loop_unfold [OF assms(1)]) (rule puede_bind [OF assms(2,3)])

lemma puede_loop_fin:
  assumes "\<And>x. consumes (body x)" and "puede A (body x) (\<lambda>r w. \<exists>z. B z w \<and> r = Inr z)"
  shows "puede A (loop body x) B"
proof (rule puede_loop)
  show "consumes (body x)" for x by (rule assms(1))
  show "puede A (body x) (\<lambda>r w. \<exists>z. B z w \<and> r = Inr z)" by (rule assms(2))
  fix r
  show "puede (\<lambda>w. \<exists>z. B z w \<and> r = Inr z) (case r of Inl y \<Rightarrow> loop body y | Inr z \<Rightarrow> ret z) B"
  proof (cases r)
    case (Inl y)
    then show ?thesis by (simp add: puede_def)
  qed (simp add: puede_ret)
qed

section \<open>With a running clock\<close>

text \<open>The clock runs and the bytes \<open>bs\<close> of the WiFi module have not been read yet.\<close>

definition con_bytes :: "u8 list \<Rightarrow> 'z hw_scheme \<Rightarrow> bool" where
  "con_bytes bs w \<longleftrightarrow> sysTickOn w \<and> sysTickInt w \<and> tickRateMS w = 1 \<and> rxFifo w 3 = bs"

abbreviation vivo :: "'z hw_scheme \<Rightarrow> bool" where
  "vivo \<equiv> con_bytes []"

text \<open>The environment can let the clock show any value.\<close>

lemma con_bytes_Ticks:
  assumes "con_bytes bs w"
  shows "\<exists>k. con_bytes bs (apply_ev (Ticks k) w) \<and> tickCounter (apply_ev (Ticks k) w) = v"
  using assms by (intro exI [of _ "unat (v - tickCounter w)"]) (auto simp: con_bytes_def unat_gt_0)

lemma puede_poll_reloj: "puede (con_bytes bs) poll (\<lambda>_ w. con_bytes bs w \<and> tickCounter w = v)"
proof (rule puede_poll)
  fix w :: "'a hw_scheme"
  assume "con_bytes bs w"
  from con_bytes_Ticks [OF this, of v]
  obtain k where "con_bytes bs (apply_ev (Ticks k) w) \<and> tickCounter (apply_ev (Ticks k) w) = v" ..
  then show "\<exists>evs. con_bytes bs (fold apply_ev evs w) \<and> tickCounter (fold apply_ev evs w) = v"
    by (intro exI [of _ "[Ticks k]"]) (simp del: apply_Ticks apply_ev.simps)
qed

lemma puede_tickRead: "puede (con_bytes bs) tickRead (\<lambda>t w. con_bytes bs w \<and> t = v)"
  unfolding tickRead_def by (rule puede_bind [OF puede_poll_reloj], rule puede_gets) auto

lemma puede_tick32: "puede (con_bytes bs) tick32 (\<lambda>t w. con_bytes bs w \<and> t = v)"
  unfolding tick32_def
  by (rule puede_bind [OF puede_tickRead [of _ "ucast v"]])
    (auto intro!: puede_ret bit_word_eqI simp: bit_ucast_iff)

text \<open>The time limit of a loop passes.\<close>

lemma puede_plazo:
  "puede (con_bytes bs) (bind tickRead (\<lambda>t. if desde t start < plazo then m t else ret (Inr z)))
     (\<lambda>r w. con_bytes bs w \<and> r = Inr z)"
  by (rule puede_bind [OF puede_tickRead [of _ "plazo + ucast start"]], rule puede_dado)
    (auto intro!: puede_ret simp: desde_def)

lemma puede_delay: "puede vivo (delay d) (\<lambda>_. vivo)"
  unfolding delay_def
proof (rule puede_bind [OF puede_tickRead [of _ 0]], rule puede_loop_fin)
  fix t0 :: u64
  show "puede (\<lambda>w. vivo w \<and> t0 = 0) (bind tickRead (\<lambda>t. bind (gets tickRateMS) (\<lambda>rate.
       ret (if t - t0 < d div rate then Inl () else Inr ())))) (\<lambda>r w. \<exists>z :: unit. vivo w \<and> r = Inr z)"
  proof (rule puede_dado, rule puede_bind [OF puede_tickRead [of _ "t0 + d"]], rule puede_dado, rule puede_bind)
    show "puede vivo (gets tickRateMS) (\<lambda>rate w. vivo w \<and> rate = 1)"
      by (rule puede_gets) (simp_all add: con_bytes_def)
  qed (auto intro!: puede_dado puede_ret)
qed (intro consumes_bind consumes_tickRead shr.within_rules)


section \<open>Statements after which the clock still runs\<close>

definition calla :: "('a, 'z) hwprog \<Rightarrow> bool" where
  "calla m \<longleftrightarrow> puede vivo m (\<lambda>_. vivo)"

lemma calla_bind: "calla m \<Longrightarrow> (\<And>x. calla (f x)) \<Longrightarrow> calla (bind m f)"
  unfolding calla_def by (rule puede_bind)

lemma calla_basic: "calla (ret x)" "calla (fault e)" "calla Hang" "calla poll" "calla tickRead" "calla tick32" "calla (delay d)"
proof -
  show "calla poll" unfolding calla_def by (rule puede_mono [OF puede_poll_reloj [of _ 0]]) auto
  show "calla tickRead" unfolding calla_def by (rule puede_mono [OF puede_tickRead [of _ 0]]) auto
  show "calla tick32" unfolding calla_def by (rule puede_mono [OF puede_tick32 [of _ 0]]) auto
qed (simp_all add: calla_def puede_ret puede_fault puede_delay)

lemma calla_gets: "(\<And>w s. f (w\<lparr>script := s\<rparr>) = f w) \<Longrightarrow> calla (gets f)"
  unfolding calla_def by (rule puede_gets) auto

lemma calla_modify:
  assumes "\<And>w s. f (w\<lparr>script := s\<rparr>) = (f w)\<lparr>script := s\<rparr>" and "\<And>w. vivo w \<Longrightarrow> vivo (f w)"
  shows "calla (modify f)"
  unfolding calla_def by (intro puede_modify assms)

lemma calla_void: "calla m \<Longrightarrow> calla (void m)"
  unfolding void_def by (intro calla_bind calla_basic)

lemma calla_block: "(\<And>m. m \<in> set ms \<Longrightarrow> calla m) \<Longrightarrow> calla (block ms)"
  by (induction ms) (auto intro: calla_bind calla_basic)

lemma calla_for_each: "(\<And>x. x \<in> set xs \<Longrightarrow> calla (body x)) \<Longrightarrow> calla (for_each xs body)"
  by (induction xs) (auto intro: calla_bind calla_basic)

lemma calla_If: "(b \<Longrightarrow> calla m) \<Longrightarrow> (\<not> b \<Longrightarrow> calla n) \<Longrightarrow> calla (if b then m else n)"
  by simp

lemma calla_case_prod: "(\<And>a b. x = (a, b) \<Longrightarrow> calla (f a b)) \<Longrightarrow> calla (case x of (a, b) \<Rightarrow> f a b)"
  by (cases x) auto

lemma calla_case_option:
  "(x = None \<Longrightarrow> calla m) \<Longrightarrow> (\<And>y. x = Some y \<Longrightarrow> calla (f y)) \<Longrightarrow> calla (case x of None \<Rightarrow> m | Some y \<Rightarrow> f y)"
  by (cases x) auto

lemmas calla_rules = calla_basic calla_bind calla_void calla_for_each calla_If calla_case_prod calla_case_option

lemma calla_gpio:
  "calla (Chip_GPIO_SetPinState p q v)" "calla (Chip_GPIO_SetDir p q v)" "calla (Chip_SCU_PinMux p q m f)"
  "calla (set_pin r v)" "calla (dir_salida r)" "calla (uartTxWrite u b)"
  unfolding set_pin_def dir_salida_def Chip_GPIO_SetPinState_def Chip_GPIO_SetDir_def Chip_SCU_PinMux_def uartTxWrite_def
  by (rule calla_modify, simp, simp add: con_bytes_def)+

lemma calla_gpioInit: "calla (gpioInit p c)" "calla (gpioWrite p v)"
proof -
  show "calla (gpioInit p c)"
    unfolding gpioInit_def gpioInit_in_def by (cases c) (auto intro!: calla_rules calla_gpio)
  show "calla (gpioWrite p v)"
    unfolding gpioWrite_def by (intro calla_rules calla_gpio)
qed

lemma calla_uart: "calla (uartWriteString u str)" "calla (uartInit u b)"
proof -
  show "calla (uartWriteString u str)"
    unfolding uartWriteString_def uartWriteByte_def by (intro calla_rules calla_gpio)
  show "calla (uartInit u b)"
    unfolding uartInit_def
    by (intro calla_rules calla_block) (auto intro!: calla_gpio calla_modify calla_basic simp: con_bytes_def)
qed

lemma calla_spi: "calla (spiInit s)" "calla (spiRead s n)" "calla (spiWrite s bs)"
proof -
  show "calla (spiInit s)"
    unfolding spiInit_def by (intro calla_rules calla_block) (auto intro: calla_gpio)
  have "calla (spi_clock_in n)"
    by (induction n) (auto intro!: calla_rules calla_gets)
  then show "calla (spiRead s n)" unfolding spiRead_def by (intro calla_rules)
  show "calla (spiWrite s bs)"
    unfolding spiWrite_def by (intro calla_rules calla_modify) (simp_all add: con_bytes_def)
qed

lemma calla_rc522: "calla rc522_hw_init" "calla rc522_init_iso14443a"
proof -
  have cs: "calla rc522_cs_low" "calla rc522_cs_high" "calla (spi_write bs)" "calla (spi_read n)" for bs n
    unfolding rc522_cs_low_def rc522_cs_high_def spi_write_def spi_read_def
    by (intro calla_rules calla_gpioInit calla_spi)+
  have reg: "calla (rc522_write_reg r v)" "calla (rc522_read_reg r)" for r v
    unfolding rc522_write_reg_def rc522_read_reg_def Let_def
    by (auto intro!: calla_block calla_rules cs)
  show "calla rc522_hw_init" unfolding rc522_hw_init_def
    by (intro calla_block) (auto intro!: calla_rules calla_gpioInit calla_spi cs)
  show "calla rc522_init_iso14443a"
    unfolding rc522_init_iso14443a_def rc522_reset_def rc522_antenna_on_def rc522_set_bits_def
    by (intro calla_block) (auto intro!: calla_block calla_rules reg)
qed

lemma calla_ssd1306: "calla (ssd1306_cmd c)" "calla (ssd1306_data bs)"
  unfolding ssd1306_cmd_def ssd1306_data_def i2cWrite_def
  by (intro calla_rules calla_modify calla_gets; simp add: con_bytes_def)+

lemma calla_disp: "calla display_clear" "calla display_update" "calla (display_println str y)"
proof -
  show "calla display_clear"
    unfolding display_clear_def by (rule calla_modify) (simp_all add: con_bytes_def cong: if_cong)
  show "calla display_update"
    unfolding display_update_def by (intro calla_block) (auto intro!: calla_block calla_rules calla_gets calla_ssd1306)
  show "calla (display_println str y)"
    unfolding display_println_def display_setCursor_def display_print_def display_char_def buffer_set_def
    by (intro calla_rules calla_block) (auto intro!: calla_rules calla_modify calla_gets simp: con_bytes_def)
qed


section \<open>Commands to the modules\<close>

lemma calla_loop_fin:
  assumes "\<And>x. consumes (body x)" and "puede vivo (body x) (\<lambda>r w. \<exists>z. vivo w \<and> r = Inr z)"
  shows "calla (loop body x)"
  unfolding calla_def using assms by (rule puede_loop_fin)

lemma calla_as608:
  "calla (as608FlushRx ms)" "calla (as608Recv n t)" "calla (as608Send bs)" "calla (as608WritePacket ty bs)"
proof -
  show s: "calla (as608Send bs)" for bs
    unfolding as608Send_def uartWriteByte_def by (intro calla_rules calla_gpio)
  then show "calla (as608WritePacket ty bs)"
    unfolding as608WritePacket_def by (intro calla_rules)
  show "calla (as608FlushRx ms)"
    unfolding as608FlushRx_def
    by (intro calla_bind calla_basic calla_loop_fin consumes_bind consumes_tickRead within_splits shr.sapi_rules,
        rule puede_mono [OF puede_plazo]) auto
  show "calla (as608Recv n t)"
    unfolding as608Recv_def
    by (intro calla_bind calla_basic calla_loop_fin consumes_case_prod consumes_bind consumes_tickRead within_splits
        shr.sapi_rules shr.within_tick32, unfold prod.case, rule puede_mono [OF puede_plazo]) auto
qed

lemma calla_as608Init: "calla (as608Init b)"
  unfolding as608Init_def as608Check_def as608CmdTemplateCount_def
  by (intro calla_block) (auto intro!: calla_rules calla_uart calla_as608)

text \<open>The module sends one byte of its answer for each round, then the time of the command runs out.\<close>

lemma puede_poll_byte: "puede vivo poll (\<lambda>_ w. con_bytes [b] w \<and> tickCounter w = v)"
proof (rule puede_poll)
  fix w :: "'a hw_scheme"
  assume "vivo w"
  from con_bytes_Ticks [OF this, of v]
  obtain k where "vivo (apply_ev (Ticks k) w) \<and> tickCounter (apply_ev (Ticks k) w) = v" ..
  then show "\<exists>evs. con_bytes [b] (fold apply_ev evs w) \<and> tickCounter (fold apply_ev evs w) = v"
    by (intro exI [of _ "[Ticks k, RxByte 3 b]"]) (simp add: con_bytes_def UART_RX_FIFO_SIZE_def del: apply_Ticks)
qed

lemma puede_tickRead_byte: "puede vivo tickRead (\<lambda>t w. con_bytes [b] w \<and> t = v)"
  unfolding tickRead_def by (rule puede_bind [OF puede_poll_byte], rule puede_gets) auto

lemma puede_uartRxRead:
  "puede (con_bytes (b # bs)) (uartRxRead ESP_UART) (\<lambda>r w. con_bytes bs w \<and> r = b)"
proof (rule puedeI)
  fix w :: "'a hw_scheme" and K :: "u8 \<Rightarrow> 'a hw_scheme \<Rightarrow> bool"
  assume w: "con_bytes (b # bs) w" and K: "\<And>x w'. con_bytes bs w' \<and> x = b \<Longrightarrow> \<exists>s. K x (w'\<lparr>script := s\<rparr>)"
  have "con_bytes bs (w\<lparr>rxFifo := (rxFifo w)(3 := bs)\<rparr>)" using w by (simp add: con_bytes_def)
  with K obtain s where "K b (w\<lparr>rxFifo := (rxFifo w)(3 := bs), script := s\<rparr>)" by blast
  moreover have "w\<lparr>rxFifo := (rxFifo w)(3 := bs), script := s\<rparr> = w\<lparr>script := s, rxFifo := (rxFifo w)(3 := bs)\<rparr>"
    by simp
  ultimately have "K b (w\<lparr>script := s, rxFifo := (rxFifo w)(3 := bs)\<rparr>)" by (simp only:)
  with w show "\<exists>s. llega K (uartRxRead ESP_UART (w\<lparr>script := s\<rparr>))"
    by (intro exI [of _ s]) (simp add: llega_def uartRxRead_def usart_ESP con_bytes_def)
qed

lemma puede_uartReadByte:
  "puede (con_bytes (b # bs)) (uartReadByte ESP_UART) (\<lambda>r w. con_bytes bs w \<and> r = Some b)"
  unfolding uartReadByte_def uartRxReady_def bind_assoc
  by (rule puede_bind [OF puede_poll_reloj [of _ 0]], rule puede_bind,
      rule puede_gets [where B = "\<lambda>r w. con_bytes (b # bs) w \<and> r"], simp, simp add: con_bytes_def usart_ESP)
    (auto intro!: puede_dado puede_bind [OF puede_uartRxRead] puede_ret)

lemma puede_at_byte:
  assumes "Suc (length buf) < n - 1" and "0 < t"
  shows "puede vivo (at_paso n t start (buf, l)) (\<lambda>r w. vivo w \<and> (\<exists>l. r = Inl (buf @ [b], l)))"
proof -
  have lt: "desde t' start < ucast t" if "t' = ucast start" for t'
    using that assms(2) by (simp add: desde_def word_less_nat_alt unsigned_ucast_eq take_bit_nat_eq_self
        less_le_trans [OF unsigned_less] unat_gt_0)
  show ?thesis
    unfolding at_paso_def prod.case
    by (rule puede_bind [OF puede_tickRead_byte [of b "ucast start"]], rule puede_dado, simp only: lt if_True,
        rule puede_bind [OF puede_uartReadByte], rule puede_dado)
      (use assms in \<open>auto intro!: puede_bind [OF puede_tick32] puede_dado puede_ret\<close>)
qed

lemma puede_at_loop:
  assumes "length buf + length bs < n - 1" and "0 < t"
  shows "puede (vivo :: 'z esp_scheme \<Rightarrow> bool) (loop (at_paso n t start) (buf, l)) (\<lambda>r w. vivo w \<and> r = buf @ bs)"
  using assms
proof (induction bs arbitrary: buf l)
  case Nil
  show ?case
    by (rule puede_loop_fin [OF consumes_at_paso], unfold at_paso_def prod.case, rule puede_mono [OF puede_plazo]) auto
next
  case (Cons b bs)
  show ?case
  proof (rule puede_loop)
    show "consumes (at_paso n t start x)" for x by (rule consumes_at_paso)
    show "puede (vivo :: 'z esp_scheme \<Rightarrow> bool) (at_paso n t start (buf, l)) (\<lambda>r w. vivo w \<and> (\<exists>l. r = Inl (buf @ [b], l)))"
      by (rule puede_at_byte) (use Cons.prems in simp_all)
    fix r :: "(u8 list \<times> u32) + u8 list"
    show "puede (\<lambda>w :: 'z esp_scheme. vivo w \<and> (\<exists>l. r = Inl (buf @ [b], l)))
         (case r of Inl y \<Rightarrow> loop (at_paso n t start) y | Inr z \<Rightarrow> ret z) (\<lambda>r w. vivo w \<and> r = buf @ b # bs)"
      using Cons.IH [of "buf @ [b]"] Cons.prems by (auto intro!: puede_dado)
  qed
qed

lemma calla_orden: "calla (block [uartWriteString ESP_UART cmd, uartWriteString ESP_UART CRLF])"
  by (intro calla_block) (auto intro: calla_uart)

lemma puede_AT:
  assumes "length bs < n - 1" and "0 < t"
  shows "puede vivo (enviarComandoAT cmd n t) (\<lambda>r w. vivo w \<and> r = bs)"
  unfolding enviarComandoAT_def
proof (rule puede_If)
  show "puede vivo (bind (block [uartWriteString ESP_UART cmd, uartWriteString ESP_UART CRLF]) (\<lambda>_.
      bind tick32 (\<lambda>start. loop (at_paso n t start) ([], start)))) (\<lambda>r w. vivo w \<and> r = bs)"
    by (rule puede_bind [OF calla_orden [unfolded calla_def]], rule puede_bind [OF calla_basic(6) [unfolded calla_def]],
        rule puede_mono [OF puede_at_loop [OF _ assms(2)]])
      (use assms in auto)
qed (use assms in auto)

lemma calla_AT: "1 < n \<Longrightarrow> 0 < t \<Longrightarrow> calla (enviarComandoAT cmd n t)"
  unfolding calla_def by (rule puede_mono [OF puede_AT [of "[]"]]) auto

lemma calla_puede: "calla m \<Longrightarrow> (\<And>x. puede vivo (f x) B) \<Longrightarrow> puede vivo (bind m f) B"
  unfolding calla_def by (rule puede_bind)

lemma puede_a_tiempo:
  assumes "0 < plazo" and "puede vivo m B"
  shows "puede vivo (bind tickRead (\<lambda>t. if desde t start < plazo then m else n)) B"
  by (rule puede_bind [OF puede_tickRead [of _ "ucast start"]], rule puede_dado)
    (use assms in \<open>simp add: desde_def\<close>)

lemma puede_saludo: "0 < t \<Longrightarrow> puede vivo (esp_saludo t) (\<lambda>r w. vivo w \<and> r)"
  unfolding esp_saludo_def
proof (rule calla_puede [OF calla_basic(6)], rule puede_loop_fin, goal_cases)
  case (2 start)
  have "contains (cstr [0x4F, 0x4B]) ''OK''" by code_simp
  then show ?case
    by (intro puede_a_tiempo puede_bind [OF puede_AT [of "[0x4F, 0x4B]"]] puede_dado)
      (use 2 in \<open>auto intro!: puede_ret simp: word_less_nat_alt unsigned_ucast_eq take_bit_nat_eq_self
          less_le_trans [OF unsigned_less]\<close>)
qed (intro consumes_bind consumes_tickRead within_splits shr.esp_rules shr.sapi_rules)

lemma puede_espera_ip: "puede vivo esp_espera_ip (\<lambda>_ w. vivo w \<and> conectado w)"
  unfolding esp_espera_ip_def
proof (rule calla_puede [OF calla_basic(6)], rule puede_loop_fin, goal_cases)
  case (2 start)
  have c: "contains (cstr [0x53, 0x54, 0x41, 0x54, 0x55, 0x53, 0x3A, 0x32]) ''STATUS:2''" by code_simp
  have k: "puede vivo (modify (\<lambda>w. w\<lparr>conectado := True\<rparr>)) (\<lambda>_ w. vivo w \<and> conectado w)"
    by (rule puede_modify) (simp_all add: con_bytes_def)
  show ?case
    by (rule puede_a_tiempo, simp, rule puede_bind [OF puede_AT [of "[0x53, 0x54, 0x41, 0x54, 0x55, 0x53, 0x3A, 0x32]"]])
      (auto intro!: puede_dado calla_puede [OF calla_void] calla_AT calla_puede [OF calla_disp(3)]
         calla_puede [OF calla_disp(2)] calla_puede [OF calla_basic(7)] puede_bind [OF k] puede_ret simp: c bind_assoc)
next
  case (1 start x)
  show ?case
    by (intro consumes_bind consumes_tickRead within_splits shr.sapi_rules shr.within_enviarComandoAT shr.within_block)
      (auto intro!: shr.esp_cmd_rules shr.r_conectado)
qed

lemma puede_inicializarESP: "0 < t \<Longrightarrow> puede vivo (inicializarESP t) (\<lambda>r w. vivo w \<and> r)"
  unfolding inicializarESP_def
  by (rule puede_bind [OF puede_saludo], assumption)
    (auto intro!: puede_dado calla_puede [OF calla_void] calla_AT puede_bind [OF puede_espera_ip]
       puede_bind [OF puede_gets [where B = "\<lambda>r w. vivo w \<and> r"]] puede_ret simp: bind_assoc)


section \<open>Power-up\<close>

lemma calla_espATInit: "calla (espATInit b)"
proof -
  have u: "puede vivo (uartReadByte ESP_UART) (\<lambda>r w. vivo w \<and> r = None)"
    unfolding uartReadByte_def uartRxReady_def bind_assoc
    by (rule puede_bind [OF puede_poll_reloj [of _ 0]], rule puede_bind,
        rule puede_gets [where B = "\<lambda>r w. vivo w \<and> \<not> r"], simp, simp add: con_bytes_def usart_ESP)
      (auto intro!: puede_dado puede_ret puede_False)
  have "calla (loop (\<lambda>_. bind (uartReadByte ESP_UART) (\<lambda>r. ret (if r \<noteq> None then Inl () else Inr ()))) ())"
    by (rule calla_loop_fin, intro consumes_bind consumes_uartReadByte shr.within_rules, rule puede_bind [OF u])
      (auto intro!: puede_dado puede_ret)
  then show ?thesis
    unfolding espATInit_def by (intro calla_block) (auto intro!: calla_uart calla_basic)
qed

lemma calla_store: "calla (store_str n str)"
  unfolding store_str_def by (intro calla_rules)

lemma calla_sobre_tabla: "calla (sobre_tabla f)"
  unfolding sobre_tabla_def
  by (intro calla_bind calla_gets) (auto intro!: calla_rules calla_modify simp: con_bytes_def split: sum.split)

lemma calla_sincronizar: "calla sincronizarConServidor"
proof -
  have "calla (espHTTPGetViaAT path 2048)" for path
    unfolding espHTTPGetViaAT_def espRawHTTPGet_def
    by (intro calla_bind calla_If calla_basic calla_AT calla_store) simp_all
  then have "calla (espHTTPGetPins n)" for n
    unfolding espHTTPGetPins_def by (intro calla_rules)
  then show ?thesis
    unfolding sincronizarConServidor_def
    by (intro calla_bind calla_If calla_basic calla_store calla_disp calla_block calla_sobre_tabla) (auto intro: calla_disp calla_basic)
qed

lemma calla_mostrar: "calla (mostrar ls)"
  unfolding mostrar_def lineas_def by (intro calla_block) (auto intro!: calla_rules calla_disp)

lemma calla_pines: "calla driverConfig" "calla alertasInit" "calla configurarPines"
    "calla configurarInterrupcionPRESENCIA"
  unfolding driverConfig_def alertasInit_def configurarPines_def configurarInterrupcionPRESENCIA_def
    Chip_SCU_GPIOIntPinSel_def Chip_PININT_ClearIntStatus_def Chip_PININT_SetPinModeEdge_def Chip_PININT_EnableIntHigh_def
  by (intro calla_block; auto intro!: calla_gpio calla_modify simp: con_bytes_def)+

lemma calla_mods: "calla NVIC_DisableIRQ" "calla (ir e)" "calla (as608SetDebug d)" "calla as608ScanReset" "calla marcar"
  unfolding NVIC_DisableIRQ_def ir_def as608SetDebug_def as608ScanReset_def marcar_def
  by (intro calla_bind calla_basic calla_modify; simp add: con_bytes_def)+

lemma calla_wifi:
  "calla (bind (inicializarESP 10000) (\<lambda>wifiOk. if wifiOk then ret () else m))"
  unfolding calla_def
  by (rule puede_bind [OF puede_inicializarESP]) (auto intro!: puede_dado puede_ret puede_False)

lemma calla_mefInit: "calla mefInit"
  unfolding mefInit_def
  by (intro calla_block)
    (auto intro!: calla_rules calla_block calla_pines calla_mods calla_mostrar calla_disp calla_wifi calla_sincronizar
       calla_espATInit calla_as608Init calla_rc522)

lemma puede_boardInit: "puede (\<lambda>w :: 'a hw_scheme. rxFifo w 3 = []) boardInit (\<lambda>_. vivo)"
proof -
  have "void (tickInit 1) = modify (\<lambda>w :: 'a hw_scheme. w\<lparr>tickRateMS := 1, sysTickOn := True, sysTickInt := True\<rparr>)"
    by (rule ext) (simp add: void_def tickInit_def tickPowerSet_def bind_apply)
  then have t: "puede (\<lambda>w. rxFifo w 3 = []) (void (tickInit 1) :: (unit, 'a) hwprog) (\<lambda>_. vivo)"
    by (auto intro!: puede_modify simp: con_bytes_def)
  have "calla (block [void (gpioInit 0 GPIO_ENABLE),
     for_each [36, 37, 38, 39] (\<lambda>p. void (gpioInit p GPIO_INPUT)),
     for_each [40, 41, 42, 43, 44, 45] (\<lambda>p. void (gpioInit p GPIO_OUTPUT))])"
    by (intro calla_block) (auto intro!: calla_rules calla_gpioInit)
  with t show ?thesis
    unfolding boardInit_def block.simps(2) [of "void (tickInit 1)"] calla_def by (rule puede_bind)
qed

lemma calla_arranque: "calla (block [display_init, driverConfig, tecladoInit, mefInit])"
proof -
  have d: "calla display_init"
    unfolding display_init_def i2cInit_def
    by (intro calla_block) (auto intro!: calla_rules calla_disp calla_ssd1306 calla_modify simp: con_bytes_def)
  have "calla tecladoInit"
    unfolding tecladoInit_def tecladoReset_def keypadInit_def
    by (intro calla_rules calla_gpioInit calla_block) (auto intro!: calla_modify simp: con_bytes_def)
  with d show ?thesis
    by (intro calla_block) (auto intro!: calla_pines calla_mefInit)
qed

lemma puede_arranque: "puede (\<lambda>w. rxFifo w 3 = []) arranque (\<lambda>_. vivo)"
  unfolding arranque_def block.simps(2) [of boardInit]
  by (rule puede_bind [OF puede_boardInit]) (rule calla_arranque [unfolded calla_def])

lemma arranque_posible: "\<exists>sc w. arranque (mef0 sc) = Ret () w \<and> script w = resto"
proof -
  have "\<exists>s. llega (\<lambda>_ w. script w = resto) (arranque ((mef0 [])\<lparr>script := s\<rparr>))"
    by (rule puedeD [OF puede_arranque]) (simp_all add: mef0_def hw0_def)
  then obtain s where s: "llega (\<lambda>_ w. script w = resto) (arranque (mef0 s))" by (auto simp: mef0_def hw0_def)
  with arranque_inicio [of s] show ?thesis by (cases "arranque (mef0 s)") (auto simp: llega_def)
qed

end
