(* ===== verification/Mef_Maquina.thy ===== *)
theory Mef_Maquina
  imports Mef_Posible
begin

text \<open>
  The machine as a whole: the invariant of the control state and that every step
  of \<open>paso\<close> keeps it, the refinement of \<open>paso\<close> by \<^verbatim>\<open>mefUpdate\<close>, the runs of the
  program from power-up (\<open>tras\<close>), and the progress of \<^verbatim>\<open>main\<close>. The properties of
  the running lock follow.
\<close>

section \<open>Invariant\<close>

definition fallos :: "ctl \<Rightarrow> fault set" where
  "fallos c = (case c_estado c of
       ESPERANDO_ACCION \<Rightarrow> {BufferOverflow}
     | REGISTRAR_RFID \<Rightarrow> {BufferOverflow}
     | LEER_Y_VALIDAR_HUELLA \<Rightarrow> if tags_cortos (c_tabla c) then {} else {BufferOverflow}
     | VALIDAR_RFID \<Rightarrow> if tags_cortos (c_tabla c) then {} else {BufferOverflow}
     | VALIDAR \<Rightarrow> if tags_cortos (c_tabla c) then {} else {BufferOverflow}
     | MENU_ADMIN \<Rightarrow> {Uninitialised}
     | _ \<Rightarrow> {})"

definition inv_ctl :: "ctl \<Rightarrow> bool" where
  "inv_ctl c \<longleftrightarrow> wf_tabla (c_tabla c) \<and> 0 \<le> c_intentos c \<and> c_intentos c \<le> 2 \<and> c_estado c \<noteq> BLOQUEADO \<and>
     m_pos (c_motor c) = (if c_estado c = SENSOR_CIERRE then 100 else 0) \<and>
     length (c_pin c) \<le> PIN_LENGTH \<and> length (c_rfid c) \<le> 8"

lemma mefUpdate_paso:
  assumes "inv_ctl c"
  shows "cumple (fallos c) c mefUpdate (\<lambda>_. paso c)"
  unfolding mefUpdate_def
proof (rule cumple_gets, goal_cases)
  case (1 w)
  show ?case
    using assms unfolding ctl_campos(1) [OF 1] inv_ctl_def
    by (cases "c_estado c")
      (simp_all add: fallos_def caso_REPOSO_paso caso_ESPERANDO_paso caso_HUELLA_paso caso_RFID_paso
        caso_VALIDAR_paso caso_CIERRE_paso caso_MENU_paso caso_REGISTRAR_RFID_paso
        caso_REGISTRAR_HUELLA_paso)
qed

lemma movido_pos: "m_pos (movido d m) = m_pos m + (if d then 100 else - 100)"
  by (simp add: movido_def STEPS_def)

lemma wf_tabla_ops:
  assumes "wf_tabla us"
  shows "wf_tabla (snd (asociarHuellaaPin us p h))" "wf_tabla (snd (eliminarHuellaLocal us p))"
    "asociarRFIDaPin us p r = Inr (b, us') \<Longrightarrow> wf_tabla us'" "wf_tabla (eliminarTodasHuellasLocal us)"
  using assms wf_asociarHuella [of us p h] wf_eliminarHuella [of us p] wf_asociarRFID [of us p r b us']
  by (auto simp: wf_tabla_def length_asociarHuella eliminarTodasHuellasLocal_def list_all_iff wf_usuario_def)

lemma wf_tabla_menu: "tabla_menu us us' \<Longrightarrow> wf_tabla us \<Longrightarrow> wf_tabla us'"
  by (auto simp: tabla_menu_def tabla_recibida_wf wf_tabla_ops)

lemma paso_inv: "paso c c' \<Longrightarrow> inv_ctl c \<Longrightarrow> inv_ctl c'"
  by (induction rule: paso.induct)
    (auto simp: inv_ctl_def abierta_def movido_pos tabla_recibida_wf es_pin_tecleado_def wf_tabla_menu
      dest: wf_tabla_ops(3) intro: wf_tabla_ops(1))

lemma inicio_inv: "inicio c \<Longrightarrow> inv_ctl c"
  by (auto simp: inicio_def inv_ctl_def wf_listaPins_init tabla_recibida_wf)

section \<open>Runs\<close>

definition estable :: "'z mef_scheme \<Rightarrow> bool" where
  "estable w \<longleftrightarrow> base w \<and> inv_ctl (ctl w)"

lemma mefUpdate_estable:
  assumes "estable w"
  shows "sat (fallos (ctl w)) (\<lambda>_ w'. estable w' \<and> paso (ctl w) (ctl w')) (\<lambda>_. True) (mefUpdate w)"
  by (rule sat_weaken [OF cumpleD [OF mefUpdate_paso [of "ctl w"]]])
    (use assms paso_inv in \<open>auto simp: estable_def\<close>)

lemma mefUpdate_Ret:
  assumes "estable w" and "mefUpdate w = Ret () w'"
  shows "estable w'" and "paso (ctl w) (ctl w')"
  using mefUpdate_estable [OF assms(1)] assms(2) by simp_all

text \<open>What a step does that its abstract step shows.\<close>

lemma mefUpdate_sat:
  assumes "estable w" and "\<And>c'. paso (ctl w) c' \<Longrightarrow> inv_ctl c' \<Longrightarrow> Q c'"
  shows "sat (fallos (ctl w)) (\<lambda>_ w'. Q (ctl w')) (\<lambda>_. True) (mefUpdate w)"
  by (rule sat_weaken [OF mefUpdate_estable [OF assms(1)]]) (use assms(2) in \<open>auto simp: estable_def\<close>)

lemma fallos_posibles: "fallos c \<subseteq> {BufferOverflow, Uninitialised}"
  by (auto simp: fallos_def split: EstadoMEF.splits)

text \<open>The program after \<open>n\<close> rounds of the loop of \<^verbatim>\<open>main\<close>, for the environment \<open>sc\<close>.\<close>

definition tras :: "nat \<Rightarrow> ev list list \<Rightarrow> (unit, mef) res" where
  "tras n sc = bind arranque (\<lambda>_. for_each [0..<n] (\<lambda>_. mefUpdate)) (mef0 sc)"

lemma vueltas_estable:
  "estable w \<Longrightarrow> sat {BufferOverflow, Uninitialised} (\<lambda>_. estable) (\<lambda>_. True)
     (for_each ns (\<lambda>_ :: nat. mefUpdate) w)"
proof (induction ns arbitrary: w)
  case (Cons n ns)
  show ?case
    unfolding for_each.simps
    by (rule sat_bind, rule sat_mono [OF mefUpdate_estable [OF Cons.prems]])
      (use Cons.IH fallos_posibles in auto)
qed simp

lemma tras_estable:
  "sat {BufferOverflow, Uninitialised} (\<lambda>_. estable) (\<lambda>_. True) (tras n sc)"
  unfolding tras_def
  by (rule sat_bind, rule sat_mono [OF arranque_inicio])
    (auto simp: estable_def inicio_inv intro!: vueltas_estable)

section \<open>Progress\<close>

lemma consumes_If: "(b \<Longrightarrow> consumes m) \<Longrightarrow> (\<not> b \<Longrightarrow> consumes n) \<Longrightarrow> consumes (if b then m else n)"
  by simp

lemma consumes_display_update: "consumes display_update"
  unfolding display_update_def
    by (rule consumes_block [where m = poll])
      (auto intro!: consumes_poll shr.sapi_rules shr.within_block simp: ssd1306_cmd_def ssd1306_data_def)

lemma consumes_alertas: "consumes alertaExito" "consumes alertaError"
  unfolding alertaExito_def alertaError_def
  by (rule consumes_block [where m = "delay 100"] consumes_block [where m = "delay 1000"];
     auto intro!: consumes_delay shr.sapi_rules simp: set_pin_def)+

lemma shr_motor: "respeta shrinks abrirCerradura" "respeta shrinks cerrarCerradura" "respeta shrinks abrir_si"
  using shr.within_motor shr.within_abrir_si by auto

lemmas acaban = shr.mef_ops shr.mef_mods shr.within_block shr.within_bind within_splits shr.within_bienvenida
  shr.within_entrarModoSleep shr.within_acceso_admin shr.within_esperar_sensores shr.within_leer_opcion
  shr.within_opcion_wifi shr.within_opcion_borrar shr.within_pedir_pin shr.within_huella_de
  shr.within_registrar_id shr_motor

lemma consumes_reposo: "consumes caso_REPOSO"
proof -
  have "consumes dormir"
    unfolding dormir_def
    by (rule consumes_block [where m = "delay 100"]) (auto intro!: acaban consumes_delay)
  then have "consumes entrarModoSleep"
    unfolding entrarModoSleep_def reconectar_def verificarVersion_def block.simps
    by (intro consumes_bind acaban)
  then show ?thesis
    unfolding caso_REPOSO_def block.simps by (intro consumes_bind acaban)
qed

lemma consumes_esperando: "consumes caso_ESPERANDO_ACCION"
proof -
  have "consumes (block [lineas ls, display_update] :: (unit, 'a) mprog)" for ls
    unfolding block.simps by (intro consumes_despues [OF shr.within_lineas] consumes_bind consumes_display_update acaban)
  then show ?thesis
  unfolding caso_ESPERANDO_ACCION_def leer_pin_mef_def
  by (intro consumes_despues [OF shr.within_gets] consumes_despues [OF within_If] consumes_bind acaban)
   (auto intro!: acaban)
qed

lemma consumes_validar: "consumes caso_VALIDAR" "consumes caso_VALIDAR_RFID"
proof -
  have c: "consumes pin_correcto"
    unfolding pin_correcto_def block.simps
    by (intro consumes_despues [OF shr.within_gets] consumes_despues [OF within_If] consumes_bind
        consumes_alertas acaban)
  have i: "consumes pin_incorrecto"
    unfolding pin_incorrecto_def block.simps bind_assoc
    by (intro consumes_bind consumes_alertas acaban shr.within_store_str)
  show "consumes caso_VALIDAR"
    unfolding caso_VALIDAR_def
    by (intro consumes_despues [OF shr.within_display_clear] consumes_despues [OF shr.within_gets] consumes_If c i)
  show "consumes caso_VALIDAR_RFID"
    unfolding caso_VALIDAR_RFID_def block.simps
    by (intro consumes_despues [OF shr.within_gets] consumes_If
        consumes_despues [OF shr.within_display_clear] consumes_despues [OF shr.within_lineas]
        consumes_despues [OF shr.within_bienvenida] consumes_bind [OF consumes_alertas(2)] 
        consumes_bind [OF consumes_display_update] acaban)
qed

lemma consumes_menus: "consumes caso_SENSOR_CIERRE" "consumes caso_MENU_ADMIN" "consumes caso_REGISTRAR_RFID"
    "consumes caso_REGISTRAR_HUELLA"
proof -
  show "consumes caso_SENSOR_CIERRE"
    unfolding caso_SENSOR_CIERRE_def secuencia
    by (intro consumes_despues [OF shr.within_lineas] consumes_bind [OF consumes_display_update] acaban)
  show "consumes caso_MENU_ADMIN"
    unfolding caso_MENU_ADMIN_def secuencia
    by (intro consumes_bind [OF consumes_display_update] consumes_despues [OF shr.within_display_clear]
       consumes_despues [OF shr.within_display_println] consumes_despues [OF shr.within_display_printAt] acaban)
  show "consumes caso_REGISTRAR_RFID" "consumes caso_REGISTRAR_HUELLA"
    unfolding caso_REGISTRAR_RFID_def caso_REGISTRAR_HUELLA_def secuencia esperar_tarjeta_def guardar_tarjeta_def
    by (intro consumes_bind [OF consumes_mostrar] acaban shr.within_loop)+
qed

definition medida :: "'z mef_scheme \<Rightarrow> nat" where
  "medida w = 2 * length (script w) + (if estadoActual w = LEER_Y_VALIDAR_HUELLA then 1 else 0)"

lemma paso_huella: "paso c c' \<Longrightarrow> c_estado c = LEER_Y_VALIDAR_HUELLA \<Longrightarrow> c_estado c' \<noteq> LEER_Y_VALIDAR_HUELLA"
  by (induction rule: paso.induct) (auto simp: abierta_def)

lemma mefUpdate_avanza:
  assumes "estable w" and "mefUpdate w = Ret () w'"
  shows "medida w' < medida w"
proof (cases "estadoActual w = LEER_Y_VALIDAR_HUELLA")
  case True
  then have "estadoActual w' \<noteq> LEER_Y_VALIDAR_HUELLA"
    using mefUpdate_Ret(2) [OF assms] paso_huella [of "ctl w" "ctl w'"] by (simp add: ctl_def)
  moreover have "length (script w') \<le> length (script w)"
    using assms(2) within_Ret [OF shr.within_aperturas(1)] True
    by (simp add: mefUpdate_def bind_gets shrinks_def)
  ultimately show ?thesis using True by (simp add: medida_def)
next
  case False
  have "length (script w') < length (script w)"
    using assms False consumes_reposo consumes_esperando consumes_validar consumes_menus
    by (cases "estadoActual w") (auto simp: mefUpdate_def bind_gets consumes_def estable_def inv_ctl_def ctl_def)
  with False show ?thesis by (simp add: medida_def)
qed


lemma main_avanza:
  assumes "estable w" and "medida w < n"
  shows "sat {BufferOverflow, Uninitialised} (\<lambda>_ _. False) (\<lambda>_. True)
    (iter n (\<lambda>_ :: unit. bind mefUpdate (\<lambda>_. ret (Inl ()))) () w)"
proof (rule sat_iter [where I = "\<lambda>_. estable" and \<mu> = medida])
  fix u :: unit and w :: "'a mef_scheme"
  assume w: "estable w"
  have "sat {BufferOverflow, Uninitialised} (\<lambda>_ w'. estable w' \<and> medida w' < medida w) (\<lambda>_. True) (mefUpdate w)"
    using mefUpdate_estable [OF w] mefUpdate_avanza [OF w] fallos_posibles [of "ctl w"]
    by (cases "mefUpdate w") auto
  then show "sat {BufferOverflow, Uninitialised}
      (\<lambda>r w'. case r of Inl y \<Rightarrow> estable w' \<and> medida w' < medida w | Inr z \<Rightarrow> False) (\<lambda>_. True)
      (bind mefUpdate (\<lambda>_. ret (Inl ())) w)"
    by (auto simp: sat_bind_iff elim: sat_weaken)
qed (use assms in auto)

text \<open>States of the invariant, for examples.\<close>

lemma estable_w:
  assumes "e \<noteq> SENSOR_CIERRE" and "e \<noteq> BLOQUEADO" and "length p \<le> 5"
  shows "estable ((mef0 sc)\<lparr>keypad := teclado_k, estadoActual := e, pinIngresado := p\<rparr>)"
    and "estable ((mef0 sc)\<lparr>keypad := teclado_k, sysTickOn := True, sysTickInt := True, estadoActual := e,
       pinIngresado := p\<rparr>)"
  using assms
  by (simp_all add: estable_def base_def teclado_inv_def digitos_def inv_ctl_def ctl_def mef0_def hw0_def
      motor_def motor0_def wf_listaPins_init PIN_LENGTH_def)

section \<open>Properties\<close>

text \<open>C1: The program implements the abstract machine. From a state with the invariant, one call of
  \<^verbatim>\<open>mefUpdate\<close> never hangs, has no undefined behaviour except the one \<open>fallos\<close> names for its state,
  and when it returns the invariant holds again and the change of the control state is a step of
  \<open>paso\<close>, whatever the environment does.\<close>

theorem mef_refina:
  assumes "estable w"
  shows "sat (fallos (ctl w)) (\<lambda>_ w'. estable w' \<and> paso (ctl w) (ctl w')) (\<lambda>_. True) (mefUpdate w)"
  by (rule mefUpdate_estable [OF assms])

theorem mef_refina_witness:
  "\<forall>sc. let w = (mef0 sc)\<lparr>keypad := teclado_k, estadoActual := VALIDAR, pinIngresado := ''66666''\<rparr> in
     sat (fallos (ctl w)) (\<lambda>_ w'. estable w' \<and> paso (ctl w) (ctl w')) (\<lambda>_. True) (mefUpdate w)"
  unfolding Let_def using mef_refina [OF estable_w(1)] by simp

text \<open>C17: Power-up. For every environment, \<^verbatim>\<open>main\<close> up to its endless loop has no undefined behaviour and
  does not hang in any other way than waiting for the environment, and when the loop is reached the lock
  waits for a user, with the built-in table or one received from the server, no failed attempts and a
  bolt that has not moved. The loop can be reached: whatever is to come afterwards, there is an
  environment in which it is reached with exactly that to come.\<close>

theorem arranque_correcto:
  "sat {} (\<lambda>_ w. estadoActual w = ESPERANDO_ACCION \<and>
     (listaPins w = listaPins_init \<or> tabla_recibida (listaPins w)) \<and> intentosFallidos w = 0 \<and>
     m_pos (motor w) = 0 \<and> keypad w = teclado_k) (\<lambda>_. True) (arranque (mef0 sc)) \<and>
   (\<exists>sc w. arranque (mef0 sc) = Ret () w \<and> script w = resto)"
proof
  show "\<exists>sc w. arranque (mef0 sc) = Ret () w \<and> script w = resto" by (rule arranque_posible)
qed (rule sat_weaken [OF arranque_inicio], auto simp: inicio_def ctl_def base_def teclado_inv_def)

text \<open>C3: The position of the bolt follows the state. After power-up and any number of rounds of
  \<^verbatim>\<open>main\<close>, in every environment, the bolt is open by exactly 100 steps when the machine waits for the
  door to close, and closed in every other state; the state \<^verbatim>\<open>BLOQUEADO\<close> is never reached.\<close>

theorem cerrojo_segun_estado:
  "sat {BufferOverflow, Uninitialised}
     (\<lambda>_ w. m_pos (motor w) = (if estadoActual w = SENSOR_CIERRE then 100 else 0) \<and>
        estadoActual w \<noteq> BLOQUEADO) (\<lambda>_. True) (tras n sc)"
  by (rule sat_weaken [OF tras_estable]) (auto simp: estable_def inv_ctl_def ctl_def)

text \<open>C9: The variables stay in their types. After power-up and any number of rounds, in every
  environment, the user table has its size and every text in it fits its array, the PIN and the card
  text fit theirs, the count of failed attempts is 0, 1 or 2, and the keypad driver's buffer is
  consistent.\<close>

theorem memoria_en_rango:
  "sat {BufferOverflow, Uninitialised}
     (\<lambda>_ w. wf_tabla (listaPins w) \<and> length (pinIngresado w) < 6 \<and> length (rfidLeido w) < 10 \<and>
        0 \<le> intentosFallidos w \<and> intentosFallidos w \<le> 2 \<and> teclado_inv w) (\<lambda>_. True) (tras n sc)"
  by (rule sat_weaken [OF tras_estable])
    (auto simp: estable_def inv_ctl_def ctl_def base_def PIN_LENGTH_def)

text \<open>C5: \<^verbatim>\<open>main\<close> never gets stuck. For every environment the endless loop of \<^verbatim>\<open>main\<close> goes on until the
  script of the environment ends or undefined behaviour is met: it does not return, and there is no
  inner loop that turns for ever without looking at the hardware.\<close>

theorem main_no_se_cuelga:
  "sat {BufferOverflow, Uninitialised} (\<lambda>_ _. False) (\<lambda>_. True) (main_c (mef0 sc))"
  unfolding main_c_def
  by (rule sat_bind, rule sat_mono [OF arranque_inicio])
    (auto simp: estable_def inicio_inv medida_def intro!: main_avanza)

end
