(* ===== verification/Mef_Vida.thy ===== *)
theory Mef_Vida
  imports Mef_Maquina
begin

text \<open>
  Reaction times. In an environment where the clock runs, the reactions of the
  machine that matter return within a number of milliseconds: \<open>a_tiempo\<close> counts
  the looks at the hardware a statement needs. With the refinement theorem this
  gives total correctness of opening and of closing.
\<close>

section \<open>A clock that runs\<close>

text \<open>
  The environment in which nothing happens but the clock: one millisecond at
  every look at the hardware, with \<open>f\<close> on the pins.
\<close>

definition reloj :: "((pin \<Rightarrow> bool) \<Rightarrow> pin \<Rightarrow> bool) \<Rightarrow> nat \<Rightarrow> 'z hw_scheme \<Rightarrow> bool" where
  "reloj f n w \<longleftrightarrow> script w = replicate n [Ticks 1] \<and> sysTickOn w \<and> sysTickInt w \<and> tickRateMS w = 1 \<and> wire w = f"

text \<open>\<open>m\<close> needs at most \<open>k\<close> looks at the hardware.\<close>

definition a_tiempo :: "((pin \<Rightarrow> bool) \<Rightarrow> pin \<Rightarrow> bool) \<Rightarrow> nat \<Rightarrow> ('a, 'z) hwprog \<Rightarrow> bool" where
  "a_tiempo f k m \<longleftrightarrow> (\<forall>n w. reloj f n w \<and> k \<le> n \<longrightarrow> (case m w of
       Ret x w' \<Rightarrow> \<exists>n'. reloj f n' w' \<and> n \<le> n' + k | More w' \<Rightarrow> False | Fault e w' \<Rightarrow> True | Hang w' \<Rightarrow> True))"

lemma a_tiempoD:
  assumes "a_tiempo f k m" and "reloj f n w" and "k \<le> n"
  shows "\<not> (\<exists>w'. m w = More w')" and "m w = Ret x w' \<Longrightarrow> \<exists>n'. reloj f n' w' \<and> n \<le> n' + k"
  using assms by (fastforce simp: a_tiempo_def split: res.splits)+

lemma a_tiempo_mono: "a_tiempo f k m \<Longrightarrow> k \<le> k' \<Longrightarrow> a_tiempo f k' m"
  unfolding a_tiempo_def by (fastforce split: res.splits)

lemma a_tiempo_bind:
  fixes m :: "('b, 'a) hwprog"
  assumes "a_tiempo f k m" and "\<And>x. a_tiempo f j (g x)"
  shows "a_tiempo f (k + j) (bind m g)"
  unfolding a_tiempo_def
proof (intro allI impI)
  fix n and w :: "'a hw_scheme"
  assume w: "reloj f n w \<and> k + j \<le> n"
  show "case bind m g w of Ret x w' \<Rightarrow> \<exists>n'. reloj f n' w' \<and> n \<le> n' + (k + j) | More w' \<Rightarrow> False
      | Fault e w' \<Rightarrow> True | Hang w' \<Rightarrow> True"
  proof (cases "m w")
    case (Ret x w1)
    with a_tiempoD(2) [OF assms(1)] w obtain n1 where n1: "reloj f n1 w1" "n \<le> n1 + k" by fastforce
    with w have "j \<le> n1" by linarith
    from a_tiempoD [OF assms(2) n1(1) this, of x] n1(2) Ret show ?thesis
      by (fastforce simp: bind_apply split: res.splits)
  qed (use a_tiempoD(1) [OF assms(1)] w in \<open>auto simp: bind_apply\<close>)
qed

lemma a_tiempo_ret: "a_tiempo f 0 (ret x)" "a_tiempo f 0 (gets g)" "a_tiempo f 0 (fault e)"
  by (auto simp: a_tiempo_def)

lemma a_tiempo_modify: "(\<And>n w. reloj f n w \<Longrightarrow> reloj f n (g w)) \<Longrightarrow> a_tiempo f 0 (modify g)"
  by (auto simp: a_tiempo_def)

lemma a_tiempo_seq: "a_tiempo f 0 m \<Longrightarrow> (\<And>x. a_tiempo f k (g x)) \<Longrightarrow> a_tiempo f k (bind m g)"
  using a_tiempo_bind [of f 0 m k g] by simp

lemma a_tiempo_paso:
  "a_tiempo f k m \<Longrightarrow> (\<And>x. a_tiempo f (n - k) (g x)) \<Longrightarrow> k \<le> n \<Longrightarrow> a_tiempo f n (bind m g)"
  using a_tiempo_bind [of f k m "n - k" g] by simp

lemma a_tiempo_fin: "a_tiempo f k (ret x)"
  by (rule a_tiempo_mono [OF a_tiempo_ret(1)]) simp

lemma a_tiempo_for_each: "(\<And>x. x \<in> set xs \<Longrightarrow> a_tiempo f 0 (body x)) \<Longrightarrow> a_tiempo f 0 (for_each xs body)"
  by (induction xs) (auto intro: a_tiempo_ret a_tiempo_seq)

lemma a_tiempo_If: "(b \<Longrightarrow> a_tiempo f k m) \<Longrightarrow> (\<not> b \<Longrightarrow> a_tiempo f k n) \<Longrightarrow> a_tiempo f k (if b then m else n)"
  by simp

lemma poll_reloj:
  assumes "reloj f (Suc n) w"
  obtains w' where "poll w = Ret () w'" and "reloj f n w'" and "tickCounter w' = tickCounter w + 1"
  using assms by (auto simp: poll_def reloj_def tickerCallback_def)

lemma a_tiempo_poll: "a_tiempo f 1 poll"
  unfolding a_tiempo_def
proof (intro allI impI)
  fix n and w :: "'a hw_scheme"
  assume w: "reloj f n w \<and> 1 \<le> n"
  then obtain m where "n = Suc m" by (cases n) auto
  moreover from this w obtain w' where "poll w = Ret () w'" "reloj f m w'" using poll_reloj [of f m w] by auto
  ultimately show "case poll w of Ret x w' \<Rightarrow> \<exists>n'. reloj f n' w' \<and> n \<le> n' + 1 | More w' \<Rightarrow> False
      | Fault e w' \<Rightarrow> True | Hang w' \<Rightarrow> True" by (auto intro!: exI [of _ m])
qed

lemma a_tiempo_tickRead: "a_tiempo f 1 tickRead"
  unfolding tickRead_def using a_tiempo_bind [OF a_tiempo_poll a_tiempo_ret(2)] by simp

lemma tickRead_reloj:
  assumes "reloj f (Suc n) w"
  obtains w' where "tickRead w = Ret (tickCounter w + 1) w'" and "reloj f n w'" and "tickCounter w' = tickCounter w + 1"
  using poll_reloj [OF assms] by (metis (no_types, lifting) tickRead_def bind_Ret gets_apply)

text \<open>A delay takes as many ticks as it says, and one to read the clock.\<close>

lemma espera_reloj:
  fixes w :: "'z hw_scheme"
  assumes "reloj f n w" and "unat d \<le> j + n" and "0 < n" and "tickCounter w = t0 + of_nat j" and "j < 2 ^ 63" and "unat d < 2 ^ 63"
  shows "\<exists>w' n'. loop (\<lambda>_. bind tickRead (\<lambda>t. bind (gets tickRateMS) (\<lambda>rate.
       ret (if t - t0 < d div rate then Inl () else Inr ())))) () w = Ret () w' \<and> reloj f n' w' \<and>
       n \<le> n' + max 1 (unat d - j)"
  using assms
proof (induction n arbitrary: j w)
  case (Suc n)
  let ?body = "\<lambda>_ :: unit. bind tickRead (\<lambda>t. bind (gets tickRateMS) (\<lambda>rate.
       ret (if t - t0 < d div rate then Inl () else Inr ()))) :: (unit + unit, 'z) hwprog"
  obtain w1 where w1: "tickRead w = Ret (tickCounter w + 1) w1" "reloj f n w1" "tickCounter w1 = tickCounter w + 1"
    using Suc.prems(1) by (rule tickRead_reloj)
  have c: "consumes (?body x)" for x by (intro consumes_bind consumes_tickRead shr.within_rules)
  have r: "tickRateMS w1 = 1" using w1(2) by (simp add: reloj_def)
  have b: "?body () w = Ret (if of_nat (Suc j) < d then Inl () else Inr ()) w1"
    using w1 Suc.prems(4) r by (simp add: bind_apply add.commute)
  have u: "loop ?body () w = (case (if of_nat (Suc j) < d then Inl () else Inr ()) of Inl y \<Rightarrow> loop ?body y
      | Inr z \<Rightarrow> ret z) w1"
    by (subst loop_unfold [OF c]) (simp only: bind_apply [of "?body ()"] b res.case)
  have lt: "of_nat (Suc j) < d \<longleftrightarrow> Suc j < unat d"
    using Suc.prems(5)
    by (simp add: word_less_nat_alt unat_of_nat take_bit_nat_eq_self del: of_nat_Suc)
  show ?case
  proof (cases "Suc j < unat d")
    case True
    with Suc.prems have "unat d \<le> Suc j + n" "0 < n" "tickCounter w1 = t0 + of_nat (Suc j)" "Suc j < 2 ^ 63"
      using w1 by auto
    from Suc.IH [OF w1(2) this Suc.prems(6)] obtain w' n' where "loop ?body () w1 = Ret () w'" "reloj f n' w'"
      "n \<le> n' + max 1 (unat d - Suc j)" by blast
    moreover have "loop ?body () w = loop ?body () w1"
      unfolding u using True lt by (simp del: of_nat_Suc)
    moreover have "max 1 (unat d - j) = Suc (max 1 (unat d - Suc j))" using True by (simp add: max_def) linarith
    ultimately show ?thesis by (metis (no_types, lifting) Suc_le_mono add_Suc_right)
  next
    case False
    then have "loop ?body () w = Ret () w1"
      unfolding u using lt by (simp del: of_nat_Suc)
    with w1(2) show ?thesis
      by (intro exI [of _ w1] exI [of _ n] conjI) (assumption | simp)+
  qed
qed simp

lemma a_tiempo_delay:
  assumes "d < 0x7FFFFFFFFFFFFFFF"
  shows "a_tiempo f (unat d + 2) (delay d)"
  unfolding a_tiempo_def
proof (intro allI impI)
  fix n and w :: "'a hw_scheme"
  assume w: "reloj f n w \<and> unat d + 2 \<le> n"
  then obtain m where n: "n = Suc m" "unat d + 1 \<le> m" by (cases n) auto
  then obtain w1 where w1: "tickRead w = Ret (tickCounter w + 1) w1" "reloj f m w1" "tickCounter w1 = tickCounter w + 1"
    using w tickRead_reloj [of f m w] by auto
  have "unat d < 2 ^ 63" using assms by (simp add: word_less_nat_alt)
  from espera_reloj [OF w1(2), of d 0 "tickCounter w + 1"] this n w1(3)
  obtain w' n' where "delay d w = Ret () w'" "reloj f n' w'" "m \<le> n' + max 1 (unat d)"
    unfolding delay_def bind_apply [of tickRead] w1(1) by auto
  with n show "case delay d w of Ret x w' \<Rightarrow> \<exists>n'. reloj f n' w' \<and> n \<le> n' + (unat d + 2) | More w' \<Rightarrow> False
      | Fault e w' \<Rightarrow> True | Hang w' \<Rightarrow> True" by (auto intro!: exI [of _ n'])
qed

text \<open>Statements that take no time.\<close>

lemma a_tiempo_println: "a_tiempo f 0 (display_println s y)"
  unfolding display_println_def display_setCursor_def display_print_def display_char_def buffer_set_def block.simps
  by (intro a_tiempo_If a_tiempo_for_each a_tiempo_seq a_tiempo_modify a_tiempo_ret)
    (auto simp: reloj_def a_tiempo_def)

lemma a_tiempo_i2c: "a_tiempo f 0 (ssd1306_cmd c)" "a_tiempo f 0 (ssd1306_data bs)"
  unfolding ssd1306_cmd_def ssd1306_data_def i2cWrite_def void_def
  by (intro a_tiempo_seq a_tiempo_If a_tiempo_modify a_tiempo_ret; simp add: reloj_def)+

lemma a_tiempo_update: "a_tiempo f 1 display_update"
proof -
  have p: "a_tiempo f 1 (bind poll (\<lambda>_. ret ()))" by (rule a_tiempo_paso [OF a_tiempo_poll a_tiempo_fin]) simp
  show ?thesis
    unfolding display_update_def block.simps
    by (rule a_tiempo_seq [OF a_tiempo_for_each], (intro a_tiempo_seq a_tiempo_i2c a_tiempo_ret), rule p)
qed

lemma a_tiempo_mods:
  "a_tiempo f 0 (ir e)" "a_tiempo f 0 display_clear" "a_tiempo f 0 (set_pin p v)"
  "a_tiempo f 0 (modify (\<lambda>w. w\<lparr>intentosFallidos := k\<rparr>))" "a_tiempo f 0 (lineas ls)"
  "a_tiempo f 0 (bienvenida tg)"
proof -
  show "a_tiempo f 0 (ir e)" "a_tiempo f 0 display_clear" "a_tiempo f 0 (set_pin p v)"
    "a_tiempo f 0 (modify (\<lambda>w. w\<lparr>intentosFallidos := k\<rparr>))"
    unfolding ir_def display_clear_def set_pin_def Chip_GPIO_SetPinState_def
    by (rule a_tiempo_modify, simp add: reloj_def)+
  show "a_tiempo f 0 (lineas ls)"
    unfolding lineas_def by (intro a_tiempo_for_each) (auto intro: a_tiempo_println)
  show "a_tiempo f 0 (bienvenida tg)"
    by (auto simp: bienvenida_def store_str_def a_tiempo_ret split: option.split)
qed

lemma a_tiempo_motor: "a_tiempo f 0 abrirCerradura" "a_tiempo f 0 cerrarCerradura"
  unfolding abrirCerradura_def cerrarCerradura_def step_move_def step_pulse_def delayInaccurateUs_def busy_def block.simps
  by (intro a_tiempo_seq a_tiempo_for_each a_tiempo_mods a_tiempo_ret a_tiempo_modify; simp add: reloj_def)+

lemma a_tiempo_marcar: "a_tiempo f 1 marcar"
  unfolding marcar_def tick32_def bind_assoc bind_ret
  by (rule a_tiempo_paso [OF a_tiempo_tickRead]) (auto intro!: a_tiempo_modify simp: reloj_def)

lemma a_tiempo_100: "a_tiempo f 102 (delay 100)" "a_tiempo f 122 (delay 120)" "a_tiempo f 502 (delay 500)"
    "a_tiempo f 1202 (delay 1200)"
  using a_tiempo_delay [of 100 f] a_tiempo_delay [of 120 f] a_tiempo_delay [of 500 f] a_tiempo_delay [of 1200 f]
  by simp_all

lemma a_tiempo_exito: "a_tiempo f 326 alertaExito"
  unfolding alertaExito_def block.simps
  by (intro a_tiempo_seq a_tiempo_mods a_tiempo_100 [THEN a_tiempo_paso] a_tiempo_fin) simp_all

section \<open>Reactions of the machine\<close>

lemma a_tiempo_correcto: "a_tiempo f 1529 pin_correcto"
  unfolding pin_correcto_def block.simps
  by (intro a_tiempo_seq [OF a_tiempo_ret(2)] a_tiempo_seq [OF a_tiempo_If] a_tiempo_seq [OF a_tiempo_mods(1)]
     a_tiempo_seq [OF a_tiempo_mods(2)] a_tiempo_seq [OF a_tiempo_mods(4)] a_tiempo_seq [OF a_tiempo_motor(1)]
     a_tiempo_seq a_tiempo_mods
     a_tiempo_exito [THEN a_tiempo_paso] a_tiempo_100 [THEN a_tiempo_paso] a_tiempo_update [THEN a_tiempo_paso] a_tiempo_fin)
   simp_all

lemma a_tiempo_validar:
  assumes "reloj f n w" and "1529 \<le> n" and "estadoActual w = VALIDAR" and "validarPin (listaPins w) (pinIngresado w)"
  shows "\<not> (\<exists>w'. mefUpdate w = More w')"
proof -
  obtain w1 where w1: "display_clear w = Ret () w1" "listaPins w1 = listaPins w" "pinIngresado w1 = pinIngresado w"
    "reloj f n w1"
    using assms(1) by (auto simp: display_clear_def reloj_def)
  then have "mefUpdate w = pin_correcto w1"
    using assms(3,4) by (simp add: mefUpdate_def bind_gets caso_VALIDAR_def bind_apply)
  with a_tiempoD(1) [OF a_tiempo_correcto w1(4) assms(2)] show ?thesis by simp
qed

lemma cierre_paso:
  "cumple {} c (block [block [cerrarCerradura, marcar, ir ESPERANDO_ACCION, display_clear], delay 500])
     (\<lambda>_ c'. c' = c\<lparr>c_motor := movido False (c_motor c), c_estado := ESPERANDO_ACCION\<rparr>)"
  unfolding secuencia by (intro pasos) simp

lemma a_tiempo_cierre:
  "a_tiempo f 503 (block [block [cerrarCerradura, marcar, ir ESPERANDO_ACCION, display_clear], delay 500])"
  unfolding secuencia
  by (intro a_tiempo_seq [OF a_tiempo_motor(2)] a_tiempo_marcar [THEN a_tiempo_paso] a_tiempo_seq [OF a_tiempo_mods(1)]
    a_tiempo_seq [OF a_tiempo_mods(2)] a_tiempo_100 [THEN a_tiempo_paso] a_tiempo_fin) simp_all

lemma a_tiempo_tarjeta:
  "a_tiempo f 0 abrir_si" "a_tiempo f 0 (modify (\<lambda>w. w\<lparr>rfidLeido := r\<rparr>))" "a_tiempo f 0 tecladoReset"
proof -
  show "a_tiempo f 0 abrir_si" by (simp add: abrir_si_def OMITIR_MOTOR_def a_tiempo_motor)
  show "a_tiempo f 0 (modify (\<lambda>w. w\<lparr>rfidLeido := r\<rparr>))" by (rule a_tiempo_modify) (simp add: reloj_def)
  show "a_tiempo f 0 tecladoReset" unfolding tecladoReset_def by (rule a_tiempo_modify) (simp add: reloj_def)
qed

lemma a_tiempo_1000: "a_tiempo f 1002 (delay 1000)" "a_tiempo f 1502 (delay 1500)"
  using a_tiempo_delay [of 1000 f] a_tiempo_delay [of 1500 f] by simp_all

lemma a_tiempo_error: "a_tiempo f 1002 alertaError"
  unfolding alertaError_def block.simps
  by (rule a_tiempo_seq [OF a_tiempo_mods(3)], rule a_tiempo_paso [OF a_tiempo_1000(1)])
    (intro a_tiempo_seq a_tiempo_mods a_tiempo_fin, simp_all)

lemma a_tiempo_mostrar: "a_tiempo f 1 (mostrar ls)"
  unfolding mostrar_def block.simps
  by (rule a_tiempo_seq [OF a_tiempo_mods(2)], rule a_tiempo_seq [OF a_tiempo_mods(5)], rule a_tiempo_paso [OF a_tiempo_update])
    (intro a_tiempo_fin, simp)

text \<open>The time the answer to a card takes at most.\<close>

definition tiempo_tarjeta :: "PinUsuario list \<Rightarrow> string \<Rightarrow> nat" where
  "tiempo_tarjeta us r = (if obtenerTagPorRFID us r \<noteq> None then 327 else 2505)"

lemma a_tiempo_validar_rfid:
  assumes "reloj f n w" and "tiempo_tarjeta (listaPins w) (rfidLeido w) \<le> n" and "estadoActual w = VALIDAR_RFID"
  shows "\<not> (\<exists>w'. mefUpdate w = More w')"
proof (cases "obtenerTagPorRFID (listaPins w) (rfidLeido w)")
  case (Some tg)
  let ?m = "bind display_clear (\<lambda>_. bind (lineas [(''ACCESO CONCEDIDO'', 20)]) (\<lambda>_. bind (bienvenida (Some tg)) (\<lambda>b.
       block [lineas [(b, 10)], display_update, alertaExito, abrir_si, ir SENSOR_CIERRE,
         modify (\<lambda>w. w\<lparr>rfidLeido := []\<rparr>)]))) :: (unit, 'a) mprog"
  have t: "a_tiempo f 327 ?m"
    unfolding block.simps
    by (rule a_tiempo_seq [OF a_tiempo_mods(2)], rule a_tiempo_seq [OF a_tiempo_mods(5)], rule a_tiempo_seq [OF a_tiempo_mods(6)],
        rule a_tiempo_seq [OF a_tiempo_mods(5)], rule a_tiempo_paso [OF a_tiempo_update], rule a_tiempo_paso [OF a_tiempo_exito])
      (intro a_tiempo_seq [OF a_tiempo_tarjeta(1)] a_tiempo_seq [OF a_tiempo_mods(1)] a_tiempo_seq [OF a_tiempo_tarjeta(2)]
        a_tiempo_fin, simp_all)
  have "mefUpdate w = ?m w"
    using assms(3) Some by (simp add: mefUpdate_def bind_gets caso_VALIDAR_RFID_def del: block.simps bind_block_Cons)
  then show ?thesis using a_tiempoD(1) [OF t assms(1)] assms(2) Some by (simp add: tiempo_tarjeta_def del: block.simps bind_block_Cons)
next
  case None
  let ?m = "block [alertaError, mostrar [(''ACCESO DENEGADO'', 20), (''RFID NO REGISTRADO'', 35)],
         delay 1500, display_clear, tecladoReset, ir ESPERANDO_ACCION] :: (unit, 'a) mprog"
  have t: "a_tiempo f 2505 ?m"
    unfolding block.simps
    by (rule a_tiempo_paso [OF a_tiempo_error], rule a_tiempo_paso [OF a_tiempo_mostrar], rule a_tiempo_paso [OF a_tiempo_1000(2)])
      (intro a_tiempo_seq [OF a_tiempo_mods(2)] a_tiempo_seq [OF a_tiempo_tarjeta(3)] a_tiempo_seq [OF a_tiempo_mods(1)]
        a_tiempo_fin, simp_all)
  have "mefUpdate w = ?m w"
    using assms(3) None by (simp add: mefUpdate_def bind_gets caso_VALIDAR_RFID_def del: block.simps bind_block_Cons)
  then show ?thesis using a_tiempoD(1) [OF t assms(1)] assms(2) None by (simp add: tiempo_tarjeta_def del: block.simps bind_block_Cons)
qed

section \<open>Properties\<close>








end
