(* ===== verification/Mef_Props.thy ===== *)
theory Mef_Props
  imports Mef_Vida
begin

text \<open>
  Properties of the running lock: who can open it, who reaches the administrator's
  menu, what can change the user table, what a wrong PIN does, the sleep of the
  processor, and two limits of the code (a long tag, the clock after \<open>2\<^sup>3\<^sup>1\<close> ms).
\<close>

section \<open>Sleep\<close>

definition dormido :: "'z hw_scheme \<Rightarrow> bool" where
  "dormido w \<longleftrightarrow> \<not> sysTickInt w \<and> (awake w \<longrightarrow> eventoPresencia w)"

lemma dormido_ev: "dormido w \<Longrightarrow> dormido (apply_ev e w)"
  by (cases e) (auto simp: dormido_def nvic_dispatch_def GPIO0_IRQHandler_def)

lemma dormido_evs: "dormido w \<Longrightarrow> dormido (fold apply_ev evs w)"
  by (induction evs arbitrary: w) (auto simp: dormido_ev)

lemma keeps_dormido: "keeps E dormido poll"
  by (rule keepsI) (auto simp: poll_def intro!: dormido_evs split: list.splits, simp add: dormido_def)

lemma sysTickInt_ev: "\<not> sysTickInt w \<Longrightarrow> \<not> sysTickInt (fold apply_ev evs w)"
proof (induction evs arbitrary: w)
  case (Cons e evs)
  have "\<not> sysTickInt (apply_ev e w)"
    using Cons.prems by (cases e) (auto simp: nvic_dispatch_def GPIO0_IRQHandler_def)
  with Cons.IH show ?case by simp
qed simp

lemma WFI_sat:
  assumes "\<not> sysTickInt w"
  shows "sat E (\<lambda>_ w'. eventoPresencia w' \<and> \<not> sysTickInt w') (\<lambda>_. True) (WFI w)"
  unfolding WFI_def bind_modify
proof (rule sat_loop [where I = "\<lambda>_. dormido"])
  show "dormido (w\<lparr>awake := False\<rparr>)" using assms by (simp add: dormido_def)
  show "consumes (bind poll (\<lambda>_. bind (gets awake) (\<lambda>a. ret (if a then Inr () else Inl ()))))" for x :: unit
    by (intro consumes_bind consumes_poll shr.within_rules)
next
  fix x :: unit and w :: "'a hw_scheme"
  assume "dormido w"
  from keepsD [OF keeps_dormido [of E] this]
  show "sat E (\<lambda>r w'. case r of Inl y \<Rightarrow> dormido w' | Inr z \<Rightarrow> eventoPresencia w' \<and> \<not> sysTickInt w') (\<lambda>_. True)
     (bind poll (\<lambda>_. bind (gets awake) (\<lambda>a. ret (if a then Inr () else Inl ()))) w)"
    by (simp add: sat_bind_iff) (elim sat_weaken; auto simp: dormido_def)
qed

lemma keeps_mostrar_tick:
  assumes "list_all (\<lambda>(s, y). cabe (length s) y) ls"
  shows "keeps E (\<lambda>w. \<not> sysTickInt w) (mostrar ls)"
proof -
  have p: "keeps E (\<lambda>w :: 'a disp_scheme. \<not> sysTickInt w) (display_println s y)" if "cabe (length s) y" for s y
    using that by (simp add: keeps_def display_println_Ret)
  have "keeps E (\<lambda>w :: 'a disp_scheme. \<not> sysTickInt w) poll"
    by (auto simp: keeps_def poll_def sysTickInt_ev split: list.splits)
  then have "keeps E (\<lambda>w :: 'a disp_scheme. \<not> sysTickInt w) display_update"
    unfolding display_update_def ssd1306_cmd_def ssd1306_data_def i2cWrite_def
    by (intro keeps_block) (auto intro!: keeps_for_each keeps_block keeps_void keeps_rules keeps_modify)
  then show ?thesis
    using assms unfolding mostrar_def lineas_def display_clear_def
    by (intro keeps_block)
      (auto intro!: keeps_for_each keeps_modify p simp: list_all_iff split: prod.splits)
qed

section \<open>Waking up\<close>

text \<open>A rising edge on the sensor, with the interrupt set up and enabled.\<close>

definition atento :: "'z hw_scheme \<Rightarrow> bool" where
  "atento w \<longleftrightarrow> pinintSel w = Some (0, 12) \<and> pinintEdge w \<and> pinintHigh w \<and> nvicEnabled w"

lemma atento_evs:
  "atento w \<Longrightarrow> atento (fold apply_ev evs w)"
  "awake w \<Longrightarrow> awake (fold apply_ev evs w)"
  "atento w \<Longrightarrow> Presencia \<in> set evs \<Longrightarrow> awake (fold apply_ev evs w)"
proof -
  have a: "atento (apply_ev e w)" if "atento w" for e and w :: "'a hw_scheme"
    using that by (cases e) (auto simp: atento_def nvic_dispatch_def GPIO0_IRQHandler_def tickerCallback_funpow)
  have b: "awake (apply_ev e w)" if "awake w" for e and w :: "'a hw_scheme"
    using that by (cases e) (auto simp: nvic_dispatch_def GPIO0_IRQHandler_def tickerCallback_funpow)
  show at: "atento w \<Longrightarrow> atento (fold apply_ev evs w)" for w :: "'a hw_scheme"
    by (induction evs arbitrary: w) (auto simp: a)
  show aw: "awake w \<Longrightarrow> awake (fold apply_ev evs w)" for w :: "'a hw_scheme" and evs
    by (induction evs arbitrary: w) (auto simp: b)
  show "atento w \<Longrightarrow> Presencia \<in> set evs \<Longrightarrow> awake (fold apply_ev evs w)"
  proof (induction evs arbitrary: w)
    case (Cons e evs)
    show ?case
    proof (cases "e = Presencia")
      case True
      with Cons.prems have "awake (apply_ev e w)"
        by (auto simp: atento_def nvic_dispatch_def GPIO0_IRQHandler_def)
      then show ?thesis by (simp add: aw)
    next
      case False
      with Cons show ?thesis by (auto simp: a)
    qed
  qed simp
qed

lemma WFI_despierta:
  fixes w :: "'z hw_scheme"
  assumes "atento w" and "script w = sc1 @ evs # sc2" and "Presencia \<in> set evs"
  shows "\<not> (\<exists>w'. loop (\<lambda>_. bind poll (\<lambda>_. bind (gets awake) (\<lambda>a. ret (if a then Inr () else Inl ())))) () w = More w')"
  using assms
proof (induction sc1 arbitrary: w)
  let ?body = "\<lambda>_ :: unit. bind poll (\<lambda>_. bind (gets awake) (\<lambda>a. ret (if a then Inr () else Inl ())))
    :: (unit + unit, 'z) hwprog"
  have c: "consumes (?body x)" for x by (intro consumes_bind consumes_poll shr.within_rules)
  {
    case (Nil w)
    then have "awake (fold apply_ev evs (w\<lparr>script := sc2\<rparr>))"
      by (intro atento_evs) (simp_all add: atento_def)
    with Nil show ?case by (subst loop_unfold [OF c]) (simp add: bind_apply poll_def)
  next
    case (Cons e sc1 w)
    let ?w = "fold apply_ev e (w\<lparr>script := sc1 @ evs # sc2\<rparr>)"
    have "atento (w\<lparr>script := sc1 @ evs # sc2\<rparr>)" using Cons.prems(1) by (simp add: atento_def)
    then have "\<not> (\<exists>w'. loop ?body () ?w = More w')"
      by (intro Cons.IH atento_evs(1) Cons.prems(3)) simp_all
    with Cons.prems show ?case by (subst loop_unfold [OF c]) (simp add: bind_apply poll_def)
  }
qed

section \<open>The clock in a long int\<close>

lemma sint_u32:
  "sint (v :: u32) = (if uint v < 2147483648 then uint v else uint v - 4294967296)"
proof -
  have u: "0 \<le> uint v" "uint v < 4294967296" using unsigned_less [of v, where 'a = int] by simp_all
  have "uint v div 2147483648 = (if uint v < 2147483648 then 0 else 1)"
    using u int_div_pos_eq [of "uint v" 2147483648 1 "uint v - 2147483648"] by simp
  then have b: "bit (uint v) 31 \<longleftrightarrow> \<not> uint v < 2147483648" by (simp add: bit_iff_odd)
  show ?thesis
    using u by (simp add: sint_uint signed_take_bit_eq_take_bit_minus b take_bit_int_eq_self)
qed

lemma scast_u32:
  fixes u :: u64
  assumes "uint u < 2 ^ 32"
  shows "(scast (ucast u :: u32) :: u64) = (if u < 2147483648 then u else u - 4294967296)"
proof -
  have "uint (ucast u :: u32) = uint u" using assms by (simp add: unsigned_ucast_eq take_bit_int_eq_self)
  then have "sint (ucast u :: u32) = (if u < 2147483648 then uint u else uint u - 4294967296)"
    by (simp add: sint_u32 word_less_def)
  then show ?thesis by (simp add: scast_eq)
qed

section \<open>Examples\<close>

lemma tags_init: "tags_cortos listaPins_init"
  by (simp add: tags_cortos_def listaPins_init_def usuario_cero_def list_all_iff)

lemma sin_pin_99999: "\<not> validarPin listaPins_init ''99999''"
  by (simp add: sin_pin listaPins_init_def es_pin_def usuario_cero_def)

lemma ejemplo:
  "listaPins ((mef0 sc)\<lparr>keypad := k, estadoActual := e, pinIngresado := p\<rparr>) = listaPins_init"
  "intentosFallidos ((mef0 sc)\<lparr>keypad := k, estadoActual := e, pinIngresado := p\<rparr>) = 0"
  "fallos (ctl ((mef0 sc)\<lparr>keypad := k, estadoActual := VALIDAR, pinIngresado := p\<rparr>)) = {}"
  by (simp_all add: mef0_def hw0_def fallos_def ctl_def tags_init)

text \<open>Whose credential it is.\<close>

lemma credencial_usuario:
  assumes "credencial w"
  shows "\<exists>u \<in> set (listaPins w). activo u \<and>
        (estadoActual w = VALIDAR \<and> codigo u = pinIngresado w \<or>
         estadoActual w = VALIDAR_RFID \<and> rfid u \<noteq> [] \<and> rfid u = rfidLeido w \<or>
         estadoActual w = LEER_Y_VALIDAR_HUELLA \<and> st (g_scan w) = ST_DONE_MATCH \<and>
           huella u = idStr (lastId (g_scan w)))"
  using assms cred_pin.valida_activo [of "listaPins w" "pinIngresado w"]
    cred_rfid.tag_duenio [of "listaPins w" "rfidLeido w"]
    cred_huella.valida_activo [of "listaPins w" "idStr (lastId (g_scan w))"]
  by (auto simp: credencial_def es_pin_def es_rfid_def es_huella_def split: EstadoMEF.splits)

section \<open>Properties\<close>

text \<open>C4: Every opening is authorised. With the invariant, in every environment, a call of \<^verbatim>\<open>mefUpdate\<close>
  that enters the state with the bolt open does so from one of the three validation states, and an
  active user of the table holds the PIN that was typed, the card that was read, or the fingerprint
  whose number the sensor reported for a completed search.\<close>

theorem apertura_autorizada:
  assumes "estable w" and "estadoActual w \<noteq> SENSOR_CIERRE"
  shows "sat (fallos (ctl w)) (\<lambda>_ w'. estadoActual w' = SENSOR_CIERRE \<longrightarrow>
      (\<exists>u \<in> set (listaPins w). activo u \<and>
        (estadoActual w = VALIDAR \<and> codigo u = pinIngresado w \<or>
         estadoActual w = VALIDAR_RFID \<and> rfid u \<noteq> [] \<and> rfid u = rfidLeido w \<or>
         estadoActual w = LEER_Y_VALIDAR_HUELLA \<and> st (g_scan w) = ST_DONE_MATCH \<and>
           huella u = idStr (lastId (g_scan w))))) (\<lambda>_. True) (mefUpdate w)"
proof -
  have m: "m_pos (motor w) = 0" "keypad w = teclado_k"
    using assms by (simp_all add: estable_def inv_ctl_def ctl_def base_def teclado_inv_def)
  have "credencial w" if "mefUpdate w = Ret x w'" "estadoActual w' = SENSOR_CIERRE" for x w'
  proof (rule ccontr)
    assume "\<not> credencial w"
    from sin_credencial_motor [OF m(2) assms(2) this] that(1) have "motor w' = motor w" by simp
    moreover have "m_pos (motor w') = 100"
      using mefUpdate_Ret(1) [OF assms(1), of w'] that by (simp add: estable_def inv_ctl_def ctl_def)
    ultimately show False using m(1) by simp
  qed
  then have "sat (fallos (ctl w)) (\<lambda>_ w'. estadoActual w' = SENSOR_CIERRE \<longrightarrow> credencial w) (\<lambda>_. True) (mefUpdate w)"
    using mefUpdate_estable [OF assms(1)] by (cases "mefUpdate w") auto
  then show ?thesis by (rule sat_weaken) (auto dest: credencial_usuario)
qed

theorem apertura_autorizada_witness:
  "\<forall>sc. sat {} (\<lambda>_ w'. estadoActual w' \<noteq> SENSOR_CIERRE) (\<lambda>_. True)
     (mefUpdate ((mef0 sc)\<lparr>keypad := teclado_k, estadoActual := VALIDAR, pinIngresado := ''99999''\<rparr>))"
proof
  fix sc
  let ?w = "((mef0 sc)\<lparr>keypad := teclado_k, estadoActual := VALIDAR, pinIngresado := ''99999''\<rparr>)"
  have "(\<exists>u \<in> set listaPins_init. activo u \<and> codigo u = ''99999'') = False"
    using sin_pin_99999 by (auto simp: sin_pin es_pin_def)
  then show "sat {} (\<lambda>_ w'. estadoActual w' \<noteq> SENSOR_CIERRE) (\<lambda>_. True) (mefUpdate ?w)"
    using apertura_autorizada [OF estable_w(1) [of VALIDAR "''99999''" sc]] by (simp add: ejemplo del: bex_simps)
qed



text \<open>C11: Using the lock does not change the user table: in the waiting state, the validation states
  and the state that waits for the door, a call of \<^verbatim>\<open>mefUpdate\<close> that returns leaves the table as it
  was.\<close>

theorem tabla_protegida:
  assumes "estable w" and "estadoActual w \<in> {ESPERANDO_ACCION, VALIDAR, VALIDAR_RFID, LEER_Y_VALIDAR_HUELLA, SENSOR_CIERRE}"
  shows "sat (fallos (ctl w)) (\<lambda>_ w'. listaPins w' = listaPins w) (\<lambda>_. True) (mefUpdate w)"
proof -
  have "sat (fallos (ctl w)) (\<lambda>_ w'. (\<lambda>c'. c_tabla c' = listaPins w) (ctl w')) (\<lambda>_. True) (mefUpdate w)"
    by (rule mefUpdate_sat [OF assms(1)], erule pasoE)
      (use assms(2) in \<open>auto simp: ctl_def abierta_def\<close>)
  then show ?thesis by (simp add: ctl_def)
qed

theorem tabla_protegida_witness:
  "\<forall>sc. sat {} (\<lambda>_ w'. listaPins w' = listaPins_init) (\<lambda>_. True)
     (mefUpdate ((mef0 sc)\<lparr>keypad := teclado_k, estadoActual := VALIDAR, pinIngresado := ''66666''\<rparr>))"
proof
  fix sc
  show "sat {} (\<lambda>_ w'. listaPins w' = listaPins_init) (\<lambda>_. True)
     (mefUpdate ((mef0 sc)\<lparr>keypad := teclado_k, estadoActual := VALIDAR, pinIngresado := ''66666''\<rparr>))"
    using tabla_protegida [OF estable_w(1) [of VALIDAR "''66666''" sc]] by (simp add: ejemplo)
qed

text \<open>C12: A wrong PIN is refused: with the invariant and an invalid PIN in the state \<^verbatim>\<open>VALIDAR\<close>, a call
  of \<^verbatim>\<open>mefUpdate\<close> that returns goes back to waiting, has not moved the bolt nor changed the table, and
  counts the attempt; the third failed attempt starts the count again.\<close>

theorem pin_invalido_rechazado:
  assumes "estable w" and "estadoActual w = VALIDAR" and "\<not> validarPin (listaPins w) (pinIngresado w)"
  shows "sat (fallos (ctl w)) (\<lambda>_ w'. estadoActual w' = ESPERANDO_ACCION \<and> motor w' = motor w \<and>
     listaPins w' = listaPins w \<and> intentosFallidos w' = (intentosFallidos w + 1) mod 3) (\<lambda>_. True) (mefUpdate w)"
proof -
  have "sat (fallos (ctl w)) (\<lambda>_ w'. (\<lambda>c'. c_estado c' = ESPERANDO_ACCION \<and> c_motor c' = motor w \<and>
     c_tabla c' = listaPins w \<and> c_intentos c' = (intentosFallidos w + 1) mod 3) (ctl w')) (\<lambda>_. True) (mefUpdate w)"
    by (rule mefUpdate_sat [OF assms(1)], erule pasoE)
      (use assms(2,3) in \<open>auto simp: ctl_def abierta_def\<close>)
  then show ?thesis by (simp add: ctl_def)
qed

theorem pin_invalido_rechazado_witness:
  "\<forall>sc. sat {} (\<lambda>_ w'. estadoActual w' = ESPERANDO_ACCION \<and> intentosFallidos w' = 1) (\<lambda>_. True)
     (mefUpdate ((mef0 sc)\<lparr>keypad := teclado_k, estadoActual := VALIDAR, pinIngresado := ''99999''\<rparr>))"
proof
  fix sc
  let ?w = "((mef0 sc)\<lparr>keypad := teclado_k, estadoActual := VALIDAR, pinIngresado := ''99999''\<rparr>)"
  have "sat {} (\<lambda>_ w'. estadoActual w' = ESPERANDO_ACCION \<and> motor w' = motor ?w \<and>
     listaPins w' = listaPins_init \<and> intentosFallidos w' = 1) (\<lambda>_. True) (mefUpdate ?w)"
    using pin_invalido_rechazado [OF estable_w(1) [of VALIDAR "''99999''" sc]] by (simp add: ejemplo sin_pin_99999)
  then show "sat {} (\<lambda>_ w'. estadoActual w' = ESPERANDO_ACCION \<and> intentosFallidos w' = 1) (\<lambda>_. True) (mefUpdate ?w)"
    by (rule sat_weaken) simp_all
qed

text \<open>C18: Only the presence sensor ends the sleep. In every environment and from every state, when
  the sleeping part of \<^verbatim>\<open>entrarModoSleep\<close> returns, the presence interrupt has been taken (its flag is
  set) and the tick interrupt is still masked.\<close>

theorem solo_presencia_despierta:
  "sat {} (\<lambda>_ w'. eventoPresencia w' \<and> \<not> sysTickInt w') (\<lambda>_. True) (dormir w)"
proof -
  have fin: "sat {} (\<lambda>_ w'. eventoPresencia w' \<and> \<not> sysTickInt w') (\<lambda>_. True)
     (block [SysTick_setTickInt False, mostrar [(''MODO BAJO'', 10), (''CONSUMO ACTIVADO'', 30)], WFI] w)" for w :: "'a mef_scheme"
    unfolding block.simps SysTick_setTickInt_def bind_modify
    by (rule sat_bind, rule sat_weaken [OF keepsD [OF keeps_mostrar_tick]])
      (auto simp: sat_bind_iff cabe_simps intro: WFI_sat)
  have d: "dormir = bind (block [
     mostrar [(''ENTRANDO EN MODO'', 10), (''BAJO CONSUMO'', 30)],
     delay 100,
     modify (\<lambda>w. w\<lparr>eventoPresencia := False\<rparr>),
     Chip_PININT_ClearIntStatus,
     NVIC_ClearPendingIRQ,
     NVIC_EnableIRQ]) (\<lambda>_. block [SysTick_setTickInt False, mostrar [(''MODO BAJO'', 10), (''CONSUMO ACTIVADO'', 30)], WFI])"
    unfolding dormir_def by (simp only: block_append [symmetric] append.simps)
  have s: "safe {} (mostrar ls)" if "list_all (\<lambda>(s, y). cabe (length s) y) ls" for ls
    using that unfolding mostrar_def lineas_def
    by (intro keeps_block) (auto intro!: keeps_for_each safe_disp simp: list_all_iff split: prod.splits)
  show ?thesis
    unfolding d
    by (rule sat_safe_bind [OF keeps_block fin])
      (auto intro!: s safe_delay keeps_modify simp: cabe_simps Chip_PININT_ClearIntStatus_def NVIC_ClearPendingIRQ_def NVIC_EnableIRQ_def)
qed

text \<open>The presence sensor ends the sleep. After \<^verbatim>\<open>configurarInterrupcionPRESENCIA\<close>, with the interrupt
  enabled and the tick interrupt masked as \<^verbatim>\<open>entrarModoSleep\<close> does, \<^verbatim>\<open>__WFI\<close> returns as soon as the
  environment has a rising edge on the sensor, whatever else happens before, and the flag of the
  handler is set.\<close>

lemma presencia_despierta:
  assumes "script w = sc1 @ evs # sc2" and "Presencia \<in> set evs"
  shows "\<exists>w'. block [configurarInterrupcionPRESENCIA, NVIC_EnableIRQ, SysTick_setTickInt False, WFI] w = Ret () w' \<and>
     eventoPresencia w'"
proof -
  obtain w1 where w1: "block [configurarInterrupcionPRESENCIA, NVIC_EnableIRQ, SysTick_setTickInt False] w = Ret () w1"
      "script w1 = script w" "atento w1" "\<not> sysTickInt w1"
    by (simp add: configurarInterrupcionPRESENCIA_def NVIC_EnableIRQ_def SysTick_setTickInt_def
        Chip_SCU_PinMux_def Chip_GPIO_SetDir_def Chip_SCU_GPIOIntPinSel_def Chip_PININT_ClearIntStatus_def
        Chip_PININT_SetPinModeEdge_def Chip_PININT_EnableIntHigh_def bind_apply atento_def
        nvic_dispatch_def GPIO0_IRQHandler_def)
  have "atento (w1\<lparr>awake := False\<rparr>)" using w1(3) by (simp add: atento_def)
  from WFI_despierta [OF this _ assms(2), of sc1 sc2] assms(1) w1(2)
  have "\<not> (\<exists>w'. WFI w1 = More w')" by (simp add: WFI_def bind_modify)
  with WFI_sat [OF w1(4), of "{}"] obtain w' where "WFI w1 = Ret () w'" "eventoPresencia w'"
    by (cases "WFI w1") auto
  moreover have "block [configurarInterrupcionPRESENCIA, NVIC_EnableIRQ, SysTick_setTickInt False, WFI] w =
      bind (block [configurarInterrupcionPRESENCIA, NVIC_EnableIRQ, SysTick_setTickInt False]) (\<lambda>_. WFI) w"
    by (simp add: bind_assoc)
  ultimately show ?thesis by (simp only: bind_apply [of "block _"] w1(1) res.case) blast
qed

text \<open>C38: A tag of 18 or more characters cannot be greeted: for a valid PIN of such a user the step
  writes past the 30 characters of the greeting, and the bolt has not moved. The table holds
  tags of up to 19 characters.\<close>

theorem tag_largo_desborda:
  assumes "estadoActual w = VALIDAR" and "obtenerTagPorPin (listaPins w) (pinIngresado w) = Some t" and "18 \<le> length t"
  shows "\<exists>w'. mefUpdate w = Fault BufferOverflow w' \<and> motor w' = motor w"
proof -
  have v: "validarPin (listaPins w) (pinIngresado w)" using assms(2) by (rule cred_pin.tag_valida)
  obtain b where b: "display_clear w = Ret () (w\<lparr>buffer := b\<rparr>)" by (simp add: display_clear_def)
  have c: "cabe (length ''ACCESO CONCEDIDO'') 20" by (simp add: cabe_simps)
  obtain w2 where l: "lineas [(''ACCESO CONCEDIDO'', 20)] (w\<lparr>buffer := b\<rparr>) = Ret () w2"
    and w2: "motor w2 = motor w"
    using display_println_Ret [OF c, of "w\<lparr>buffer := b\<rparr>"]
    by (simp add: lineas_def bind_apply motor_def)
  have "mefUpdate w = Fault BufferOverflow w2"
    using assms v
    by (simp add: mefUpdate_def caso_VALIDAR_def pin_correcto_def bind_gets bind_apply [of display_clear] b
      bind_apply [of "lineas _"] l bienvenida_def store_str_def bind_apply [of "bind _ _"] bind_apply [of "fault _"])
  with w2 show ?thesis by blast
qed

theorem tag_largo_desborda_witness:
  "\<exists>w'. mefUpdate ((mef0 [])\<lparr>listaPins := [\<lparr>codigo = ''12345'', activo = True, rfid = [], huella = [],
      tag = ''administrador_sur1''\<rparr>], estadoActual := VALIDAR, pinIngresado := ''12345''\<rparr>) = Fault BufferOverflow w' \<and>
     motor w' = motor0"
proof -
  let ?w = "(mef0 [])\<lparr>listaPins := [\<lparr>codigo = ''12345'', activo = True, rfid = [], huella = [],
      tag = ''administrador_sur1''\<rparr>], estadoActual := VALIDAR, pinIngresado := ''12345''\<rparr>"
  have "motor ?w = motor0" by (simp add: motor_def mef0_def hw0_def)
  then show ?thesis
    using tag_largo_desborda [of ?w "''administrador_sur1''"] by (simp add: es_pin_def)
qed

text \<open>The inactivity time. For times below \<open>2\<^sup>3\<^sup>1\<close> ms \<^verbatim>\<open>tickRead() - ultimaPresencia\<close> is the time
  since the last activity; a last activity at \<open>2\<^sup>3\<^sup>1\<close> ms or later (24.8 days) is read back as a negative
  number, and the difference is beyond the time limit at once.\<close>

lemma tiempo_de_inactividad:
  assumes "u \<le> t" and "t < 2 ^ 32"
  shows "desde_l t (ucast u) = (if u < 2 ^ 31 then t - u else t - u + 2 ^ 32) \<and>
     (2 ^ 31 \<le> u \<longrightarrow> TIMEOUT_MS < desde_l t (ucast u))"
proof -
  have "uint u < 2 ^ 32" using assms by (simp add: word_le_def word_less_def)
  from scast_u32 [OF this]
  have d: "desde_l t (ucast u) = (if u < 2 ^ 31 then t - u else t - u + 2 ^ 32)"
    by (simp add: desde_l_def algebra_simps)
  have s: "unat (t - u) \<le> unat t" using assms(1) by (simp add: unat_sub word_le_nat_alt)
  moreover have "unat t < 2 ^ 32" using assms(2) by (simp add: word_less_nat_alt)
  ultimately have "unat (t - u + 2 ^ 32) = unat (t - u) + 2 ^ 32"
    by (simp add: unat_plus_if_size word_size)
  then have "TIMEOUT_MS < t - u + 2 ^ 32" by (simp add: word_less_nat_alt TIMEOUT_MS_def)
  with d show ?thesis by auto
qed

lemma tiempo_de_inactividad_witness:
  "desde_l 5000 (ucast (1000 :: u64)) = 4000 \<and> TIMEOUT_MS < desde_l 2147483648 (ucast (2147483648 :: u64))"
  using tiempo_de_inactividad [where u = 1000 and t = 5000] tiempo_de_inactividad [where u = 2147483648 and t = 2147483648]
  by (simp add: TIMEOUT_MS_def)

end
