(* ===== verification/Mef_Elige.thy ===== *)
theory Mef_Elige
  imports Mef_Vida
begin

text \<open>
  Choosing the environment. \<open>logra A m B\<close> strengthens \<open>puede\<close> (theory Mef\_Posible)
  by the absence of undefined behaviour: some environment lets \<open>m\<close> return with \<open>B\<close>.
  What the program reads can be chosen: the clock, the level of a pin, a register of the card
  reader, the key that is pressed on the keypad.
\<close>

section \<open>Runs that return\<close>

text \<open>
  \<open>logra A m B\<close>: from a state with \<open>A\<close> some environment lets \<open>m\<close> return, without undefined
  behaviour, with \<open>B\<close>, and what comes after it can still be chosen.
\<close>

definition logra :: "('z hw_scheme \<Rightarrow> bool) \<Rightarrow> ('a, 'z) hwprog \<Rightarrow> ('a \<Rightarrow> 'z hw_scheme \<Rightarrow> bool) \<Rightarrow> bool" where
  "logra A m B \<longleftrightarrow> (\<forall>w K. A w \<and> (\<forall>x w'. B x w' \<longrightarrow> (\<exists>s. K x (w'\<lparr>script := s\<rparr>))) \<longrightarrow>
     (\<exists>s x w'. m (w\<lparr>script := s\<rparr>) = Ret x w' \<and> K x w'))"

text \<open>A condition on the memory, not on what is to come.\<close>

definition presente :: "('z hw_scheme \<Rightarrow> bool) \<Rightarrow> bool" where
  "presente P \<longleftrightarrow> (\<forall>w s. P (w\<lparr>script := s\<rparr>) = P w)"

lemma lograI:
  "(\<And>w K. A w \<Longrightarrow> (\<And>x w'. B x w' \<Longrightarrow> \<exists>s. K x (w'\<lparr>script := s\<rparr>)) \<Longrightarrow>
     \<exists>s x w'. m (w\<lparr>script := s\<rparr>) = Ret x w' \<and> K x w') \<Longrightarrow> logra A m B"
  by (simp add: logra_def)

lemma lograD:
  "logra A m B \<Longrightarrow> A w \<Longrightarrow> (\<And>x w'. B x w' \<Longrightarrow> \<exists>s. K x (w'\<lparr>script := s\<rparr>)) \<Longrightarrow>
     \<exists>s x w'. m (w\<lparr>script := s\<rparr>) = Ret x w' \<and> K x w'"
  by (simp add: logra_def)

lemma logra_bind:
  assumes "logra A m B" and "\<And>x. logra (B x) (f x) C"
  shows "logra A (bind m f) C"
proof (rule lograI)
  fix w K
  assume w: "A w" and K: "\<And>x w'. C x w' \<Longrightarrow> \<exists>s. K x (w'\<lparr>script := s\<rparr>)"
  have "\<exists>s x w'. m (w\<lparr>script := s\<rparr>) = Ret x w' \<and> (\<exists>y v. f x w' = Ret y v \<and> K y v)"
    by (rule lograD [OF assms(1) w]) (rule lograD [OF assms(2) _ K])
  then obtain s x w' y v where "m (w\<lparr>script := s\<rparr>) = Ret x w'" "f x w' = Ret y v" "K y v" by blast
  then have "bind m f (w\<lparr>script := s\<rparr>) = Ret y v \<and> K y v" by (simp add: bind_apply)
  then show "\<exists>s x w'. bind m f (w\<lparr>script := s\<rparr>) = Ret x w' \<and> K x w'" by blast
qed

lemma logra_mono: "logra A m B \<Longrightarrow> (\<And>w. A' w \<Longrightarrow> A w) \<Longrightarrow> (\<And>x w. B x w \<Longrightarrow> B' x w) \<Longrightarrow> logra A' m B'"
  unfolding logra_def by blast

lemma logra_ret: "(\<And>w. A w \<Longrightarrow> B x w) \<Longrightarrow> logra A (ret x) B"
  by (auto simp: logra_def)

lemma logra_gets:
  "(\<And>w s. f (w\<lparr>script := s\<rparr>) = f w) \<Longrightarrow> (\<And>w. A w \<Longrightarrow> B (f w) w) \<Longrightarrow> logra A (gets f) B"
  by (simp add: logra_def)

lemma logra_modify:
  assumes "\<And>w s. f (w\<lparr>script := s\<rparr>) = (f w)\<lparr>script := s\<rparr>" and "\<And>w. A w \<Longrightarrow> B () (f w)"
  shows "logra A (modify f) B"
  using assms by (simp add: logra_def)

lemma logra_If: "(b \<Longrightarrow> logra A m B) \<Longrightarrow> (\<not> b \<Longrightarrow> logra A n B) \<Longrightarrow> logra A (if b then m else n) B"
  by simp

lemma logra_dado: "(P \<Longrightarrow> logra A m B) \<Longrightarrow> logra (\<lambda>w. A w \<and> P) m B"
  unfolding logra_def by blast

lemma logra_lee: "(\<And>u. logra (\<lambda>w. A w \<and> f w = u) m B) \<Longrightarrow> logra A m B"
  unfolding logra_def by blast

text \<open>What holds of every run, in any environment, holds of this one.\<close>

lemma logra_puede:
  assumes "puede A m B" and "\<And>w. A w \<Longrightarrow> P w \<Longrightarrow> sat {} Q (\<lambda>_. True) (m w)"
    and "presente A" and "presente P" and "\<And>x. presente (Q x)"
  shows "logra (\<lambda>w. A w \<and> P w) m (\<lambda>x w. B x w \<and> Q x w)"
  unfolding logra_def
proof (intro allI impI, elim conjE)
  fix w K
  assume w: "A w" "P w" and K: "\<forall>x w'. B x w' \<and> Q x w' \<longrightarrow> (\<exists>s. K x (w'\<lparr>script := s\<rparr>))"
  have "\<exists>s. llega (\<lambda>x w'. Q x w' \<longrightarrow> K x w') (m (w\<lparr>script := s\<rparr>))"
  proof (rule puedeD [OF assms(1) w(1)])
    fix x w'
    assume "B x w'"
    with K show "\<exists>s. Q x (w'\<lparr>script := s\<rparr>) \<longrightarrow> K x (w'\<lparr>script := s\<rparr>)"
      using assms(5) by (cases "Q x w'") (auto simp: presente_def)
  qed
  then obtain s where s: "llega (\<lambda>x w'. Q x w' \<longrightarrow> K x w') (m (w\<lparr>script := s\<rparr>))" ..
  have "A (w\<lparr>script := s\<rparr>)" "P (w\<lparr>script := s\<rparr>)" using w assms(3,4) by (simp_all add: presente_def)
  from assms(2) [OF this] s show "\<exists>s x w'. m (w\<lparr>script := s\<rparr>) = Ret x w' \<and> K x w'"
    by (intro exI [of _ s]) (cases "m (w\<lparr>script := s\<rparr>)", auto simp: llega_def)
qed

lemma logra_sat:
  assumes "logra A m B" and "\<And>w. A w \<Longrightarrow> P w \<Longrightarrow> sat E Q (\<lambda>_. True) (m w)"
    and "presente A" and "presente P" and "\<And>x. presente (Q x)"
  shows "logra (\<lambda>w. A w \<and> P w) m (\<lambda>x w. B x w \<and> Q x w)"
  unfolding logra_def
proof (intro allI impI, elim conjE)
  fix w K
  assume w: "A w" "P w" and K: "\<forall>x w'. B x w' \<and> Q x w' \<longrightarrow> (\<exists>s. K x (w'\<lparr>script := s\<rparr>))"
  have "\<exists>s x w'. m (w\<lparr>script := s\<rparr>) = Ret x w' \<and> (Q x w' \<longrightarrow> K x w')"
    by (rule lograD [OF assms(1) w(1)]) (use K assms(5) in \<open>unfold presente_def, blast\<close>)
  then obtain s x w' where s: "m (w\<lparr>script := s\<rparr>) = Ret x w'" "Q x w' \<longrightarrow> K x w'" by blast
  have "A (w\<lparr>script := s\<rparr>)" "P (w\<lparr>script := s\<rparr>)" using w assms(3,4) by (simp_all add: presente_def)
  from assms(2) [OF this] s show "\<exists>s x w'. m (w\<lparr>script := s\<rparr>) = Ret x w' \<and> K x w'" by auto
qed

lemma presente_con_bytes: "presente (con_bytes bs)"
  by (simp add: presente_def con_bytes_def)

lemma logra_marco:
  assumes "calla m" and "safe {} m" and "respeta r m" and "\<And>w w'. r w w' \<Longrightarrow> P w \<Longrightarrow> P w'" and "presente P"
  shows "logra (\<lambda>w. vivo w \<and> P w) m (\<lambda>_ w. vivo w \<and> P w)"
proof (rule logra_puede)
  show "puede vivo m (\<lambda>_. vivo)" using assms(1) by (simp add: calla_def)
  show "sat {} (\<lambda>_. P) (\<lambda>_. True) (m w)" if "P w" for w
    by (rule sat_weaken [OF sat_safe_within [OF assms(2,3)]]) (use assms(4) that in auto)
qed (use assms(5) presente_con_bytes in auto)

section \<open>The environment chooses\<close>

text \<open>A moment: events that keep the clock running and the FIFO of the module empty.\<close>

lemma puede_elegir:
  assumes "\<And>w. vivo w \<Longrightarrow> vivo (apply_ev e w) \<and> Q (apply_ev e w)"
  shows "puede vivo poll (\<lambda>_ w. vivo w \<and> Q w)"
proof (rule puede_poll)
  fix w :: "'a hw_scheme"
  assume "vivo w"
  with assms show "\<exists>evs. vivo (fold apply_ev evs w) \<and> Q (fold apply_ev evs w)" by (intro exI [of _ "[e]"]) simp
qed

lemma puede_gpioRead:
  assumes "pin_valido p" and "p \<noteq> VCC" and "p \<noteq> GND"
  shows "puede vivo (gpioRead p) (\<lambda>v w. vivo w \<and> v = b)"
proof -
  have w: "puede vivo poll (\<lambda>_ w. vivo w \<and> wire w = (\<lambda>_ _. b))"
    by (rule puede_elegir [of "Wire (\<lambda>_ _. b)"]) (simp add: con_bytes_def)
  from assms(1) show ?thesis
    by (rule pin_valido_cases)
      (use assms(2,3) in \<open>auto simp: gpioRead_def Chip_GPIO_GetPinState_def intro!: puede_bind [OF w] puede_gets split: prod.split\<close>)
qed

lemma puede_spi_read: "puede vivo (spi_read 1) (\<lambda>v w. vivo w \<and> v = Some [b])"
proof -
  have w: "puede vivo poll (\<lambda>_ w. vivo w \<and> miso w = b)"
    by (rule puede_elegir [of "Miso b"]) (simp add: con_bytes_def)
  have c: "puede vivo (spi_clock_in 1) (\<lambda>v w. vivo w \<and> v = [b])"
    unfolding One_nat_def spi_clock_in.simps bind_assoc
    by (rule puede_bind [OF w], rule puede_bind [OF puede_gets [where B = "\<lambda>r w. vivo w \<and> r = b"]])
      (auto intro!: puede_dado puede_ret)
  show ?thesis
    unfolding spi_read_def spiRead_def RC522_SPI_def
    by (simp only: simp_thms if_True, rule puede_bind [OF c]) (auto intro!: puede_dado puede_ret)
qed

lemma calla_cs: "calla rc522_cs_low" "calla rc522_cs_high" "calla (spi_write bs)"
  unfolding rc522_cs_low_def rc522_cs_high_def spi_write_def
  by (intro calla_rules calla_gpioInit calla_spi)+

text \<open>A register of the card reader reads as the environment wants.\<close>

lemma puede_read_reg: "puede vivo (rc522_read_reg r) (\<lambda>v w. vivo w \<and> v = b)"
  unfolding rc522_read_reg_def Let_def
  by (intro calla_puede [OF calla_cs(1)] calla_puede [OF calla_cs(3)], rule puede_bind [OF puede_spi_read])
    (auto intro!: puede_dado calla_puede [OF calla_cs(2)] puede_ret)

lemma calla_reg: "calla (rc522_read_reg r)" "calla (rc522_write_reg r v)"
proof -
  show "calla (rc522_read_reg r)" unfolding calla_def by (rule puede_mono [OF puede_read_reg [of _ 0]]) auto
  show "calla (rc522_write_reg r v)" unfolding rc522_write_reg_def Let_def
    by (intro calla_block) (auto intro: calla_cs)
qed

text \<open>No card is near: the reader reports an error after 50 ms.\<close>

lemma calla_transceive_wait: "calla transceive_wait"
  unfolding transceive_wait_def
proof (rule calla_bind [OF calla_basic(5)], rule calla_loop_fin [OF consumes_read_wait])
  fix t0 :: u64
  show "puede vivo (bind tickRead (\<lambda>t. if t - t0 < 50 then
         bind (rc522_read_reg CommIrqReg) (\<lambda>irq.
         if irq AND 0x30 \<noteq> 0 then ret (Inr ())
         else bind (rc522_read_reg DivIrqReg) (\<lambda>d. ret (if d AND 0x01 \<noteq> 0 then Inr () else Inl ())))
       else ret (Inr ()))) (\<lambda>r w. \<exists>z. vivo w \<and> r = Inr z)"
    by (rule puede_bind [OF puede_tickRead [of _ "t0 + 50"]]) (auto intro!: puede_dado puede_ret)
qed

lemma calla_transceive: "calla (block [
       rc522_write_reg CommandReg PCD_Idle,
       rc522_write_reg CommIrqReg 0x7F,
       rc522_write_reg FIFOLevelReg 0x80,
       for_each bs (rc522_write_reg FIFODataReg),
       rc522_write_reg CommandReg PCD_Transceive,
       rc522_set_bits BitFramingReg 0x80,
       transceive_wait,
       rc522_clr_bits BitFramingReg 0x80])"
  unfolding rc522_set_bits_def rc522_clr_bits_def
  by (intro calla_block) (auto intro!: calla_rules calla_reg calla_transceive_wait)

section \<open>The keypad\<close>

lemma puede_for_find:
  assumes "\<And>x. x \<in> set xs \<Longrightarrow> puede vivo (body x) (\<lambda>r w. vivo w \<and> r = None)" and "puede vivo (body y) (\<lambda>r w. vivo w \<and> r = v)" and "v \<noteq> None"
  shows "puede vivo (for_find (xs @ y # ys) body) (\<lambda>r w. vivo w \<and> r = v)"
  using assms(1)
proof (induction xs)
  case Nil
  show ?case
    using assms(2,3) by (auto intro!: puede_bind [OF assms(2)] puede_dado puede_ret)
next
  case (Cons x xs)
  then show ?case
    by (auto intro!: puede_bind [OF Cons.prems] puede_dado)
qed

lemma puede_for_find_None:
  assumes "\<And>x. x \<in> set xs \<Longrightarrow> puede vivo (body x) (\<lambda>r w. vivo w \<and> r = None)"
  shows "puede vivo (for_find xs body) (\<lambda>r w. vivo w \<and> r = None)"
  using assms
proof (induction xs)
  case Nil
  then show ?case by (auto intro!: puede_ret)
next
  case (Cons x xs)
  then show ?case by (auto intro!: puede_bind [OF Cons.prems] puede_dado)
qed

lemma puede_columna:
  assumes "c < 3"
  shows "puede vivo (gpioRead (keypadColPins teclado_k ! c)) (\<lambda>v w. vivo w \<and> v = b)"
proof (rule puede_gpioRead)
  have "c \<in> {0, 1, 2}" using assms by auto
  then show "pin_valido (keypadColPins teclado_k ! c)" "keypadColPins teclado_k ! c \<noteq> VCC" "keypadColPins teclado_k ! c \<noteq> GND"
    by (auto simp: teclado_k_def colPins_def pin_valido_def gpio_map_defs VCC_def GND_def)
qed

lemma calla_filas: "calla (for_each ps (\<lambda>p. void (gpioWrite p v)))"
  by (intro calla_rules calla_gpioInit)

lemma puede_fila:
  assumes "c < 3"
  shows "puede vivo (bind (if 0 < r then gpioWrite (keypadRowPins teclado_k ! (r - 1)) True else ret True) (\<lambda>_.
       bind (gpioWrite (keypadRowPins teclado_k ! r) False) (\<lambda>_.
       bind (gpioRead (keypadColPins teclado_k ! c)) (\<lambda>level. ret (if level then None else Some i)))))
     (\<lambda>v w. vivo w \<and> v = (if b then None else Some i))"
  by (intro calla_puede [OF calla_If] calla_puede [OF calla_gpioInit(2)] puede_bind [OF puede_columna [OF assms, of b]])
    (auto intro!: calla_rules calla_gpioInit puede_dado puede_ret)

lemma upt_corte: "i < n \<Longrightarrow> [0..<n] = [0..<i] @ i # [Suc i..<n]"
  by (metis le0 less_imp_le_nat upt_add_eq_append upt_conv_Cons le_add_diff_inverse)

text \<open>The environment can press any key, or none.\<close>

lemma puede_tecla:
  assumes "r < 4" and "c < 3"
  shows "puede vivo (keypadRead teclado_k) (\<lambda>v w. vivo w \<and> v = Some (of_nat r * of_nat 3 + of_nat c))"
proof -
  have l: "length (keypadColPins teclado_k) = 3" "length (keypadRowPins teclado_k) = 4"
    by (simp_all add: teclado_k_def colPins_def rowPins_def)
  have rows: "puede vivo (keypad_rows teclado_k c) (\<lambda>v w. vivo w \<and> v = Some (of_nat r * of_nat 3 + of_nat c))"
    unfolding keypad_rows_def l upt_corte [OF assms(1)]
    by (rule puede_for_find, rule puede_fila [OF assms(2), of _ _ True, unfolded if_True],
        rule puede_fila [OF assms(2), of _ _ False, unfolded if_False], simp)
  show ?thesis
    unfolding keypadRead_def l upt_corte [OF assms(2)]
  proof (rule calla_puede [OF calla_filas], rule puede_for_find)
    fix x assume "x \<in> set [0..<c]"
    with assms have "x < 3" by simp
    then show "puede vivo (bind (gpioRead (keypadColPins teclado_k ! x)) (\<lambda>level. if level then ret None else
         bind (delay 50) (\<lambda>_. bind (for_each (tl (keypadRowPins teclado_k)) (\<lambda>p. void (gpioWrite p True))) (\<lambda>_.
         keypad_rows teclado_k x)))) (\<lambda>r w. vivo w \<and> r = None)"
      by (rule puede_bind [OF puede_columna [of _ True]]) (auto intro!: puede_dado puede_ret puede_False)
  next
    show "puede vivo (bind (gpioRead (keypadColPins teclado_k ! c)) (\<lambda>level. if level then ret None else
         bind (delay 50) (\<lambda>_. bind (for_each (tl (keypadRowPins teclado_k)) (\<lambda>p. void (gpioWrite p True))) (\<lambda>_.
         keypad_rows teclado_k c)))) (\<lambda>v w. vivo w \<and> v = Some (of_nat r * of_nat 3 + of_nat c))"
      by (rule puede_bind [OF puede_columna [OF assms(2), of False]], rule puede_dado)
        (auto intro!: calla_puede [OF calla_basic(7)] calla_puede [OF calla_filas] rows [simplified])
  qed simp
qed

lemma puede_sin_tecla: "puede vivo (keypadRead teclado_k) (\<lambda>v w. vivo w \<and> v = None)"
  unfolding keypadRead_def
  by (rule calla_puede [OF calla_filas], rule puede_for_find_None, rule puede_bind [OF puede_columna [of _ True]])
    (auto intro!: puede_dado puede_ret puede_False simp: teclado_k_def colPins_def)

text \<open>The key of a digit.\<close>

lemma tecla_digito:
  assumes "is_digit d"
  obtains r c where "r < 4" and "c < 3" and "tecla (of_nat r * of_nat 3 + of_nat c) = d"
    and "indice_valido teclado_k (of_nat r * of_nat 3 + of_nat c)"
proof -
  let ?n = "of_char d :: nat"
  have "?n \<in> {48, 49, 50, 51, 52, 53, 54, 55, 56, 57}" using assms by (simp add: is_digit_def) presburger
  moreover have "d = char_of ?n" by simp
  ultimately have "d \<in> set ''0123456789''" by (auto simp: char_of_def bit_0)
  then show thesis
    using that [of 3 1] that [of 0 0] that [of 0 1] that [of 0 2] that [of 1 0] that [of 1 1] that [of 1 2]
      that [of 2 0] that [of 2 1] that [of 2 2]
    by (auto simp: tecla_def keypadMap_def indice_valido_def teclado_k_def rowPins_def colPins_def)
qed

end
