(* ===== verification/Mef_Apertura.thy ===== *)
theory Mef_Apertura
  imports Mef_Elige
begin

text \<open>
  The lock can be used. The safety properties would also hold of a lock that never
  opens; here a user types a PIN: rounds of the waiting machine in which the
  environment presses the keys, the round that opens and the round that closes
  are put together, from any waiting state and from power-up.
\<close>

section \<open>What a round of the waiting machine leaves alone\<close>

text \<open>The variables that decide what the machine does next, beside those of the keypad.\<close>

definition datos_frame :: "'z mef_scheme \<Rightarrow> 'z mef_scheme \<Rightarrow> bool" where
  "datos_frame w w' \<longleftrightarrow> estadoActual w' = estadoActual w \<and> listaPins w' = listaPins w \<and>
     escaneoActivo w' = escaneoActivo w \<and> agendaHuella w' = agendaHuella w \<and>
     ultimaPresencia w' = ultimaPresencia w \<and> pinIngresado w' = pinIngresado w"

lemma env_frame_datos: "env_frame w w' \<Longrightarrow> datos_frame w w'"
  unfolding env_frame_def datos_frame_def by (cases w, cases w') simp

interpretation df: tecl_stable datos_frame UNIV UNIV
  by unfold_locales (simp_all add: within_poll_frame env_frame_datos, simp_all add: datos_frame_def)

definition mismo :: "'z mef_scheme \<Rightarrow> 'z mef_scheme \<Rightarrow> bool" where
  "mismo w w' \<longleftrightarrow> tecl_frame w w' \<and> datos_frame w w'"

interpretation mi: disp_stable mismo UNIV UNIV
  by unfold_locales (simp_all add: within_poll_frame env_frame_datos env_frame_tecl mismo_def,
      simp_all add: datos_frame_def tecl_frame_def)

interpretation mi: rc522_stable mismo UNIV UNIV
  by unfold_locales simp

text \<open>Conditions that only these variables decide.\<close>

definition fijo :: "('z mef_scheme \<Rightarrow> bool) \<Rightarrow> bool" where
  "fijo P \<longleftrightarrow> presente P \<and> (\<forall>w w'. mismo w w' \<and> P w \<longrightarrow> P w')"

lemma fijo_presente: "fijo P \<Longrightarrow> presente P"
  by (simp add: fijo_def)

lemma logra_fijo:
  assumes "calla m" and "safe {} m" and "respeta mismo m" and "fijo P"
  shows "logra (\<lambda>w. vivo w \<and> P w) m (\<lambda>_ w. vivo w \<and> P w)"
  by (rule logra_marco [OF assms(1-3)]) (use assms(4) in \<open>auto simp: fijo_def\<close>)

lemma logra_fijo_bind:
  assumes "calla m" and "safe {} m" and "respeta mismo m" and "fijo P"
    and "\<And>x. logra (\<lambda>w. vivo w \<and> P w) (f x) C"
  shows "logra (\<lambda>w. vivo w \<and> P w) (bind m f) C"
  by (rule logra_bind [OF logra_fijo [OF assms(1-4)] assms(5)])

lemma logra_elige:
  assumes "puede vivo m (\<lambda>r w. vivo w \<and> r = v)" and "safe {} m" and "respeta mismo m" and "fijo P"
  shows "logra (\<lambda>w. vivo w \<and> P w) m (\<lambda>r w. (vivo w \<and> P w) \<and> r = v)"
proof (rule logra_mono [OF logra_puede [OF assms(1)]])
  show "sat {} (\<lambda>_. P) (\<lambda>_. True) (m w)" if "P w" for w
    by (rule sat_weaken [OF sat_safe_within [OF assms(2,3)]]) (use assms(4) that in \<open>auto simp: fijo_def\<close>)
qed (use assms(4) presente_con_bytes in \<open>auto simp: fijo_def\<close>)

lemma logra_elige_bind:
  assumes "puede vivo m (\<lambda>r w. vivo w \<and> r = v)" and "safe {} m" and "respeta mismo m" and "fijo P"
    and "logra (\<lambda>w. vivo w \<and> P w) (f v) C"
  shows "logra (\<lambda>w. vivo w \<and> P w) (bind m f) C"
  by (rule logra_bind [OF logra_elige [OF assms(1-4)]], rule logra_dado) (use assms(5) in simp)

lemma logra_tickRead:
  "fijo P \<Longrightarrow> logra (\<lambda>w. vivo w \<and> P w) (f v) C \<Longrightarrow> logra (\<lambda>w. vivo w \<and> P w) (bind tickRead f) C"
  by (rule logra_elige_bind [OF puede_tickRead safe_tickRead mi.within_tickRead])

lemma logra_lee_gets:
  assumes "\<And>w s. g (w\<lparr>script := s\<rparr>) = g w" and "\<And>w. A w \<Longrightarrow> g w = v" and "logra A (f v) C"
  shows "logra A (bind (gets g) f) C"
proof (rule logra_bind)
  show "logra A (gets g) (\<lambda>r w. A w \<and> r = v)" by (rule logra_gets) (use assms in auto)
qed (use assms(3) in \<open>auto intro: logra_dado\<close>)

section \<open>A round without a card\<close>

lemma safe_transceive: "safe E (block [
       rc522_write_reg CommandReg PCD_Idle,
       rc522_write_reg CommIrqReg 0x7F,
       rc522_write_reg FIFOLevelReg 0x80,
       for_each bs (rc522_write_reg FIFODataReg),
       rc522_write_reg CommandReg PCD_Transceive,
       rc522_set_bits BitFramingReg 0x80,
       transceive_wait,
       rc522_clr_bits BitFramingReg 0x80])"
  unfolding rc522_set_bits_def rc522_clr_bits_def
  by (intro keeps_block) (auto intro!: keeps_rules safe_write_reg safe_read_reg safe_transceive_wait)

lemma logra_transceive:
  assumes "fijo P" and "logra (\<lambda>w. vivo w \<and> P w) (f (False, [], 0)) C"
  shows "logra (\<lambda>w. vivo w \<and> P w) (bind (transceive bs n) f) C"
  unfolding transceive_def bind_assoc
  by (rule logra_fijo_bind [OF calla_transceive safe_transceive], intro mi.within_block)
    (auto intro!: mi.within_write_reg mi.within_set_clr mi.within_transceive_wait mi.within_for_each assms
     logra_elige_bind [OF puede_read_reg [of _ 1] safe_read_reg mi.within_read_reg])

lemma logra_sin_tarjeta:
  assumes "fijo P" and "logra (\<lambda>w. vivo w \<and> P w) (f None) C"
  shows "logra (\<lambda>w. vivo w \<and> P w) (bind (leer_rfid_str n) f) C"
proof -
  have w: "logra (\<lambda>w. vivo w \<and> P w) (m ()) C' \<Longrightarrow> logra (\<lambda>w. vivo w \<and> P w) (bind (rc522_write_reg r v) m) C'" for r v m C'
    by (rule logra_fijo_bind [OF calla_reg(2) safe_write_reg mi.within_write_reg assms(1)]) simp
  show ?thesis
    unfolding leer_rfid_str_def rc522_requestA_def bind_assoc
    by (rule w, rule w, rule logra_transceive [OF assms(1)], simp add: bind_assoc, rule w) (use assms(2) in simp)
qed

text \<open>The machine waits, \<open>ds\<close> has been typed; with \<open>suelta\<close>, no key is down.\<close>

definition en_espera :: "string \<Rightarrow> tabla \<Rightarrow> bool \<Rightarrow> 'z mef_scheme \<Rightarrow> bool" where
  "en_espera ds us suelta w \<longleftrightarrow> teclado_inv w \<and> digitos w = ds \<and> (suelta \<longrightarrow> \<not> keyHeld w) \<and>
     listaPins w = us \<and> \<not> escaneoActivo w \<and> estadoActual w = ESPERANDO_ACCION"

lemma fijo_en_espera:
  "fijo (en_espera ds us s)" "fijo (\<lambda>w. en_espera ds us s w \<and> ultimaPresencia w = u)"
  "fijo (\<lambda>w. en_espera ds us s w \<and> agendaHuella w = u)"
  using teclado_inv_frame
  by (fastforce simp: fijo_def presente_def en_espera_def mismo_def datos_frame_def tecl_frame_def
      teclado_inv_def digitos_def)+

lemma escalado: "desde_l (scast u) u = 0"
  by (simp add: desde_l_def)

lemma logra_programar:
  "logra (\<lambda>w. vivo w \<and> en_espera ds us s w) programar_escaneo (\<lambda>_ w. vivo w \<and> en_espera ds us s w)"
proof (rule logra_lee [where f = agendaHuella])
  fix u
  let ?A = "\<lambda>w. vivo w \<and> en_espera ds us s w \<and> agendaHuella w = u"
  have "logra ?A programar_escaneo (\<lambda>_ w. vivo w \<and> en_espera ds us s w)"
    unfolding programar_escaneo_def
    by (rule logra_lee_gets [where v = False], simp, simp add: en_espera_def, simp only: if_False bind_assoc,
        rule logra_tickRead [OF fijo_en_espera(3), where v = "scast u"],
        rule logra_lee_gets [where v = u], simp, simp,
        simp add: escalado INTERVALO_HUELLA_MS_def,
        rule logra_lee_gets [where v = False], simp, simp add: en_espera_def)
      (auto intro: logra_ret)
  then show "logra (\<lambda>w. (vivo w \<and> en_espera ds us s w) \<and> agendaHuella w = u) programar_escaneo
      (\<lambda>_ w. vivo w \<and> en_espera ds us s w)" by (rule logra_mono) auto
qed

lemma logra_fin_ronda:
  "logra (\<lambda>w. vivo w \<and> en_espera ds us s w) (bind tickRead (\<lambda>t. bind (gets ultimaPresencia) (\<lambda>u.
       if desde_l t u > TIMEOUT_MS then ir REPOSO else esperar_sensores))) (\<lambda>_ w. vivo w \<and> en_espera ds us s w)"
proof (rule logra_lee [where f = ultimaPresencia])
  fix u
  let ?m = "bind tickRead (\<lambda>t. bind (gets ultimaPresencia) (\<lambda>u.
       if desde_l t u > TIMEOUT_MS then ir REPOSO else esperar_sensores)) :: (unit, 'b) mprog"
  have e: "logra (\<lambda>w. vivo w \<and> en_espera ds us s w) esperar_sensores (\<lambda>_ w. vivo w \<and> en_espera ds us s w)"
    unfolding esperar_sensores_def
    by (rule logra_sin_tarjeta [OF fijo_en_espera(1)]) (simp add: logra_programar)
  have "logra (\<lambda>w. vivo w \<and> en_espera ds us s w \<and> ultimaPresencia w = u) ?m (\<lambda>_ w. vivo w \<and> en_espera ds us s w)"
    by (rule logra_tickRead [OF fijo_en_espera(2), where v = "scast u"],
        rule logra_lee_gets [where v = u], simp, simp, simp add: escalado, rule logra_mono [OF e]) auto
  then show "logra (\<lambda>w. (vivo w \<and> en_espera ds us s w) \<and> ultimaPresencia w = u) ?m
      (\<lambda>_ w. vivo w \<and> en_espera ds us s w)" by (rule logra_mono) auto
qed

lemma mi_tick32: "respeta mismo tick32"
  unfolding tick32_def by (intro mi.within_bind mi.within_tickRead mi.within_ret)

lemma logra_marcar:
  assumes "fijo P" and "\<And>w u. P (w\<lparr>ultimaPresencia := u\<rparr>) = P w"
  shows "logra (\<lambda>w. vivo w \<and> P w) marcar (\<lambda>_ w. vivo w \<and> P w)"
  unfolding marcar_def
  by (rule logra_fijo_bind [OF calla_basic(6) safe_tick32 mi_tick32 assms(1)], rule logra_modify)
    (simp_all add: assms(2) con_bytes_def)

text \<open>What comes before the keypad is read.\<close>

lemma en_espera_presencia: "en_espera ds us s (w\<lparr>ultimaPresencia := u\<rparr>) = en_espera ds us s w"
  by (simp add: en_espera_def teclado_inv_def digitos_def)

lemma logra_cabecera:
  assumes "logra (\<lambda>w. vivo w \<and> en_espera ds us s w) (f ()) C"
  shows "logra (\<lambda>w. vivo w \<and> en_espera ds us s w) (bind (gets eventoPresencia) (\<lambda>e.
     bind (if e then block [modify (\<lambda>w. w\<lparr>eventoPresencia := False\<rparr>), marcar] else ret ()) (\<lambda>_.
     bind (block [lineas [(''SISTEMA DE ACCESO'', 0), (''INGRESE PIN:'', 18)], display_update]) f))) C"
    (is "logra ?A _ C")
proof -
  have m: "logra ?A (if e then block [modify (\<lambda>w. w\<lparr>eventoPresencia := False\<rparr>), marcar] else ret ()) (\<lambda>_. ?A)" for e
    unfolding block.simps
    by (intro logra_If logra_bind [where B = "\<lambda>_. ?A"] logra_modify logra_marcar fijo_en_espera logra_ret)
      (auto simp: con_bytes_def en_espera_def teclado_inv_def digitos_def)
  have c: "calla (block [lineas ls, display_update] :: (unit, 'c) mprog)" for ls
    unfolding lineas_def by (intro calla_block) (auto intro!: calla_rules calla_disp)
  have s: "safe {} (block [lineas [(''SISTEMA DE ACCESO'', 0), (''INGRESE PIN:'', 18)], display_update])"
    unfolding lineas_def by (intro keeps_block) (auto intro!: keeps_rules safe_display_println safe_disp simp: cabe_simps)
  have r: "respeta mismo (block [lineas ls, display_update] :: (unit, 'c) mprog)" for ls
    unfolding lineas_def by (intro mi.within_block) (auto intro!: mi.disp_rules)
  have k: "logra ?A (bind (block [lineas [(''SISTEMA DE ACCESO'', 0), (''INGRESE PIN:'', 18)], display_update]) f) C"
    by (rule logra_fijo_bind [OF c s r fijo_en_espera(1)]) (use assms in simp)
  show ?thesis
    by (rule logra_bind [where B = "\<lambda>_. ?A"], rule logra_gets, simp, simp, rule logra_bind [OF m]) (rule k)
qed

section \<open>A round with the keypad\<close>

lemma mi_keypadRead: "respeta mismo (keypadRead k)"
  by (rule mi.within_keypadRead) simp

lemma safe_keypadRead: "safe E (keypadRead teclado_k)"
  by (rule keepsI, rule sat_weaken [OF keypadRead_indice [OF teclado_k_valido]]) auto

lemma en_espera_keypad: "vivo w \<and> en_espera ds us s w \<Longrightarrow> keypad w = teclado_k"
  by (simp add: en_espera_def teclado_inv_def)

text \<open>No key is pressed.\<close>

lemma logra_suelta:
  "logra (\<lambda>w. vivo w \<and> en_espera ds us s w) (tecladoLeerPin pin act)
     (\<lambda>r w. (vivo w \<and> en_espera ds us True w) \<and> r = (0, pin, act))"
  unfolding tecladoLeerPin_def
  by (rule logra_lee_gets [OF _ en_espera_keypad], simp, assumption,
      rule logra_elige_bind [OF puede_sin_tecla safe_keypadRead mi_keypadRead fijo_en_espera(1)], simp only: option.case,
      rule logra_bind [where B = "\<lambda>_ w. vivo w \<and> en_espera ds us True w"], rule logra_modify)
    (auto intro!: logra_ret simp: con_bytes_def en_espera_def inv_held)

text \<open>A digit is pressed.\<close>

lemma calla_procesar: "calla (procesar_tecla pin c)"
  unfolding procesar_tecla_def acumular_def completar_def tecladoReset_def
  by (intro calla_rules calla_gets calla_block calla_disp calla_modify)
    (auto intro!: calla_disp calla_modify simp: con_bytes_def)

lemma logra_procesar:
  assumes "length ds < PIN_LENGTH" and "list_all is_digit ds"
  shows "logra (\<lambda>w. vivo w \<and> guarda ds w \<and> listaPins w = us \<and> \<not> escaneoActivo w \<and> estadoActual w = ESPERANDO_ACCION)
     (procesar_tecla pin c) (\<lambda>r w. vivo w \<and> refina pin ds c r w \<and> listaPins w = us \<and> \<not> escaneoActivo w \<and>
       estadoActual w = ESPERANDO_ACCION)"
proof (rule logra_mono [OF logra_puede [OF calla_procesar [unfolded calla_def]]])
  let ?D = "\<lambda>w. listaPins w = us \<and> \<not> escaneoActivo w \<and> estadoActual w = ESPERANDO_ACCION"
  have d: "respeta datos_frame (procesar_tecla pin c)"
    unfolding procesar_tecla_def completar_def
    by (intro df.within_bind within_splits df.disp_rules df.within_acumular df.within_limpiar df.within_tecladoReset)
  show "sat {} (\<lambda>r w'. refina pin ds c r w' \<and> ?D w') (\<lambda>_. True) (procesar_tecla pin c w)"
    if "guarda ds w \<and> ?D w" for w
    using procesar_tecla_sat [of ds w "{}" pin c] withinD [OF d, of w] that assms
    by (cases "procesar_tecla pin c w") (auto simp: datos_frame_def)
  show "presente (\<lambda>w. guarda ds w \<and> ?D w)" by (simp add: presente_def guarda_def)
  show "presente (\<lambda>w. refina pin ds c x w \<and> ?D w)" for x
    by (cases x) (simp add: presente_def refina_def teclado_inv_def digitos_def)
qed (auto simp: presente_con_bytes)

lemma logra_pulsa:
  assumes "is_digit d"
  shows "logra (\<lambda>w. vivo w \<and> en_espera ds us True w) (tecladoLeerPin pin act) (\<lambda>r w. vivo w \<and> refina pin ds d r w \<and>
     listaPins w = us \<and> \<not> escaneoActivo w \<and> estadoActual w = ESPERANDO_ACCION)"
proof -
  obtain f c where i: "f < 4" "c < 3" "tecla (of_nat f * of_nat 3 + of_nat c) = d"
    "indice_valido teclado_k (of_nat f * of_nat 3 + of_nat c)" using tecla_digito [OF assms] .
  let ?i = "of_nat f * of_nat 3 + of_nat c :: u16"
  let ?C = "\<lambda>r w. vivo w \<and> refina pin ds d r w \<and> listaPins w = us \<and> \<not> escaneoActivo w \<and> estadoActual w = ESPERANDO_ACCION"
  have t: "tecla_de ?i = ret d" using tecla_de_ok [OF i(4)] i(3) by (intro ext) simp
  show ?thesis
  proof (cases "length ds < PIN_LENGTH \<and> list_all is_digit ds")
    case True
    have m: "logra (\<lambda>w. vivo w \<and> en_espera ds us True w) (modify (\<lambda>w. w\<lparr>keyHeld := True, lastIndex := ?i\<rparr>))
       (\<lambda>_ w. vivo w \<and> guarda ds w \<and> listaPins w = us \<and> \<not> escaneoActivo w \<and> estadoActual w = ESPERANDO_ACCION)"
      by (rule logra_modify) (auto simp: con_bytes_def en_espera_def guarda_held dest: guarda_inv(1))
    show ?thesis
      unfolding tecladoLeerPin_def
      by (rule logra_lee_gets [OF _ en_espera_keypad], simp, assumption,
          rule logra_elige_bind [OF puede_tecla [OF i(1,2)] safe_keypadRead mi_keypadRead fijo_en_espera(1)],
          simp only: option.case, rule logra_lee_gets [where v = True], simp, simp add: en_espera_def,
          simp only: if_True, rule logra_bind [OF m], simp only: t bind_ret,
          rule logra_procesar [OF True [THEN conjunct1] True [THEN conjunct2]])
  next
    case False
    have "\<not> (vivo w \<and> en_espera ds us True w)" for w :: "'b mef_scheme"
      using False inv_digitos [of w] by (auto simp: en_espera_def)
    then show ?thesis unfolding logra_def by blast
  qed
qed

text \<open>The same for \<^verbatim>\<open>leer_pin\<close> of the machine: the PIN and the time are written back.\<close>

lemma logra_leer_pin:
  assumes "\<And>pin act. logra A (tecladoLeerPin pin act) (B pin act)"
    and "\<And>p0 a0 res pin act w. B p0 a0 (res, pin, act) w \<Longrightarrow> C res (w\<lparr>pinIngresado := pin, ultimaPresencia := act\<rparr>)"
  shows "logra A leer_pin_mef C"
  unfolding leer_pin_mef_def
proof (rule logra_bind [OF logra_gets [where B = "\<lambda>_. A"]], simp, assumption,
    rule logra_bind [OF logra_gets [where B = "\<lambda>_. A"]], simp, assumption, rule logra_bind [OF assms(1)], goal_cases)
  case (1 pin act x)
  obtain res pin' act' where x: "x = (res, pin', act')" by (cases x) auto
  show ?case
    unfolding x prod.case by (rule logra_bind [where B = "\<lambda>_. C res"], rule logra_modify) (auto intro: assms(2) logra_ret)
qed

lemma en_espera_pin: "en_espera ds us s (w\<lparr>pinIngresado := p, ultimaPresencia := u\<rparr>) = en_espera ds us s w"
    "teclado_inv (w\<lparr>pinIngresado := p, ultimaPresencia := u\<rparr>) = teclado_inv w"
    "digitos (w\<lparr>pinIngresado := p, ultimaPresencia := u\<rparr>) = digitos w"
  by (simp_all add: en_espera_def teclado_inv_def digitos_def)

lemma vivo_pin: "vivo (w\<lparr>pinIngresado := p, ultimaPresencia := u\<rparr>) = vivo w"
  by (simp add: con_bytes_def)

lemma logra_sigue:
  assumes "logra (\<lambda>w. vivo w \<and> en_espera ds us s w) (leer_pin_mef :: (int, 'z) mprog) (\<lambda>r w. (vivo w \<and> en_espera ds' us s' w) \<and> r = 0)"
  shows "logra (\<lambda>w. vivo w \<and> en_espera ds us s w) (caso_ESPERANDO_ACCION :: (unit, 'z) mprog)
     (\<lambda>_ w. vivo w \<and> en_espera ds' us s' w)"
  unfolding caso_ESPERANDO_ACCION_def
  by (rule logra_cabecera, rule logra_bind [OF assms], rule logra_dado) (simp add: logra_fin_ronda)

lemma ronda_suelta:
  "logra (\<lambda>w. vivo w \<and> en_espera ds us s w) caso_ESPERANDO_ACCION (\<lambda>_ w. vivo w \<and> en_espera ds us True w)"
  by (rule logra_sigue, rule logra_leer_pin [OF logra_suelta]) (auto simp: en_espera_pin vivo_pin)

lemma refina_digito:
  assumes "refina pin ds d (res, pin', act) w" and "is_digit d"
  shows "length ds + 1 < PIN_LENGTH \<Longrightarrow> res = 0 \<and> teclado_inv w \<and> digitos w = ds @ [d]"
    and "length ds + 1 = PIN_LENGTH \<Longrightarrow> res = 1 \<and> pin' = ds @ [d]"
proof -
  have "d \<noteq> CHR ''*''" using assms(2) by (auto simp: is_digit_def)
  with assms show "length ds + 1 < PIN_LENGTH \<Longrightarrow> res = 0 \<and> teclado_inv w \<and> digitos w = ds @ [d]"
    and "length ds + 1 = PIN_LENGTH \<Longrightarrow> res = 1 \<and> pin' = ds @ [d]"
    by (auto simp: refina_def entrada_def evento_de_def split: if_splits)
qed

lemma ronda_digito:
  assumes "is_digit d" and "length ds + 1 < PIN_LENGTH"
  shows "logra (\<lambda>w. vivo w \<and> en_espera ds us True w) caso_ESPERANDO_ACCION (\<lambda>_ w. vivo w \<and> en_espera (ds @ [d]) us False w)"
  by (rule logra_sigue, rule logra_leer_pin [OF logra_pulsa [OF assms(1)]])
    (auto simp: en_espera_pin vivo_pin en_espera_def [where ds = "ds @ [d]"] dest!: refina_digito(1) [OF _ assms])

lemma ronda_ultimo:
  assumes "is_digit d" and "length ds + 1 = PIN_LENGTH"
  shows "logra (\<lambda>w. vivo w \<and> en_espera ds us True w) caso_ESPERANDO_ACCION
     (\<lambda>_ w. vivo w \<and> estadoActual w = VALIDAR \<and> pinIngresado w = ds @ [d] \<and> listaPins w = us)"
proof -
  let ?P = "\<lambda>w. pinIngresado w = ds @ [d] \<and> listaPins w = us"
  have p: "fijo ?P" by (auto simp: fijo_def presente_def mismo_def datos_frame_def)
  have l: "logra (\<lambda>w. vivo w \<and> en_espera ds us True w) leer_pin_mef (\<lambda>r w. (vivo w \<and> ?P w) \<and> r = 1)"
    by (rule logra_leer_pin [OF logra_pulsa [OF assms(1)]]) (auto simp: vivo_pin dest!: refina_digito(2) [OF _ assms])
  have v: "logra (\<lambda>w. vivo w \<and> ?P w) (block [marcar, ir VALIDAR]) (\<lambda>_ w. vivo w \<and> estadoActual w = VALIDAR \<and> ?P w)"
    unfolding block.simps ir_def
    by (rule logra_bind [OF logra_marcar [OF p]], simp, rule logra_bind [where B = "\<lambda>_ w. vivo w \<and> estadoActual w = VALIDAR \<and> ?P w"], rule logra_modify)
      (auto intro!: logra_ret simp: con_bytes_def)
  show ?thesis
    unfolding caso_ESPERANDO_ACCION_def
    by (rule logra_cabecera, rule logra_bind [OF l], rule logra_dado) (use v in simp)
qed

section \<open>Rounds of the machine\<close>

lemma presente_estable: "presente estable"
  by (simp add: presente_def estable_def base_def teclado_inv_def digitos_def ctl_def motor_def)

text \<open>A round that returns keeps the invariant, whatever else is known of it.\<close>

lemma logra_ronda:
  assumes "logra A m B" and "\<And>w. A w \<Longrightarrow> mefUpdate w = m w" and "presente A"
  shows "logra (\<lambda>w. A w \<and> estable w) mefUpdate (\<lambda>x w. B x w \<and> estable w)"
proof (rule logra_sat [OF _ _ assms(3) presente_estable presente_estable])
  show "logra A mefUpdate B" using assms by (simp add: logra_def presente_def)
  show "sat {BufferOverflow, Uninitialised} (\<lambda>_. estable) (\<lambda>_. True) (mefUpdate w)" if "estable w" for w
    by (rule sat_mono [OF mefUpdate_estable [OF that]]) (use fallos_posibles in auto)
qed

lemma logra_espera:
  assumes "logra (\<lambda>w. vivo w \<and> en_espera ds us s w) caso_ESPERANDO_ACCION B"
  shows "logra (\<lambda>w. (vivo w \<and> en_espera ds us s w) \<and> estable w) mefUpdate (\<lambda>x w. B x w \<and> estable w)"
  by (rule logra_ronda [OF assms])
    (simp add: mefUpdate_def bind_gets en_espera_def,
     simp add: presente_def con_bytes_def en_espera_def teclado_inv_def digitos_def)

lemma for_each_veces: "length xs = length ys \<Longrightarrow> for_each xs (\<lambda>_. m) = for_each ys (\<lambda>_. m)"
  by (induction xs ys rule: list_induct2) simp_all

lemma for_each_Suc: "for_each [0..<Suc n] (\<lambda>_. m) = bind m (\<lambda>_. for_each [0..<n] (\<lambda>_. m))"
  using for_each_veces [of "[0..<Suc n]" "0 # [0..<n]" m] by simp

text \<open>A PIN is typed: for every digit a round with no key down and one with its key.\<close>

lemma logra_teclear:
  assumes "list_all is_digit ps" and "length ds + length ps = PIN_LENGTH" and "ps \<noteq> []"
  shows "logra (\<lambda>w. (vivo w \<and> en_espera ds us s w) \<and> estable w) (for_each [0..<2 * length ps] (\<lambda>_. mefUpdate :: (unit, 'z) mprog))
     (\<lambda>_ w. (vivo w \<and> estadoActual w = VALIDAR \<and> pinIngresado w = ds @ ps \<and> listaPins w = us) \<and> estable w)"
  using assms
proof (induction ps arbitrary: ds s)
  case (Cons d ps)
  note dos = for_each_Suc [of "Suc (2 * length ps)"] for_each_Suc [of "2 * length ps"]
  have n: "2 * length (d # ps) = Suc (Suc (2 * length ps))" by simp
  show ?case
  proof (cases "ps = []")
    case True
    then have "is_digit d" "length ds + 1 = PIN_LENGTH" using Cons.prems by simp_all
    with True show ?thesis
      unfolding n dos
      by (intro logra_bind [OF logra_espera [OF ronda_suelta]] logra_bind [OF logra_espera [OF ronda_ultimo]])
        (auto intro!: logra_ret)
  next
    case False
    with Cons.prems have d: "is_digit d" "length ds + 1 < PIN_LENGTH" by (auto simp: neq_Nil_conv)
    have "logra (\<lambda>w. (vivo w \<and> en_espera (ds @ [d]) us False w) \<and> estable w) (for_each [0..<2 * length ps] (\<lambda>_. mefUpdate :: (unit, 'z) mprog))
     (\<lambda>_ w. (vivo w \<and> estadoActual w = VALIDAR \<and> pinIngresado w = ds @ d # ps \<and> listaPins w = us) \<and> estable w)"
      using Cons.IH [of "ds @ [d]" False] Cons.prems False by simp
    then show ?thesis
      unfolding n dos
      by (intro logra_bind [OF logra_espera [OF ronda_suelta]] logra_bind [OF logra_espera [OF ronda_digito [OF d]]])
  qed
qed simp

lemma logra_cumple:
  assumes "puede vivo m (\<lambda>r w. vivo w \<and> R r)" and "cumple {} c m Q"
  shows "logra (\<lambda>w. vivo w \<and> base w \<and> ctl w = c) m (\<lambda>r w. (vivo w \<and> base w \<and> Q r (ctl w)) \<and> R r)"
proof (rule logra_mono [OF logra_puede [OF assms(1)]])
  show "sat {} (\<lambda>r w'. base w' \<and> Q r (ctl w')) (\<lambda>_. True) (m w)" if "base w \<and> ctl w = c" for w
    using cumpleD [OF assms(2)] that by blast
  show "presente (\<lambda>w. base w \<and> ctl w = c)" and "presente (\<lambda>w. base w \<and> Q x (ctl w))" for x
    by (simp_all add: presente_def base_def teclado_inv_def digitos_def ctl_def motor_def)
qed (auto simp: presente_con_bytes)

lemma logra_cumple_calla:
  assumes "calla m" and "cumple {} c m (\<lambda>_ c'. Q c')"
  shows "logra (\<lambda>w. vivo w \<and> base w \<and> ctl w = c) m (\<lambda>r w. vivo w \<and> base w \<and> Q (ctl w))"
  by (rule logra_mono [OF logra_cumple [OF _ assms(2), where R = "\<lambda>_. True"]]) (use assms(1) in \<open>auto simp: calla_def\<close>)

text \<open>The round that opens.\<close>

lemma calla_motor: "calla abrirCerradura" "calla cerrarCerradura" "calla alertaExito" "calla alertaError"
proof -
  have b: "calla (delayInaccurateUs n)" for n
    unfolding delayInaccurateUs_def busy_def by (intro calla_rules calla_modify) (simp_all add: con_bytes_def)
  show "calla abrirCerradura" "calla cerrarCerradura" "calla alertaExito" "calla alertaError"
    unfolding abrirCerradura_def cerrarCerradura_def step_move_def step_pulse_def alertaExito_def alertaError_def
    by (intro calla_block; auto intro!: calla_rules calla_block calla_gpio b)+
qed

lemma calla_lineas: "calla (lineas ls)"
  unfolding lineas_def by (intro calla_rules calla_disp)

lemma calla_tecladoReset: "calla tecladoReset"
  unfolding tecladoReset_def by (rule calla_modify) (simp_all add: con_bytes_def)

lemma calla_validar: "calla (caso_VALIDAR :: (unit, 'a) mprog)"
proof -
  have m: "calla (modify (\<lambda>w :: 'a mef_scheme. w\<lparr>intentosFallidos := k\<rparr>))"
     "calla (modify (\<lambda>w :: 'a mef_scheme. w\<lparr>intentosFallidos := intentosFallidos w + 1\<rparr>))" for k
    by (intro calla_modify; simp add: con_bytes_def)+
  have b: "calla (bienvenida tg)" for tg
    unfolding bienvenida_def by (intro calla_rules calla_store)
  have "calla (pin_correcto :: (unit, 'a) mprog)"
    unfolding pin_correcto_def
    by (intro calla_bind calla_gets calla_If calla_lineas b calla_block) (auto intro!: calla_motor m calla_mods calla_disp calla_basic)
  moreover have "calla (pin_incorrecto :: (unit, 'a) mprog)"
    unfolding pin_incorrecto_def
    by (intro calla_bind calla_gets calla_block calla_store)
      (auto intro!: calla_bind calla_motor m calla_lineas calla_mods calla_disp calla_basic calla_tecladoReset)
  ultimately show ?thesis
    unfolding caso_VALIDAR_def by (intro calla_bind calla_gets calla_disp calla_If) simp_all
qed

lemma puede_sensor: "puede vivo (Chip_GPIO_GetPinState p q) (\<lambda>r w. vivo w \<and> \<not> r)"
  unfolding Chip_GPIO_GetPinState_def
  by (rule puede_bind [OF puede_elegir [of "Wire (\<lambda>_ _. False)" "\<lambda>w. wire w = (\<lambda>_ _. False)"]])
    (auto intro!: puede_gets simp: con_bytes_def)

lemma logra_abrir:
  assumes "inv_ctl c" and "c_estado c = VALIDAR" and "validarPin (c_tabla c) (c_pin c)" and "tags_cortos (c_tabla c)"
  shows "logra (\<lambda>w. vivo w \<and> base w \<and> ctl w = c) caso_VALIDAR
     (\<lambda>_ w. vivo w \<and> base w \<and> inv_ctl (ctl w) \<and> c_estado (ctl w) = SENSOR_CIERRE)"
proof (rule logra_cumple_calla [OF calla_validar], rule cumple_mono)
  show "cumple {} c caso_VALIDAR (\<lambda>_. paso c)"
    by (rule caso_VALIDAR_paso) (use assms in \<open>simp_all add: inv_ctl_def\<close>)
  fix c'
  assume s: "paso c c'"
  then have "c_estado c' = SENSOR_CIERRE" by (rule pasoE) (use assms in \<open>auto simp: abierta_def\<close>)
  with paso_inv [OF s assms(1)] show "inv_ctl c' \<and> c_estado c' = SENSOR_CIERRE" by simp
qed

text \<open>The round that closes.\<close>

lemma logra_cerrar:
  assumes "inv_ctl c" and "c_estado c = SENSOR_CIERRE"
  shows "logra (\<lambda>w. vivo w \<and> base w \<and> ctl w = c) (caso_SENSOR_CIERRE :: (unit, 'a) mprog)
     (\<lambda>_ w. vivo w \<and> base w \<and> c_estado (ctl w) = ESPERANDO_ACCION \<and> m_pos (c_motor (ctl w)) = 0)"
proof -
  let ?m = "block [lineas [(''CERRADURA'', 40), (''ABIERTA'', 60)], display_update] :: (unit, 'a) mprog"
  let ?c = "block [block [cerrarCerradura, marcar, ir ESPERANDO_ACCION, display_clear], delay 500] :: (unit, 'a) mprog"
  have m: "calla ?m" by (intro calla_block) (auto intro: calla_lineas calla_disp)
  have q: "cumple {} c ?m (\<lambda>_ c'. c' = c)"
    by (rule cumple_quieto) (unfold secuencia, auto intro!: quietos simp: cabe_simps)
  have k: "calla ?c" by (intro calla_block) (auto intro!: calla_bind calla_motor calla_mods calla_disp calla_basic)
  have s: "cumple {} c (Chip_GPIO_GetPinState SENSORHALL_GPIO_PORT SENSORHALL_GPIO_PIN :: (bool, 'a) mprog) (\<lambda>_ c'. c' = c)"
    by (rule cumple_quieto [OF quieto_sensor]) simp
  have "logra (\<lambda>w. vivo w \<and> base w \<and> ctl w = c) ?c
     (\<lambda>_ w. vivo w \<and> base w \<and> c_estado (ctl w) = ESPERANDO_ACCION \<and> m_pos (c_motor (ctl w)) = 0)"
    by (rule logra_mono [OF logra_cumple_calla [OF k cierre_paso]]) (use assms in \<open>auto simp: inv_ctl_def movido_pos\<close>)
  then show ?thesis
    unfolding caso_SENSOR_CIERRE_def OMITIR_SENSOR_CIERRE_def OMITIR_MOTOR_def if_False not_False_eq_True if_True
    by (intro logra_bind [OF logra_cumple_calla [OF m q]] logra_bind [OF logra_cumple [OF puede_sensor s]] logra_dado) simp
qed

text \<open>The two rounds after the PIN has been typed.\<close>

definition cerrada :: "'z mef_scheme \<Rightarrow> bool" where
  "cerrada w \<longleftrightarrow> estadoActual w = ESPERANDO_ACCION \<and> m_pos (motor w) = 0"

definition abre_y_cierra :: "'z mef_scheme \<Rightarrow> bool" where
  "abre_y_cierra w1 \<longleftrightarrow> estadoActual w1 = SENSOR_CIERRE \<and> m_pos (motor w1) = 100 \<and>
     (\<exists>w2. mefUpdate w1 = Ret () w2 \<and> cerrada w2)"

lemma ronda_cierra:
  assumes "vivo w" and "base w" and "inv_ctl (ctl w)" and "c_estado (ctl w) = SENSOR_CIERRE"
  shows "\<exists>sc. abre_y_cierra (w\<lparr>script := sc\<rparr>)"
proof -
  have "\<exists>sc x w'. caso_SENSOR_CIERRE (w\<lparr>script := sc\<rparr>) = Ret x w' \<and> cerrada w'"
    by (rule lograD [OF logra_cerrar [OF assms(3,4)]]) (use assms in \<open>auto simp: cerrada_def ctl_def motor_def\<close>)
  then obtain sc w' where "caso_SENSOR_CIERRE (w\<lparr>script := sc\<rparr>) = Ret () w'" "cerrada w'" by auto
  with assms(3,4) show ?thesis
    by (intro exI [of _ sc])
      (simp add: abre_y_cierra_def mefUpdate_def bind_gets ctl_def inv_ctl_def, simp add: motor_def)
qed

lemma ronda_abre:
  assumes "vivo w" and "estable w" and "estadoActual w = VALIDAR" and "validarPin (listaPins w) (pinIngresado w)"
    and "tags_cortos (listaPins w)"
  shows "\<exists>sc w1. mefUpdate (w\<lparr>script := sc\<rparr>) = Ret () w1 \<and> abre_y_cierra w1"
proof -
  have i: "inv_ctl (ctl w)" "base w" using assms(2) by (simp_all add: estable_def)
  have "\<exists>sc x w1. caso_VALIDAR (w\<lparr>script := sc\<rparr>) = Ret x w1 \<and> abre_y_cierra w1"
    by (rule lograD [OF logra_abrir [OF i(1)]]) (use assms i in \<open>auto simp: ctl_def intro: ronda_cierra\<close>)
  with assms(3) show ?thesis by (auto simp: mefUpdate_def bind_gets)
qed

section \<open>Power-up without a server\<close>

text \<open>What power-up leaves alone when the server does not answer.\<close>

definition arranque_frame :: "'z mef_scheme \<Rightarrow> 'z mef_scheme \<Rightarrow> bool" where
  "arranque_frame w w' \<longleftrightarrow> listaPins w' = listaPins w \<and> escaneoActivo w' = escaneoActivo w \<and> pos w' = pos w"

lemma env_frame_arranque: "env_frame w w' \<Longrightarrow> arranque_frame w w'"
  unfolding env_frame_def arranque_frame_def by (cases w, cases w') simp

interpretation af: as608_stable arranque_frame UNIV UNIV
  by unfold_locales (simp_all add: within_poll_frame env_frame_arranque, simp_all add: arranque_frame_def)

interpretation af: esp_stable arranque_frame UNIV UNIV
  by unfold_locales (simp_all add: arranque_frame_def)

interpretation af: rc522_stable arranque_frame UNIV UNIV
  by unfold_locales simp

definition recien :: "tabla \<Rightarrow> 'z mef_scheme \<Rightarrow> bool" where
  "recien us w \<longleftrightarrow> listaPins w = us \<and> \<not> escaneoActivo w \<and> pos w = 0"

text \<open>Statements after which the clock runs and the memory is as at power-up.\<close>

definition calla_recien :: "tabla \<Rightarrow> ('a, 'z) mprog \<Rightarrow> bool" where
  "calla_recien us m \<longleftrightarrow> puede (\<lambda>w. vivo w \<and> recien us w) m (\<lambda>_ w. vivo w \<and> recien us w)"

lemma puede_respeta:
  assumes "puede A m B" and "respeta r m" and "\<And>w w'. r w w' \<Longrightarrow> P w \<Longrightarrow> P w'" and "presente P"
  shows "puede (\<lambda>w. A w \<and> P w) m (\<lambda>x w. B x w \<and> P w)"
proof (rule puedeI, elim conjE)
  fix w K
  assume w: "A w" "P w" and K: "\<And>x w'. B x w' \<and> P w' \<Longrightarrow> \<exists>s. K x (w'\<lparr>script := s\<rparr>)"
  have "\<exists>s. llega (\<lambda>x w'. P w' \<longrightarrow> K x w') (m (w\<lparr>script := s\<rparr>))"
  proof (rule puedeD [OF assms(1) w(1)])
    fix x w'
    assume "B x w'"
    with K assms(4) show "\<exists>s. P (w'\<lparr>script := s\<rparr>) \<longrightarrow> K x (w'\<lparr>script := s\<rparr>)"
      by (cases "P w'") (auto simp: presente_def)
  qed
  then obtain s where s: "llega (\<lambda>x w'. P w' \<longrightarrow> K x w') (m (w\<lparr>script := s\<rparr>))" ..
  have "P (final (m (w\<lparr>script := s\<rparr>)))"
    by (rule assms(3) [OF withinD [OF assms(2)]]) (use w(2) assms(4) in \<open>simp add: presente_def\<close>)
  with s have "llega K (m (w\<lparr>script := s\<rparr>))" by (cases "m (w\<lparr>script := s\<rparr>)") (auto simp: llega_def)
  then show "\<exists>s. llega K (m (w\<lparr>script := s\<rparr>))" ..
qed

lemma recien_frame: "arranque_frame w w' \<Longrightarrow> recien us w \<Longrightarrow> recien us w'"
  by (simp add: recien_def arranque_frame_def)

lemma presente_recien: "presente (recien us)"
  by (simp add: presente_def recien_def)

lemma puede_recien:
  "puede A m B \<Longrightarrow> respeta arranque_frame m \<Longrightarrow>
   puede (\<lambda>w. A w \<and> recien us w) m (\<lambda>x w. B x w \<and> recien us w)"
  by (rule puede_respeta [where r = arranque_frame]) (auto intro: recien_frame presente_recien)

lemma recien_calla: "calla m \<Longrightarrow> respeta arranque_frame m \<Longrightarrow> calla_recien us m"
  unfolding calla_recien_def calla_def by (rule puede_recien)

lemma recien_bind: "calla_recien us m \<Longrightarrow> (\<And>x. calla_recien us (f x)) \<Longrightarrow> calla_recien us (bind m f)"
  unfolding calla_recien_def by (rule puede_bind)

lemma recien_ret: "calla_recien us (ret x)"
  by (simp add: calla_recien_def puede_ret)

lemma recien_block: "(\<And>m. m \<in> set ms \<Longrightarrow> calla_recien us m) \<Longrightarrow> calla_recien us (block ms)"
  by (induction ms) (auto intro: recien_bind recien_ret)

text \<open>The server does not answer.\<close>

lemma puede_sin_usuarios: "puede vivo (espHTTPGetPins n) (\<lambda>r w. vivo w \<and> r = [])"
proof -
  have "puede vivo (espRawHTTPGet path 2048) (\<lambda>r w. vivo w \<and> r = None)" for path
    unfolding espRawHTTPGet_def
    by (rule calla_puede [OF calla_AT], simp, simp, rule calla_puede [OF calla_store],
        rule puede_bind [OF puede_AT [of "[]"]], simp, simp, rule puede_dado) (auto intro: puede_ret)
  then have "puede vivo (espHTTPGetViaAT path 2048) (\<lambda>r w. vivo w \<and> r = None)" for path
    unfolding espHTTPGetViaAT_def
    by (intro puede_bind [OF puede_AT [of "[]"]] puede_dado) simp_all
  then show ?thesis
    unfolding espHTTPGetPins_def by (auto intro!: puede_bind puede_dado puede_ret)
qed

lemma recien_sincronizar: "calla_recien us (sincronizarConServidor :: (u8, 'z) mprog)"
  unfolding sincronizarConServidor_def
proof (rule recien_bind)
  show "calla_recien us (block [display_clear, display_println ''SINCRONIZANDO...'' 20, display_update] :: (unit, 'z) mprog)"
    by (intro recien_block recien_calla) (auto intro: calla_disp af.disp_rules)
next
  let ?f = "\<lambda>recibidos. bind display_clear (\<lambda>_. bind (if 0 < length recibidos then
             bind (sobre_tabla (\<lambda>_. map_sum id (Pair ()) (actualizarBaseDeDatos
               (recibidos @ replicate (MAX_PINS - length recibidos) usuario_cero)
               (int (length recibidos))))) (\<lambda>_.
             bind (display_println ''SYNC COMPLETADA'' 20) (\<lambda>_.
             bind (store_str 20 (''USUARIOS: '' @ fmt_d (int (length recibidos)))) (\<lambda>buff.
             bind (display_println buff 40) (\<lambda>_. ret 0))))
           else
             bind (block [display_println ''ERROR DE SYNC'' 20, display_println ''MANTENIENDO DB'' 40]) (\<lambda>_.
             ret 1)) (\<lambda>valor.
     bind (block [display_update, delay 1000, display_clear]) (\<lambda>_. ret valor))) :: (u8, 'z) mprog"
  have "calla_recien us (?f [])"
    by (simp, intro recien_bind recien_ret recien_calla calla_disp calla_basic af.disp_rules)
  moreover have "puede (\<lambda>w. vivo w \<and> recien us w) (espHTTPGetPins MAX_PINS :: (PinUsuario list, 'z) mprog) (\<lambda>r w. (vivo w \<and> r = []) \<and> recien us w)"
    by (rule puede_recien [OF puede_sin_usuarios af.within_espHTTPGetPins])
  ultimately have "puede (\<lambda>w. vivo w \<and> recien us w) (bind (espHTTPGetPins MAX_PINS) ?f) (\<lambda>_ w. vivo w \<and> recien us w)"
    unfolding calla_recien_def
    by (elim puede_bind) (auto intro!: puede_dado [THEN puede_mono] puede_False)
  then show "calla_recien us (bind (espHTTPGetPins MAX_PINS) ?f)" for x :: unit by (simp only: calla_recien_def)
qed

lemma recien_wifi:
  "calla_recien us (bind (inicializarESP 10000) (\<lambda>wifiOk. if wifiOk then ret () else m))"
  unfolding calla_recien_def
  by (rule puede_bind [OF puede_recien [OF puede_inicializarESP af.within_inicializarESP]])
    (auto intro!: puede_dado [THEN puede_mono] puede_ret puede_False)

lemma recien_mefInit: "calla_recien us mefInit"
proof -
  have mo: "respeta arranque_frame (mostrar ls)" for ls
    unfolding mostrar_def lineas_def by (intro af.within_block) (auto intro!: af.disp_rules)
  have mods: "respeta arranque_frame (ir e)" "respeta arranque_frame marcar" for e
    unfolding ir_def marcar_def
    by (intro af.within_bind af.within_modify af.within_tick32; simp add: arranque_frame_def)+
  have vo: "calla_recien us m \<Longrightarrow> calla_recien us (void m)" for m :: "(u8, 'a) mprog"
    unfolding void_def by (intro recien_bind recien_ret)
  have al: "respeta arranque_frame alertasInit" by (rule af.within_alertas [THEN conjunct1]) simp
  have wifi: "calla_recien us (block [
         mostrar [(''CONECTANDO WIFI...'', 20)],
         espATInit 115200,
         bind (inicializarESP 10000) (\<lambda>wifiOk.
         if wifiOk then ret ()
         else loop (\<lambda>_.
           bind (mostrar [(''REINTENTO WIFI...'', 20)]) (\<lambda>_.
           bind (inicializarESP 5000) (\<lambda>ok. ret (if ok then Inr () else Inl ())))) ()),
         void sincronizarConServidor] :: (unit, 'a) mprog)"
    unfolding block.simps
    by (rule recien_bind [OF recien_calla [OF calla_mostrar mo]],
        rule recien_bind [OF recien_calla [OF calla_espATInit af.within_espATInit]],
        rule recien_bind [OF recien_wifi], rule recien_bind [OF vo [OF recien_sincronizar]], rule recien_ret)
  show ?thesis
    unfolding mefInit_def ALERTAS_ENABLE_def SENSOR_WIFI_ENABLE_def SENSOR_HUELLA_ENABLE_def if_True
  proof (rule recien_block, unfold list.set insert_iff empty_iff simp_thms(31), elim disjE, simp_all only: simp_thms, goal_cases)
    case (3 m)
    show ?case by (rule wifi)
  qed (auto intro!: recien_block recien_calla calla_bind calla_pines calla_as608Init calla_mods calla_rc522 calla_mostrar calla_basic
     calla_disp af.within_config al af.as608_rules af.rc522_rules mo mods af.hw_rules)
qed

lemma arranque_frame_gpio: "respeta arranque_frame (gpioInit p cfg)"
  by (rule af.within_gpioInit) simp

lemma recien_tecladoInit: "calla_recien us tecladoInit"
proof -
  have k: "calla_recien us (keypadInit rowPins colPins)"
    unfolding keypadInit_def
    by (intro recien_calla calla_rules calla_gpioInit af.within_bind af.within_for_each af.within_void af.within_ret
        arranque_frame_gpio)
  have m: "calla_recien us (modify (\<lambda>w. w\<lparr>keypad := r\<rparr>))" "calla_recien us tecladoReset" for r
    unfolding calla_recien_def tecladoReset_def by (rule puede_modify; simp add: con_bytes_def recien_def)+
  show ?thesis
    unfolding tecladoInit_def
    by (rule recien_bind [OF k]) (auto intro!: recien_bind m split: prod.split)
qed

lemma puede_encendido: "puede (\<lambda>w. rxFifo w 3 = [] \<and> recien us w) (arranque :: (unit, 'a) mprog) (\<lambda>_ w. vivo w \<and> recien us w)"
proof -
  have b: "respeta arranque_frame boardInit"
    unfolding boardInit_def
    by (intro af.within_block) (auto intro!: af.within_void af.within_bind af.within_tickInit arranque_frame_gpio af.within_ret)
  have d: "respeta arranque_frame driverConfig"
    unfolding driverConfig_def dir_salida_def set_pin_def by (intro af.within_block) (auto intro!: af.hw_rules)
  have i: "calla display_init"
    unfolding display_init_def i2cInit_def
    by (intro calla_block) (auto intro!: calla_rules calla_disp calla_ssd1306 calla_modify simp: con_bytes_def)
  have k: "calla_recien us (block [display_init, driverConfig, tecladoInit, mefInit] :: (unit, 'a) mprog)"
    unfolding block.simps
    by (intro recien_bind [OF recien_calla [OF i af.within_display_init]] recien_bind [OF recien_calla [OF calla_pines(1) d]]
        recien_bind [OF recien_tecladoInit] recien_bind [OF recien_mefInit] recien_ret)
  show ?thesis
    unfolding arranque_def block.simps(2) [of boardInit]
    by (rule puede_bind [OF puede_recien [OF puede_boardInit b]]) (rule k [unfolded calla_recien_def])
qed

lemma logra_encendido:
  "logra (\<lambda>w. (rxFifo w 3 = [] \<and> recien listaPins_init w) \<and> (\<exists>sc. w = mef0 sc)) arranque
     (\<lambda>_ w. (vivo w \<and> recien listaPins_init w) \<and> base w \<and> inicio (ctl w))"
proof (rule logra_puede [OF puede_encendido])
  show "sat {} (\<lambda>_ w. base w \<and> inicio (ctl w)) (\<lambda>_. True) (arranque w)" if "\<exists>sc. w = mef0 sc" for w
    using that arranque_inicio by blast
  show "presente (\<lambda>w. rxFifo w 3 = [] \<and> recien listaPins_init w)" by (simp add: presente_def recien_def)
  have "(mef0 sc)\<lparr>script := s\<rparr> = mef0 s" for sc s by (simp add: mef0_def hw0_def)
  moreover have "w = mef0 (script w)" if "w\<lparr>script := s\<rparr> = mef0 sc" for w s sc
    using arg_cong [OF that, of "\<lambda>v. v\<lparr>script := script w\<rparr>"] by (simp add: mef0_def hw0_def)
  ultimately show "presente (\<lambda>w. \<exists>sc. w = mef0 sc)" unfolding presente_def by blast
  show "presente (\<lambda>w. base w \<and> inicio (ctl w))" for x :: unit
    by (simp add: presente_def base_def teclado_inv_def digitos_def ctl_def motor_def)
qed

section \<open>Properties\<close>



end
