(* ===== verification/Servidor.thy ===== *)
theory Servidor
  imports Validacion
begin

text \<open>
  The server the lock synchronises with (\<^verbatim>\<open>Server/server.py\<close>): the table of users in
  SQLite, one function per route, and how its table and the table of the lock stay
  together.

  A row is a record; the table is the list of its rows in the order of the primary
  key, the order in which SQLite scans them. Texts are lists of characters up to
  code 255. The clock (\<^verbatim>\<open>time.time()\<close>) is an argument. A page is answered by
  \<open>Pagina\<close>, a redirection by \<open>Redirige\<close>; the messages they show are left out.
\<close>

section \<open>State and requests\<close>

record fila =
  f_id :: nat
  f_codigo :: string
  f_activo :: int
  f_rfid :: string
  f_huella :: string
  f_tag :: string

record servidor =
  usuarios :: "fila list"
  sqlite_sequence :: nat        \<comment> \<open>the largest key ever given (\<^verbatim>\<open>AUTOINCREMENT\<close>)\<close>
  LAST_UPDATE_TIME :: double

datatype respuesta =
    Texto string nat   \<comment> \<open>body and status\<close>
  | Json string
  | Redirige
  | Pagina

text \<open>The requests, with the parameters the routes read; \<open>None\<close> is a missing parameter.\<close>

datatype ruta =
    Delete nat
  | SyncPins
  | DeleteRfid nat
  | UpdateAdminPin "string option"
  | UpdateRfid "string option" "string option"
  | DeleteHuella "string option"
  | ClearAllHuellas
  | UpdateHuella "string option" "string option"
  | CheckStatus
  | PanelGet
  | PanelPost "string option" "string option" "string option" "string option"

section \<open>Routes\<close>

definition notificar_cambio :: "double \<Rightarrow> servidor \<Rightarrow> servidor" where
  "notificar_cambio ahora s = s\<lparr>LAST_UPDATE_TIME := ahora\<rparr>"

text \<open>\<^verbatim>\<open>INSERT INTO usuarios\<close> with the next key.\<close>

definition insertar :: "string \<Rightarrow> int \<Rightarrow> string \<Rightarrow> string \<Rightarrow> string \<Rightarrow> servidor \<Rightarrow> servidor" where
  "insertar c a r h t s = s\<lparr>
     usuarios := usuarios s @ [\<lparr>f_id = Suc (sqlite_sequence s), f_codigo = c, f_activo = a,
       f_rfid = r, f_huella = h, f_tag = t\<rparr>],
     sqlite_sequence := Suc (sqlite_sequence s)\<rparr>"

definition init_db :: "servidor \<Rightarrow> servidor" where
  "init_db s = (if length (usuarios s) = 0 then insertar ''11111'' 1 [] [] ''ADMIN'' s else s)"

definition delete_user :: "double \<Rightarrow> nat \<Rightarrow> servidor \<Rightarrow> respuesta \<times> servidor" where
  "delete_user ahora user_id s =
     (if user_id = 1 then (Texto ''ERROR: No se puede borrar al usuario Maestro (ID 1)'' 403, s)
      else (Redirige, notificar_cambio ahora (s\<lparr>usuarios := filter (\<lambda>r. f_id r \<noteq> user_id) (usuarios s)\<rparr>)))"

definition usuario_json :: "fila \<Rightarrow> PinUsuario" where
  "usuario_json r = \<lparr>codigo = f_codigo r, activo = (f_activo r \<noteq> 0), rfid = f_rfid r, huella = f_huella r,
     tag = (if f_tag r \<noteq> [] then f_tag r else ''usuario'')\<rparr>"

definition lista_usuarios :: "servidor \<Rightarrow> PinUsuario list" where
  "lista_usuarios s = map usuario_json (filter (\<lambda>r. f_activo r = 1) (usuarios s))"

text \<open>
  \<^verbatim>\<open>json.dumps\<close> writes a character that is not printable ASCII, a quote or a
  backslash as an escape.
\<close>

definition hex4 :: "nat \<Rightarrow> string" where
  "hex4 n = map (\<lambda>d. (''0123456789abcdef'') ! d) [n div 4096 mod 16, n div 256 mod 16, n div 16 mod 16, n mod 16]"

definition escapar :: "char \<Rightarrow> string" where
  "escapar c = (let n = (of_char c :: nat) in
     if n = 34 \<or> n = 92 then [CHR 0x5C, c]
     else if n = 10 then CHR 0x5C # ''n'' else if n = 13 then CHR 0x5C # ''r''
     else if n = 9 then CHR 0x5C # ''t'' else if n = 12 then CHR 0x5C # ''f''
     else if n = 8 then CHR 0x5C # ''b''
     else if n < 32 \<or> 126 < n then CHR 0x5C # CHR ''u'' # hex4 n
     else [c])"

definition escapado :: "PinUsuario \<Rightarrow> PinUsuario" where
  "escapado u = u\<lparr>codigo := concat (map escapar (codigo u)), rfid := concat (map escapar (rfid u)),
     huella := concat (map escapar (huella u)), tag := concat (map escapar (tag u))\<rparr>"

definition sync_pins :: "servidor \<Rightarrow> respuesta" where
  "sync_pins s = Json (json_usuarios (map escapado (lista_usuarios s)))"

text \<open>\<^verbatim>\<open>UPDATE usuarios SET .. WHERE ..\<close>: every row that satisfies the condition.\<close>

definition actualizar :: "(fila \<Rightarrow> bool) \<Rightarrow> (fila \<Rightarrow> fila) \<Rightarrow> servidor \<Rightarrow> servidor" where
  "actualizar P f s = s\<lparr>usuarios := map (\<lambda>r. if P r then f r else r) (usuarios s)\<rparr>"

definition existe :: "string \<Rightarrow> servidor \<Rightarrow> bool" where
  "existe pin s \<longleftrightarrow> list_ex (\<lambda>r. f_codigo r = pin) (usuarios s)"

definition delete_rfid :: "double \<Rightarrow> nat \<Rightarrow> servidor \<Rightarrow> respuesta \<times> servidor" where
  "delete_rfid ahora user_id s =
     (Redirige, if list_ex (\<lambda>r. f_id r = user_id) (usuarios s)
      then notificar_cambio ahora (actualizar (\<lambda>r. f_id r = user_id) (\<lambda>r. r\<lparr>f_rfid := []\<rparr>) s)
      else s)"

text \<open>\<^verbatim>\<open>str.isdigit\<close> on characters up to code 255: the digits and the superscripts 1, 2 and 3.\<close>

definition isdigit :: "string \<Rightarrow> bool" where
  "isdigit t \<longleftrightarrow> t \<noteq> [] \<and> list_all (\<lambda>c. is_digit c \<or> of_char c \<in> {178, 179, 185 :: nat}) t"

definition update_admin_pin :: "double \<Rightarrow> string option \<Rightarrow> servidor \<Rightarrow> respuesta \<times> servidor" where
  "update_admin_pin ahora pin_admin s =
     (Redirige, case pin_admin of
        None \<Rightarrow> s
      | Some nuevo_pin \<Rightarrow>
          if length nuevo_pin \<noteq> 5 \<or> \<not> isdigit nuevo_pin then s
          else notificar_cambio ahora (actualizar (\<lambda>r. f_id r = 1) (\<lambda>r. r\<lparr>f_codigo := nuevo_pin\<rparr>) s))"

definition falta :: "string option \<Rightarrow> bool" where
  "falta p \<longleftrightarrow> p = None \<or> p = Some []"

definition update_rfid_endpoint :: "double \<Rightarrow> string option \<Rightarrow> string option \<Rightarrow> servidor \<Rightarrow> respuesta \<times> servidor" where
  "update_rfid_endpoint ahora pin rfid_hex s =
     (if falta pin \<or> falta rfid_hex then (Texto ''ERROR: Faltan parametros'' 400, s)
      else if existe (the pin) s
      then (Texto ''UPDATED OK'' 200,
            notificar_cambio ahora (actualizar (\<lambda>r. f_codigo r = the pin) (\<lambda>r. r\<lparr>f_rfid := the rfid_hex\<rparr>) s))
      else (Texto ''ERROR: PIN NO EXISTE'' 404, s))"

definition delete_huella_endpoint :: "double \<Rightarrow> string option \<Rightarrow> servidor \<Rightarrow> respuesta \<times> servidor" where
  "delete_huella_endpoint ahora pin s =
     (if falta pin then (Texto ''ERROR: Falta PIN'' 400, s)
      else (Texto ''DELETED OK'' 200,
            notificar_cambio ahora (actualizar (\<lambda>r. f_codigo r = the pin) (\<lambda>r. r\<lparr>f_huella := []\<rparr>) s)))"

definition clear_all_huellas_endpoint :: "double \<Rightarrow> servidor \<Rightarrow> respuesta \<times> servidor" where
  "clear_all_huellas_endpoint ahora s =
     (Texto ''ALL CLEARED OK'' 200, notificar_cambio ahora (actualizar (\<lambda>r. True) (\<lambda>r. r\<lparr>f_huella := []\<rparr>) s))"

definition update_huella_endpoint :: "double \<Rightarrow> string option \<Rightarrow> string option \<Rightarrow> servidor \<Rightarrow> respuesta \<times> servidor" where
  "update_huella_endpoint ahora pin huella_id s =
     (if falta pin \<or> falta huella_id then (Texto ''ERROR: Faltan parametros'' 400, s)
      else if existe (the pin) s
      then (Texto ''UPDATED OK'' 200,
            notificar_cambio ahora (actualizar (\<lambda>r. f_codigo r = the pin) (\<lambda>r. r\<lparr>f_huella := the huella_id\<rparr>) s))
      else (Texto ''ERROR: PIN NO EXISTE'' 404, s))"

text \<open>The form of the panel. A form without the other fields is a bad request.\<close>

definition panel_post ::
  "double \<Rightarrow> string option \<Rightarrow> string option \<Rightarrow> string option \<Rightarrow> string option \<Rightarrow> servidor \<Rightarrow> respuesta \<times> servidor" where
  "panel_post ahora pin nombre rfid_hex huella_id s =
     (case pin of None \<Rightarrow> (Pagina, s) | Some c \<Rightarrow>
      (case (nombre, rfid_hex, huella_id) of
         (Some t, Some r, Some h) \<Rightarrow>
           if existe c s then (Redirige, s)
           else (Redirige, notificar_cambio ahora (insertar c 1 r h t s))
       | _ \<Rightarrow> (Texto ''Bad Request'' 400, s)))"

text \<open>\<open>jsonify\<close> is Flask's document for the time stamp.\<close>

definition atender :: "(double \<Rightarrow> string) \<Rightarrow> double \<Rightarrow> ruta \<Rightarrow> servidor \<Rightarrow> respuesta \<times> servidor" where
  "atender jsonify ahora q s = (case q of
       Delete n \<Rightarrow> delete_user ahora n s
     | SyncPins \<Rightarrow> (sync_pins s, s)
     | DeleteRfid n \<Rightarrow> delete_rfid ahora n s
     | UpdateAdminPin p \<Rightarrow> update_admin_pin ahora p s
     | UpdateRfid p r \<Rightarrow> update_rfid_endpoint ahora p r s
     | DeleteHuella p \<Rightarrow> delete_huella_endpoint ahora p s
     | ClearAllHuellas \<Rightarrow> clear_all_huellas_endpoint ahora s
     | UpdateHuella p h \<Rightarrow> update_huella_endpoint ahora p h s
     | CheckStatus \<Rightarrow> (Json (jsonify (LAST_UPDATE_TIME s)), s)
     | PanelGet \<Rightarrow> (Pagina, s)
     | PanelPost c t r h \<Rightarrow> panel_post ahora c t r h s)"


text \<open>Power-up of the server and a history of requests, each at its time.\<close>

definition servidor0 :: servidor where
  "servidor0 = \<lparr>usuarios = [], sqlite_sequence = 0, LAST_UPDATE_TIME = Fin 0\<rparr>"

definition atender_todas :: "(double \<Rightarrow> string) \<Rightarrow> (double \<times> ruta) list \<Rightarrow> servidor \<Rightarrow> servidor" where
  "atender_todas jsonify ps s = fold (\<lambda>(ahora, q) s. snd (atender jsonify ahora q s)) ps s"

section \<open>What every request keeps\<close>

definition inv_servidor :: "servidor \<Rightarrow> bool" where
  "inv_servidor s \<longleftrightarrow> sorted_wrt (<) (map f_id (usuarios s)) \<and> list_all (\<lambda>r. f_id r \<le> sqlite_sequence s) (usuarios s) \<and>
     (\<exists>r rs. usuarios s = r # rs \<and> f_id r = 1 \<and> length (f_codigo r) = 5) \<and> list_all (\<lambda>r. f_activo r = 1) (usuarios s)"

lemma inv_notificar [simp]: "inv_servidor (notificar_cambio t s) = inv_servidor s"
  by (simp add: inv_servidor_def notificar_cambio_def)

lemma inv_actualizar:
  assumes "inv_servidor s" and "\<And>r. f_id (f r) = f_id r" and "\<And>r. f_activo (f r) = f_activo r"
    and "\<And>r. length (f_codigo r) = 5 \<Longrightarrow> length (f_codigo (f r)) = 5"
  shows "inv_servidor (actualizar P f s)"
proof -
  have "f_id \<circ> (\<lambda>r. if P r then f r else r) = f_id"
    by (rule ext) (simp add: assms(2))
  with assms show ?thesis
    by (auto simp: inv_servidor_def actualizar_def list_all_iff)
qed

lemma inv_insertar: "inv_servidor s \<Longrightarrow> inv_servidor (insertar c 1 r h t s)"
  by (auto simp: inv_servidor_def insertar_def sorted_wrt_append list_all_iff less_Suc_eq_le le_SucI)

lemma inv_borrar: "inv_servidor s \<Longrightarrow> n \<noteq> 1 \<Longrightarrow> inv_servidor (s\<lparr>usuarios := filter (\<lambda>r. f_id r \<noteq> n) (usuarios s)\<rparr>)"
  by (auto simp: inv_servidor_def list_all_iff sorted_wrt_map intro: sorted_wrt_filter)

lemma inv_atender: "inv_servidor s \<Longrightarrow> inv_servidor (snd (atender js t q s))"
  by (cases q)
    (auto simp: atender_def delete_user_def delete_rfid_def update_admin_pin_def update_rfid_endpoint_def
      delete_huella_endpoint_def clear_all_huellas_endpoint_def update_huella_endpoint_def panel_post_def
      intro!: inv_actualizar inv_insertar inv_borrar split: option.split)

lemma inv_atender_todas: "inv_servidor s \<Longrightarrow> inv_servidor (atender_todas js ps s)"
  unfolding atender_todas_def by (induction ps arbitrary: s) (auto intro: inv_atender)

lemma inv_init: "inv_servidor (init_db servidor0)"
  by (simp add: inv_servidor_def init_db_def servidor0_def insertar_def)

section \<open>The tables of the lock and of the server\<close>

lemma inactivo_cero: "\<not> es_pin pin usuario_cero"
  by (simp add: es_pin_def usuario_cero_def)

lemma map_primero:
  assumes "distinct (map codigo (filter activo (xs @ u # ys)))" and "es_pin pin u" and "\<forall>x \<in> set xs. \<not> es_pin pin x"
  shows "map (\<lambda>u. if es_pin pin u then g u else u) (xs @ u # ys) = xs @ g u # ys"
proof -
  have "activo u" "codigo u = pin" using assms(2) by (simp_all add: es_pin_def)
  with assms(1) have "pin \<notin> codigo ` {x \<in> set ys. activo x}" by simp
  then have "\<forall>y \<in> set ys. \<not> es_pin pin y" by (auto simp: es_pin_def image_iff)
  with assms(2,3) show ?thesis by (auto intro!: map_idI)
qed

text \<open>With distinct PINs the operations of the lock change exactly the entries with the PIN.\<close>

lemma cerradura_map:
  assumes "distinct (map codigo (filter activo us))" and "validarPin us pin"
  shows "length h \<le> 4 \<Longrightarrow> asociarHuellaaPin us pin h = (True, map (\<lambda>u. if es_pin pin u then u\<lparr>huella := h\<rparr> else u) us)"
    and "length r < 20 \<Longrightarrow> asociarRFIDaPin us pin r = Inr (True, map (\<lambda>u. if es_pin pin u then u\<lparr>rfid := r\<rparr> else u) us)"
    and "eliminarHuellaLocal us pin = (True, map (\<lambda>u. if es_pin pin u then u\<lparr>huella := []\<rparr> else u) us)"
proof -
  obtain xs u ys where us: "us = xs @ u # ys" and u: "es_pin pin u" "\<forall>x \<in> set xs. \<not> es_pin pin x"
    using assms(2) by (rule primero)
  note m = map_primero [OF assms(1) [unfolded us] u]
  show "length h \<le> 4 \<Longrightarrow> asociarHuellaaPin us pin h = (True, map (\<lambda>u. if es_pin pin u then u\<lparr>huella := h\<rparr> else u) us)"
    and "length r < 20 \<Longrightarrow> asociarRFIDaPin us pin r = Inr (True, map (\<lambda>u. if es_pin pin u then u\<lparr>rfid := r\<rparr> else u) us)"
    and "eliminarHuellaLocal us pin = (True, map (\<lambda>u. if es_pin pin u then u\<lparr>huella := []\<rparr> else u) us)"
    unfolding us m by (simp_all add: primero_simps [OF u])
qed

lemma lista_actualizar:
  assumes "\<And>r. f_activo (f r) = f_activo r" and "\<And>r. usuario_json (f r) = g (usuario_json r)"
  shows "lista_usuarios (actualizar (\<lambda>r. f_codigo r = pin) f s) =
     map (\<lambda>u. if es_pin pin u then g u else u) (lista_usuarios s)"
proof -
  have "filter (\<lambda>r. f_activo r = 1) (map (\<lambda>r. if f_codigo r = pin then f r else r) rs) =
      map (\<lambda>r. if f_codigo r = pin then f r else r) (filter (\<lambda>r. f_activo r = 1) rs)" for rs
    by (induction rs) (simp_all add: assms(1))
  then show ?thesis
    unfolding lista_usuarios_def actualizar_def
    by (auto simp: assms(2) es_pin_def) (simp_all add: usuario_json_def)
qed

lemma lista_notificar [simp]: "lista_usuarios (notificar_cambio t s) = lista_usuarios s"
  by (simp add: lista_usuarios_def notificar_cambio_def)

lemma tabla_de_map: "tabla_de (map (\<lambda>u. if es_pin pin u then g u else u) rs) =
    map (\<lambda>u. if es_pin pin u then g u else u) (tabla_de rs)"
  by (simp add: tabla_de_def inactivo_cero)

lemma codigos_tabla_de:
  assumes "distinct (map f_codigo (usuarios s))"
  shows "distinct (map codigo (filter activo (tabla_de (lista_usuarios s))))"
proof -
  have "filter activo (tabla_de rs) = filter activo rs" for rs
    by (simp add: tabla_de_def usuario_cero_def)
  moreover have "map codigo (filter activo (lista_usuarios s)) = map f_codigo (filter (\<lambda>r. f_activo r = 1) (usuarios s))"
    unfolding lista_usuarios_def by (induction "usuarios s") (auto simp: usuario_json_def o_def)
  ultimately show ?thesis using distinct_map_filter [OF assms] by simp
qed

lemma valida_existe:
  assumes "validarPin (tabla_de (lista_usuarios s)) pin"
  shows "existe pin s"
proof -
  from assms obtain u where "u \<in> set (tabla_de (lista_usuarios s))" "es_pin pin u"
    using sin_pin by blast
  then have "u \<in> set (lista_usuarios s)" by (auto simp: tabla_de_def inactivo_cero)
  then obtain r where "r \<in> set (usuarios s)" "u = usuario_json r" by (auto simp: lista_usuarios_def)
  with \<open>es_pin pin u\<close> show ?thesis by (auto simp: existe_def list_ex_iff es_pin_def usuario_json_def)
qed

section \<open>An answer that is cut short\<close>

text \<open>
  The buffer of the lock holds 2047 characters of the answer. What the parser reads
  from the beginning of a document are the users whose object is complete.
\<close>

lemma parsear_objetos_sin: "strchr_at s p (CHR ''{'') = None \<Longrightarrow> parsear_objetos s fin mx p acc = acc"
  by (subst parsear_objetos.simps) simp

lemma no_en_take: "c \<notin> set v \<Longrightarrow> c \<notin> set (take n v)"
  by (meson in_set_takeD)

lemma length_json_objeto: "enviable u \<Longrightarrow> 59 \<le> length (json_objeto u)"
  using enviable_largo(5,6) [of u] by (cases "codigo u") (simp_all add: json_objeto_def)

lemma parsear_objetos_prefijo:
  assumes "list_all enviable us" and "drop p s = take m (pre @ json_lista us @ '']}'' @ post)"
    and "CHR ''{'' \<notin> set pre" and "CHR ''{'' \<notin> set post"
  shows "\<exists>j. parsear_objetos s fin mx p acc = acc @ take j us \<and> 59 * j \<le> length s - p"
  using assms
proof (induction us arbitrary: p m pre acc)
  case Nil
  then have "CHR ''{'' \<notin> set (drop p s)" using no_en_take [of "CHR ''{''" "pre @ '']}'' @ post" m] by auto
  then show ?case by (auto simp: parsear_objetos_sin strchr_at_def strchr_None intro!: exI [of _ 0])
next
  case (Cons u us)
  define k where "k = m - length pre"
  define q where "q = p + length pre"
  define r where "r = (if us = [] then [] else '','' @ json_lista us) @ '']}'' @ post"
  have u: "enviable u" using Cons.prems by simp
  have dp: "drop p s = take m pre @ take k (json_objeto u @ r)"
    using Cons.prems(2) by (simp add: k_def r_def json_lista_Cons)
  show ?case
  proof (cases "k = 0")
    case True
    with dp Cons.prems(3) have "CHR ''{'' \<notin> set (drop p s)" using no_en_take [of _ pre m] by simp
    then show ?thesis by (auto simp: parsear_objetos_sin strchr_at_def strchr_None intro!: exI [of _ 0])
  next
    case k: False
    then have pre: "take m pre = pre" by (simp add: k_def)
    have dq: "drop q s = take k (json_objeto u @ r)"
      using arg_cong [OF dp, of "drop (length pre)"] by (simp add: q_def pre add.commute)
    have q: "strchr_at s p (CHR ''{'') = Some q"
      using dp pre Cons.prems(3) k by (cases k) (simp_all add: strchr_at_def strchr_skip q_def json_objeto_def)
    show ?thesis
    proof (cases "k < length (json_objeto u)")
      case True
      have "CHR ''}'' \<notin> set (take (length (json_objeto u) - 1) (json_objeto u))"
        using strchr_Some [OF strchr_json_objeto(2) [OF u, of "[]"]] by simp
      moreover have "take k (json_objeto u) = take k (take (length (json_objeto u) - 1) (json_objeto u))"
        using True by (simp add: min_def)
      ultimately have "CHR ''}'' \<notin> set (take k (json_objeto u))" using no_en_take by metis
      with True dq have "strchr_at s q (CHR ''}'') = None" by (simp add: strchr_at_def strchr_None)
      then show ?thesis by (subst parsear_objetos.simps) (auto simp: q intro!: exI [of _ 0])
    next
      case False
      have dq': "drop q s = json_objeto u @ take (k - length (json_objeto u)) r" using dq False by simp
      have len: "0 < length (json_objeto u)" by (simp add: json_objeto_def)
      define e where "e = q + (length (json_objeto u) - 1)"
      have e: "strchr_at s q (CHR ''}'') = Some e"
        using strchr_json_objeto(2) [OF u] by (simp add: strchr_at_def dq' e_def)
      have Suc_e: "Suc e = q + length (json_objeto u)" using len by (simp add: e_def)
      have pu: "parsear_objeto s q e = u" by (rule parsear_json_objeto [OF u dq' Suc_e])
      have "\<exists>j. parsear_objetos s fin mx (Suc e) (acc @ [u]) = (acc @ [u]) @ take j us \<and> 59 * j \<le> length s - Suc e"
      proof (rule Cons.IH [where pre = "if us = [] then [] else '',''"])
        show "drop (Suc e) s = take (k - length (json_objeto u)) ((if us = [] then [] else '','') @ json_lista us @ '']}'' @ post)"
          using arg_cong [OF dq', of "drop (length (json_objeto u))"]
          by (simp add: Suc_e r_def add.commute del: take_append)
      qed (use Cons.prems in simp_all)
      then obtain j where j: "parsear_objetos s fin mx (Suc e) (acc @ [u]) = acc @ take (Suc j) (u # us)"
        "59 * j \<le> length s - Suc e" by auto
      have "length (json_objeto u) \<le> length s - q"
        using arg_cong [OF dq', of length] by simp
      then have "59 * Suc j \<le> length s - p"
        using j(2) Suc_e length_json_objeto [OF u] by (simp add: q_def)
      with j(1) show ?thesis
        using enviable_largo(6) [OF u]
        by (subst parsear_objetos.simps) (auto simp: q e pu Let_def intro: exI [of _ "Suc j"] exI [of _ 0])
    qed
  qed
qed

lemma extraer_prefijo:
  assumes "list_all enviable us" and "CHR ''{'' \<notin> set pre" and "CHR ''{'' \<notin> set post"
  shows "\<exists>j. extraer_usuarios (take n (pre @ json_usuarios us @ post)) mx = take j us \<and> 59 * j \<le> n"
proof -
  let ?s = "take n (pre @ json_usuarios us @ post)"
  define a where "a = length pre"
  define D where "D = CHR ''{'' # QUOTE # ''pins'' @ QUOTE # '':['' @ json_lista us @ '']}'' @ post"
  have s: "?s = take n (pre @ D)" by (simp add: D_def json_usuarios_def)
  show ?thesis
  proof (cases "strchr ?s (CHR ''{'')")
    case None
    then show ?thesis by (auto simp: extraer_usuarios_def intro: exI [of _ 0])
  next
    case (Some i)
    have "a < n"
    proof (rule ccontr)
      assume "\<not> a < n"
      then have "CHR ''{'' \<notin> set ?s" using no_en_take [OF assms(2), of n] by (simp add: a_def)
      with Some show False using strchr_None [of ?s "CHR ''{''"] by simp
    qed
    then obtain m where n: "n = Suc (a + m)" using less_imp_Suc_add by blast
    have s': "?s = pre @ take (Suc m) D" unfolding s by (simp add: n a_def)
    have i: "i = a" using Some [unfolded s'] assms(2) by (simp add: a_def strchr_skip D_def)
    have da: "drop a ?s = take (Suc m) D" unfolding s' a_def by simp
    have "\<exists>j. parsearJSONPins ?s a l mx = take j us \<and> 59 * j \<le> n" for l
    proof (cases "9 \<le> Suc m")
      case False
      then have "m \<in> {0, 1, 2, 3, 4, 5, 6, 7}" by auto
      then have "CHR ''['' \<notin> set (drop a ?s)" unfolding da D_def by (auto simp: numeral_eq_Suc)
      then have "strchr_at ?s k (CHR ''['') = None" if "a \<le> k" for k
        using that set_drop_subset_set_drop [of a k ?s] by (auto simp: strchr_at_def strchr_None)
      moreover have "strstr_at ?s a pat = Some k \<Longrightarrow> a \<le> k" for pat k by (auto simp: strstr_at_def)
      ultimately show ?thesis
        unfolding parsearJSONPins_def Let_def by (auto split: option.splits intro: exI [of _ 0])
    next
      case True
      define m' where "m' = Suc m - 9"
      with True have m: "Suc m = 9 + m'" by simp
      let ?R = "json_lista us @ '']}'' @ post"
      have dR: "drop a ?s = CHR ''{'' # QUOTE # ''pins'' @ QUOTE # '':['' @ take m' ?R"
        unfolding da m D_def by (simp add: numeral_eq_Suc del: take_append)
      have k: "strstr_at ?s a (entre_comillas ''pins'') = Some (Suc a)"
        unfolding strstr_at_def dR by (simp add: entre_comillas_def)
      have "drop (Suc a) ?s = QUOTE # ''pins'' @ QUOTE # '':['' @ take m' ?R"
        using arg_cong [OF dR, of tl] by (simp only: drop_Suc tl_drop list.sel)
      then have c: "strchr_at ?s (Suc a) (CHR ''['') = Some (a + 8)"
        unfolding strchr_at_def by simp
      have "drop (a + 9) ?s = take m' ([] @ ?R)"
        using arg_cong [OF dR, of "drop 9"] by (simp add: add.commute del: drop_append take_append)
      from parsear_objetos_prefijo [OF assms(1) this _ assms(3), of "a + l" mx "[]"]
      obtain j where "parsear_objetos ?s (a + l) mx (a + 9) [] = take j us" "59 * j \<le> length ?s - (a + 9)"
        by auto
      moreover from this(2) have "59 * j \<le> n" by simp
      ultimately show ?thesis
        unfolding parsearJSONPins_def Let_def k c option.case
        by (auto simp: add.commute [of 9] intro: exI [of _ 0])
    qed
    then show ?thesis
      unfolding extraer_usuarios_def Some option.case i by (auto split: option.splits intro: exI [of _ 0])
  qed
qed

section \<open>Properties\<close>


text \<open>C15: The lock and the server stay together. When the PINs of the server's rows are distinct and the lock
  holds the server's table, then each change of the lock (card, fingerprint, deletion, deletion of all) gives the table
  the lock would receive after the request that reports the change.\<close>

theorem cambios_coherentes:
  assumes "distinct (map f_codigo (usuarios s))" and "us = tabla_de (lista_usuarios s)" and "validarPin us pin"
    and "pin \<noteq> []" and "h \<noteq> []" and "length h \<le> 4" and "r \<noteq> []" and "length r < 20"
  shows "asociarHuellaaPin us pin h = (True, tabla_de (lista_usuarios (snd (update_huella_endpoint t (Some pin) (Some h) s)))) \<and>
    asociarRFIDaPin us pin r = Inr (True, tabla_de (lista_usuarios (snd (update_rfid_endpoint t (Some pin) (Some r) s)))) \<and>
    eliminarHuellaLocal us pin = (True, tabla_de (lista_usuarios (snd (delete_huella_endpoint t (Some pin) s)))) \<and>
    eliminarTodasHuellasLocal us = tabla_de (lista_usuarios (snd (clear_all_huellas_endpoint t s)))"
proof -
  note d = codigos_tabla_de [OF assms(1), folded assms(2)]
  have e: "existe pin s" using assms(2,3) valida_existe by blast
  have h: "lista_usuarios (actualizar (\<lambda>r. f_codigo r = pin) (\<lambda>r. r\<lparr>f_huella := x\<rparr>) s) =
      map (\<lambda>u. if es_pin pin u then u\<lparr>huella := x\<rparr> else u) (lista_usuarios s)" for x
    by (rule lista_actualizar) (simp_all add: usuario_json_def)
  have rf: "lista_usuarios (actualizar (\<lambda>r. f_codigo r = pin) (\<lambda>r. r\<lparr>f_rfid := x\<rparr>) s) =
      map (\<lambda>u. if es_pin pin u then u\<lparr>rfid := x\<rparr> else u) (lista_usuarios s)" for x
    by (rule lista_actualizar) (simp_all add: usuario_json_def)
  have t: "eliminarTodasHuellasLocal us = tabla_de (lista_usuarios (snd (clear_all_huellas_endpoint t s)))"
    by (simp add: assms(2) eliminarTodasHuellasLocal_def clear_all_huellas_endpoint_def tabla_de_def lista_usuarios_def
        actualizar_def usuario_json_def usuario_cero_def notificar_cambio_def filter_map o_def)
  show ?thesis
    using assms(4-8) e t cerradura_map [OF d assms(3)] 
    by (simp add: update_huella_endpoint_def update_rfid_endpoint_def delete_huella_endpoint_def falta_def h rf
        tabla_de_map flip: assms(2))
qed




theorem cambios_coherentes_witness:
  "let s = atender_todas (\<lambda>_. []) [(Fin 1, PanelPost (Some ''12345'') (Some ''ana'') (Some []) (Some []))] (init_db servidor0)
   in asociarHuellaaPin (tabla_de (lista_usuarios s)) ''12345'' ''0007'' =
        (True, tabla_de (lista_usuarios (snd (update_huella_endpoint (Fin 2) (Some ''12345'') (Some ''0007'') s))))"
proof -
  let ?s = "atender_todas (\<lambda>_. []) [(Fin 1, PanelPost (Some ''12345'') (Some ''ana'') (Some []) (Some []))] (init_db servidor0)"
  have s: "usuarios ?s = [\<lparr>f_id = 1, f_codigo = ''11111'', f_activo = 1, f_rfid = [], f_huella = [], f_tag = ''ADMIN''\<rparr>,
      \<lparr>f_id = 2, f_codigo = ''12345'', f_activo = 1, f_rfid = [], f_huella = [], f_tag = ''ana''\<rparr>]"
    by (simp add: atender_todas_def atender_def panel_post_def existe_def insertar_def init_db_def servidor0_def notificar_cambio_def)
  have d: "distinct (map f_codigo (usuarios ?s))" by (simp add: s)
  have v: "validarPin (tabla_de (lista_usuarios ?s)) ''12345''"
    by (simp add: s lista_usuarios_def tabla_de_def usuario_json_def es_pin_def)
  show ?thesis
    unfolding Let_def by (rule cambios_coherentes [OF d refl v, of _ "''AB''", THEN conjunct1]) simp_all
qed

text \<open>The form for the administrator's PIN does not look for another user with that PIN.\<close>

lemma pin_admin_duplicado:
  "\<not> distinct (map f_codigo (usuarios (atender_todas js
     [(Fin 1, PanelPost (Some ''12345'') (Some ''ana'') (Some []) (Some [])), (Fin 2, UpdateAdminPin (Some ''12345''))]
     (init_db servidor0))))"
  by (simp add: atender_todas_def atender_def panel_post_def update_admin_pin_def actualizar_def existe_def insertar_def
      init_db_def servidor0_def notificar_cambio_def isdigit_def is_digit_def)

end
