(* ===== verification/Sincronizacion.thy ===== *)
theory Sincronizacion
  imports Servidor Mef_Posible
begin

text \<open>
  The lock and the server together: when the answer the WiFi module hands over
  contains the document the server writes, the table of the lock becomes the list
  of the server, in every environment.
\<close>

section \<open>The request inside the synchronisation\<close>

definition pedir_pins :: "(u8 list option, 'z) vprog" where
  "pedir_pins =
     bind (block [display_clear, display_println ''SINCRONIZANDO...'' 20, display_update]) (\<lambda>_.
     espHTTPGetViaAT ''/syncPins/?allPins=true'' 2048)"

text \<open>What follows it, with the users read from the answer.\<close>

definition guardar_pins :: "PinUsuario list \<Rightarrow> (u8, 'z) vprog" where
  "guardar_pins rs =
     bind display_clear (\<lambda>_.
     bind (if 0 < length rs then
             bind (sobre_tabla (\<lambda>_. map_sum id (Pair ()) (actualizarBaseDeDatos
               (rs @ replicate (MAX_PINS - length rs) usuario_cero) (int (length rs))))) (\<lambda>_.
             bind (display_println ''SYNC COMPLETADA'' 20) (\<lambda>_.
             bind (store_str 20 (''USUARIOS: '' @ fmt_d (int (length rs)))) (\<lambda>buff.
             bind (display_println buff 40) (\<lambda>_. ret 0))))
           else
             bind (block [display_println ''ERROR DE SYNC'' 20, display_println ''MANTENIENDO DB'' 40]) (\<lambda>_.
             ret 1)) (\<lambda>valor.
     bind (block [display_update, delay 1000, display_clear]) (\<lambda>_.
     ret valor)))"

definition leidos :: "u8 list option \<Rightarrow> PinUsuario list" where
  "leidos r = (case r of None \<Rightarrow> [] | Some rs \<Rightarrow> extraer_usuarios (cstr rs) MAX_PINS)"

lemma espHTTPGetPins_leidos:
  "espHTTPGetPins MAX_PINS = bind (espHTTPGetViaAT ''/syncPins/?allPins=true'' 2048) (\<lambda>r. ret (leidos r))"
  unfolding espHTTPGetPins_def leidos_def
  by (subst if_not_P, simp add: MAX_PINS_def) (rule arg_cong [where f = "bind _"], rule ext, simp split: option.split)

lemma sincronizar_partes: "sincronizarConServidor = bind pedir_pins (\<lambda>r. guardar_pins (leidos r))"
  unfolding sincronizarConServidor_def pedir_pins_def guardar_pins_def espHTTPGetPins_leidos
  by (simp only: bind_assoc bind_ret)

section \<open>Texts that need no escape\<close>

definition imprimible :: "PinUsuario \<Rightarrow> bool" where
  "imprimible u \<longleftrightarrow> list_all (list_all (\<lambda>c. 32 \<le> (of_char c :: nat) \<and> (of_char c :: nat) \<le> 126 \<and> of_char c \<noteq> (92 :: nat)))
     [codigo u, rfid u, huella u, tag u]"

lemma escapado_id: "enviable u \<Longrightarrow> imprimible u \<Longrightarrow> escapado u = u"
proof -
  assume u: "enviable u" "imprimible u"
  have q: "(char_of (34 :: nat) :: char) = QUOTE" by code_simp
  have "concat (map escapar t) = t" if "t \<in> {codigo u, rfid u, huella u, tag u}" for t
  proof -
    have "escapar c = [c]" if "c \<in> set t" for c
    proof -
      have "c \<noteq> QUOTE" using enviableD(1) [OF u(1) \<open>t \<in> _\<close>] that by auto
      moreover have "c = QUOTE" if "of_char c = (34 :: nat)"
        using that q by (metis char_of_char)
      ultimately have "of_char c \<noteq> (34 :: nat)" by blast
      then show ?thesis using u(2) that \<open>t \<in> _\<close> by (auto simp: escapar_def imprimible_def list_all_iff Let_def)
    qed
    then have "map escapar t = map (\<lambda>c. [c]) t" by simp
    then show ?thesis by (simp only: concat_map_singleton map_ident)
  qed
  then show ?thesis by (simp add: escapado_def)
qed

section \<open>An environment in which it happens\<close>

lemma calla_guardar: "calla (guardar_pins rs)"
  unfolding guardar_pins_def
  by (intro calla_bind calla_If calla_basic calla_store calla_disp calla_block calla_sobre_tabla)
    (auto intro: calla_disp calla_basic)

lemma puede_pedir:
  assumes "length bs < 2047" and "bs \<noteq> []" and "CHR 0x7B \<in> set (cstr bs)"
  shows "puede vivo pedir_pins (\<lambda>r w. vivo w \<and> r = Some bs)"
proof -
  have "calla (block [display_clear, display_println ''SINCRONIZANDO...'' 20, display_update])"
    by (intro calla_block) (auto intro: calla_disp)
  then show ?thesis
    unfolding pedir_pins_def espHTTPGetViaAT_def
    by (rule calla_puede, intro puede_bind [OF puede_AT [of bs]])
      (use assms in \<open>auto intro!: puede_dado puede_ret puede_False simp: strchr_None\<close>)
qed

lemma safe_pedir: "safe E pedir_pins"
  unfolding pedir_pins_def
  by (intro keeps_bind keeps_block safe_espHTTP) (auto intro!: safe_disp(1,2) safe_print)

lemma byte_char_of_char: "byte_char (of_char c :: u8) = c"
proof -
  have "unat (of_nat (of_char c) :: u8) = (of_char c :: nat)"
    by (simp add: unat_of_nat take_bit_nat_eq_self)
  then show ?thesis by (simp add: byte_char_def of_nat_of_char)
qed


lemma cstr_bytes: "NUL \<notin> set t \<Longrightarrow> cstr (map of_char t) = t"
  unfolding cstr_def by (auto simp: o_def byte_char_of_char takeWhile_eq_all_conv)

text \<open>A run that receives any text, and does not end before it has returned.\<close>

lemma sincronizar_posible:
  assumes "vivo w" and "length t < 2047" and "NUL \<notin> set t" and "CHR 0x7B \<in> set t"
  shows "\<exists>sc w1. pedir_pins (w\<lparr>script := sc\<rparr>) = Ret (Some (map of_char t)) w1 \<and>
     \<not> (\<exists>w2. sincronizarConServidor (w\<lparr>script := sc\<rparr>) = More w2)"
proof -
  let ?K = "\<lambda>r w'. r = Some (map of_char t) \<and> llega (\<lambda>_ _. True) (guardar_pins (leidos r) w')"
  have "\<exists>sc. llega ?K (pedir_pins (w\<lparr>script := sc\<rparr>))"
  proof (rule puedeD [OF puede_pedir [of "map of_char t"] assms(1)])
    fix r :: "u8 list option" and w' :: "'a val_scheme"
    assume "vivo w' \<and> r = Some (map of_char t)"
    moreover from this have "\<exists>s. llega (\<lambda>_ _. True) (guardar_pins (leidos r) (w'\<lparr>script := s\<rparr>))"
      by (intro puedeD [OF calla_guardar [unfolded calla_def]]) auto
    ultimately show "\<exists>s. ?K r (w'\<lparr>script := s\<rparr>)" by blast
  qed (use assms cstr_bytes [OF assms(3)] in auto)
  then obtain sc where sc: "llega ?K (pedir_pins (w\<lparr>script := sc\<rparr>))" ..
  with keepsD [OF safe_pedir [of "{}"], of "w\<lparr>script := sc\<rparr>"]
  obtain w1 where "pedir_pins (w\<lparr>script := sc\<rparr>) = Ret (Some (map of_char t)) w1"
    "llega (\<lambda>_ _. True) (guardar_pins (leidos (Some (map of_char t))) w1)"
    by (cases "pedir_pins (w\<lparr>script := sc\<rparr>)") (auto simp: llega_def)
  then show ?thesis
    unfolding sincronizar_partes
    by (intro exI [of _ sc] exI [of _ w1]) (auto simp: bind_apply llega_def)
qed

section \<open>Properties\<close>

text \<open>C14: The synchronisation delivers the server's list. In every environment in which the answer to the request
  contains the document \<^verbatim>\<open>sync_pins\<close> writes (at most 99 users, whose texts fit the table and need no escape), with any
  text without an opening brace before it and without a closing brace after it, \<^verbatim>\<open>sincronizarConServidor\<close> has no
  undefined behaviour, returns 0, and the table is the list of the server's active users followed by empty entries.\<close>

theorem sincronizacion_fiel:
  assumes "pedir_pins w = Ret (Some rs) w1" and "cstr rs = pre @ doc @ post" and "sync_pins s = Json doc"
    and "list_all (\<lambda>u. enviable u \<and> imprimible u) (lista_usuarios s)" and "lista_usuarios s \<noteq> []"
    and "length (lista_usuarios s) \<le> MAX_PINS" and "CHR ''{'' \<notin> set pre" and "CHR ''}'' \<notin> set post"
  shows "sat {} (\<lambda>valor w'. valor = 0 \<and> listaPins w' = tabla_de (lista_usuarios s)) (\<lambda>_. True) (sincronizarConServidor w)"
proof -
  have "map escapado (lista_usuarios s) = lista_usuarios s"
    using assms(4) by (intro map_idI escapado_id) (auto simp: list_all_iff)
  then have doc: "doc = json_usuarios (lista_usuarios s)" using assms(3) by (simp add: sync_pins_def)
  have "leidos (Some rs) = lista_usuarios s"
    unfolding leidos_def option.case assms(2) doc
    using assms(4-8) by (intro extraer_json) (auto simp: list_all_iff)
  then have "sincronizarConServidor w = guardar_pins (lista_usuarios s) w1"
    unfolding sincronizar_partes by (simp add: bind_apply assms(1))
  then show ?thesis
    using sincronizar_resto [OF assms(6), of "{}" w1] assms(5) by (simp add: guardar_pins_def)
qed


theorem sincronizacion_fiel_witness:
  "\<exists>w w' :: mef. sincronizarConServidor w = Ret 0 w' \<and> listaPins w \<noteq> listaPins w' \<and>
     listaPins w' = tabla_de (lista_usuarios (init_db servidor0))"
proof -
  let ?s = "init_db servidor0"
  let ?u = "\<lparr>codigo = ''11111'', activo = True, rfid = [], huella = [], tag = ''ADMIN''\<rparr>"
  have l: "lista_usuarios ?s = [?u]"
    by (simp add: lista_usuarios_def init_db_def servidor0_def insertar_def usuario_json_def)
  have e: "enviable ?u" "imprimible ?u"
    by (simp_all add: enviable_def wf_usuario_def PIN_LENGTH_def claves_def imprimible_def)
  let ?d = "json_usuarios [?u]"
  have d: "sync_pins ?s = Json ?d" using escapado_id [OF e] by (simp add: sync_pins_def l)
  have n: "NUL \<notin> set ?d" "CHR 0x7B \<in> set ?d" "length ?d < 2047"
    by (simp_all add: json_usuarios_def json_objeto_def)
  define w where "w = (mef0 [])\<lparr>sysTickOn := True, sysTickInt := True\<rparr>"
  have v: "vivo w" by (simp add: w_def mef0_def hw0_def con_bytes_def)
  obtain sc w1 where p: "pedir_pins (w\<lparr>script := sc\<rparr>) = Ret (Some (map of_char ?d)) w1"
    and m: "\<not> (\<exists>w2. sincronizarConServidor (w\<lparr>script := sc\<rparr>) = More w2)"
    using sincronizar_posible [OF v n(3,1,2)] by blast
  have "sat {} (\<lambda>valor w'. valor = 0 \<and> listaPins w' = tabla_de (lista_usuarios ?s)) (\<lambda>_. True)
      (sincronizarConServidor (w\<lparr>script := sc\<rparr>))"
    by (rule sincronizacion_fiel [OF p, where pre = "[]" and post = "[]" and doc = ?d])
      (use cstr_bytes [OF n(1)] d e in \<open>simp_all add: l MAX_PINS_def\<close>)
  with m obtain w' where "sincronizarConServidor (w\<lparr>script := sc\<rparr>) = Ret 0 w'" "listaPins w' = tabla_de (lista_usuarios ?s)"
    by (cases "sincronizarConServidor (w\<lparr>script := sc\<rparr>)") auto
  moreover have "listaPins (w\<lparr>script := sc\<rparr>) \<noteq> tabla_de (lista_usuarios ?s)"
    by (simp add: w_def mef0_def hw0_def l tabla_de_def listaPins_init_def)
  ultimately show ?thesis by metis
qed

end
