(* ===== verification/Sapi_Buffer.thy ===== *)
theory Sapi_Buffer
  imports Sapi
begin

text \<open>
  The circular buffer of sAPI (\<^verbatim>\<open>sapi_circularBuffer.c\<close>), and the contract of a
  bounded queue as a locale.

  The memory of the module is the buffers by address, the two static flags (which
  are shared by all buffers) and the log of the callbacks it has called. A callback
  pointer that was never set is \<open>None\<close>; calling it is undefined. The copy loops
  count in an \<^verbatim>\<open>uint8_t\<close>, so elements of 256 bytes or more are copied for ever.
\<close>

section \<open>State\<close>

datatype circularBufferStatus_t = CIRCULAR_BUFFER_NORMAL | CIRCULAR_BUFFER_EMPTY | CIRCULAR_BUFFER_FULL

record 'f circularBuffer_t =
  memoryAddress :: "u8 list"
  amountOfElements :: u32
  elementSize :: u32
  readIndex :: u32
  writeIndex :: u32
  status :: circularBufferStatus_t
  emptyBufferCallback :: "'f option"
  fullBufferCalback :: "'f option"

record 'f cb_mem =
  bufs :: "nat \<Rightarrow> 'f circularBuffer_t"
  isSetEmptyBufferCallback :: bool
  isSetFullBufferCallback :: bool
  llamadas :: "'f list"  \<comment> \<open>callbacks called, newest first\<close>

type_synonym ('a, 'f) cbprog = "('a, 'f cb_mem) prog"

section \<open>Operations\<close>

definition en_buffer :: "nat \<Rightarrow> ('f circularBuffer_t \<Rightarrow> 'f circularBuffer_t) \<Rightarrow> (unit, 'f) cbprog" where
  "en_buffer b f = modify (\<lambda>m. m\<lparr>bufs := (bufs m)(b := f (bufs m b))\<rparr>)"

definition circularBuffer_Init :: "nat \<Rightarrow> u8 list \<Rightarrow> u32 \<Rightarrow> u32 \<Rightarrow> (unit, 'f) cbprog" where
  "circularBuffer_Init b bufferMemory amount tam = en_buffer b (\<lambda>buffer. buffer\<lparr>
     memoryAddress := bufferMemory, amountOfElements := amount + 1, elementSize := tam,
     readIndex := 0, writeIndex := 0, status := CIRCULAR_BUFFER_EMPTY\<rparr>)"

definition circularBufferEmptyBufferCallbackSet :: "nat \<Rightarrow> 'f option \<Rightarrow> (unit, 'f) cbprog" where
  "circularBufferEmptyBufferCallbackSet b cb =
     (if cb \<noteq> None then block [
        en_buffer b (\<lambda>buffer. buffer\<lparr>emptyBufferCallback := cb\<rparr>),
        modify (\<lambda>m. m\<lparr>isSetEmptyBufferCallback := True\<rparr>)]
      else ret ())"

definition circularBufferFullBufferCallbackSet :: "nat \<Rightarrow> 'f option \<Rightarrow> (unit, 'f) cbprog" where
  "circularBufferFullBufferCallbackSet b cb =
     (if cb \<noteq> None then block [
        en_buffer b (\<lambda>buffer. buffer\<lparr>fullBufferCalback := cb\<rparr>),
        modify (\<lambda>m. m\<lparr>isSetFullBufferCallback := True\<rparr>)]
      else ret ())"

definition llamar :: "'f option \<Rightarrow> (unit, 'f) cbprog" where
  "llamar cb = (case cb of None \<Rightarrow> fault Uninitialised | Some f \<Rightarrow> modify (\<lambda>m. m\<lparr>llamadas := f # llamadas m\<rparr>))"

text \<open>The addresses a copy loop touches, and the two loops.\<close>

definition indices :: "u32 \<Rightarrow> u32 \<Rightarrow> nat list" where
  "indices i n = map (\<lambda>k. unat (i + of_nat k)) [0..<unat n]"

definition copiar_de :: "u8 list \<Rightarrow> u32 \<Rightarrow> u32 \<Rightarrow> (u8 list, 'f) cbprog" where
  "copiar_de mem i n =
     (if 256 \<le> unat n then Hang
      else if list_all (\<lambda>j. j < length mem) (indices i n) then ret (map (\<lambda>j. mem ! j) (indices i n))
      else fault OutOfBounds)"

definition copiar_a :: "u8 list \<Rightarrow> u32 \<Rightarrow> u32 \<Rightarrow> u8 list \<Rightarrow> (u8 list, 'f) cbprog" where
  "copiar_a mem i n datos =
     (if 256 \<le> unat n then Hang
      else if length datos < unat n then fault OutOfBounds
      else if list_all (\<lambda>j. j < length mem) (indices i n)
      then ret (fold (\<lambda>(j, x) m. m[j := x]) (zip (indices i n) datos) mem)
      else fault BufferOverflow)"

text \<open>An index advanced by one element.\<close>

definition siguiente :: "'f circularBuffer_t \<Rightarrow> u32 \<Rightarrow> (u32, 'f) cbprog" where
  "siguiente buffer i =
     (let total = amountOfElements buffer * elementSize buffer in
      if total = 0 then fault DivByZero else ret ((i + elementSize buffer) mod total))"

text \<open>The status and the bytes written to \<^verbatim>\<open>dataByte\<close>.\<close>

definition circularBufferRead :: "nat \<Rightarrow> (circularBufferStatus_t \<times> u8 list, 'f) cbprog" where
  "circularBufferRead b =
     bind (gets (\<lambda>m. bufs m b)) (\<lambda>buffer.
     if readIndex buffer = writeIndex buffer then
       bind (en_buffer b (\<lambda>buffer. buffer\<lparr>status := CIRCULAR_BUFFER_EMPTY\<rparr>)) (\<lambda>_.
       bind (gets isSetEmptyBufferCallback) (\<lambda>isSet.
       bind (if isSet then llamar (emptyBufferCallback buffer) else ret ()) (\<lambda>_.
       ret (CIRCULAR_BUFFER_EMPTY, []))))
     else
       bind (en_buffer b (\<lambda>buffer. buffer\<lparr>status := CIRCULAR_BUFFER_NORMAL\<rparr>)) (\<lambda>_.
       bind (copiar_de (memoryAddress buffer) (readIndex buffer) (elementSize buffer)) (\<lambda>dataByte.
       bind (siguiente buffer (readIndex buffer)) (\<lambda>i.
       bind (en_buffer b (\<lambda>buffer. buffer\<lparr>readIndex := i\<rparr>)) (\<lambda>_.
       ret (CIRCULAR_BUFFER_NORMAL, dataByte))))))"

definition circularBufferWrite :: "nat \<Rightarrow> u8 list \<Rightarrow> (circularBufferStatus_t, 'f) cbprog" where
  "circularBufferWrite b dataByte =
     bind (gets (\<lambda>m. bufs m b)) (\<lambda>buffer.
     bind (siguiente buffer (writeIndex buffer)) (\<lambda>i.
     if i = readIndex buffer then
       bind (en_buffer b (\<lambda>buffer. buffer\<lparr>status := CIRCULAR_BUFFER_FULL\<rparr>)) (\<lambda>_.
       bind (gets isSetFullBufferCallback) (\<lambda>isSet.
       bind (if isSet then llamar (fullBufferCalback buffer) else ret ()) (\<lambda>_.
       ret CIRCULAR_BUFFER_FULL)))
     else
       bind (en_buffer b (\<lambda>buffer. buffer\<lparr>status := CIRCULAR_BUFFER_NORMAL\<rparr>)) (\<lambda>_.
       bind (copiar_a (memoryAddress buffer) (writeIndex buffer) (elementSize buffer) dataByte) (\<lambda>mem.
       bind (en_buffer b (\<lambda>buffer. buffer\<lparr>memoryAddress := mem, writeIndex := i\<rparr>)) (\<lambda>_.
       ret CIRCULAR_BUFFER_NORMAL)))))"

section \<open>The contract of a bounded queue\<close>

datatype 'e cola_op = Poner 'e | Sacar

text \<open>What an operation answers: whether the element was taken, or the element that came out.\<close>

datatype 'e cola_res = Puesto bool | Sacado "'e option"

fun cola_paso :: "nat \<Rightarrow> 'e cola_op \<Rightarrow> 'e list \<Rightarrow> 'e cola_res \<times> 'e list" where
  "cola_paso cap (Poner x) q = (if length q < cap then (Puesto True, q @ [x]) else (Puesto False, q))"
| "cola_paso cap Sacar q = (case q of [] \<Rightarrow> (Sacado None, []) | x # xs \<Rightarrow> (Sacado (Some x), xs))"

primrec ejecutar :: "('o \<Rightarrow> 's \<Rightarrow> 'r \<times> 's) \<Rightarrow> 'o list \<Rightarrow> 's \<Rightarrow> 'r list \<times> 's" where
  "ejecutar paso [] s = ([], s)"
| "ejecutar paso (x # xs) s = (let (r, s') = paso x s; (rs, t) = ejecutar paso xs s' in (r # rs, t))"

text \<open>The elements a history of operations has put and taken.\<close>

fun puestos :: "'e cola_op list \<Rightarrow> 'e cola_res list \<Rightarrow> 'e list" where
  "puestos (Poner x # xs) (Puesto True # rs) = x # puestos xs rs"
| "puestos (_ # xs) (_ # rs) = puestos xs rs"
| "puestos _ _ = []"

fun sacados :: "'e cola_res list \<Rightarrow> 'e list" where
  "sacados (Sacado (Some x) # rs) = x # sacados rs"
| "sacados (_ # rs) = sacados rs"
| "sacados [] = []"

locale cola_acotada =
  fixes inv :: "'q \<Rightarrow> bool" and apta :: "'e cola_op \<Rightarrow> bool" and cap :: nat
    and abs :: "'q \<Rightarrow> 'e list" and paso :: "'e cola_op \<Rightarrow> 'q \<Rightarrow> 'e cola_res \<times> 'q"
  assumes inv_paso: "inv q \<Longrightarrow> apta x \<Longrightarrow> inv (snd (paso x q))"
    and abs_paso: "inv q \<Longrightarrow> apta x \<Longrightarrow> (fst (paso x q), abs (snd (paso x q))) = cola_paso cap x (abs q)"
    and abs_cap: "inv q \<Longrightarrow> length (abs q) \<le> cap"
begin

lemma refina:
  assumes "inv q" and "list_all apta xs"
  shows "(fst (ejecutar paso xs q), abs (snd (ejecutar paso xs q))) = ejecutar (cola_paso cap) xs (abs q) \<and>
     inv (snd (ejecutar paso xs q))"
  using assms
proof (induction xs arbitrary: q)
  case (Cons x xs)
  let ?q = "snd (paso x q)"
  have "inv ?q" using Cons.prems by (simp add: inv_paso)
  moreover have "cola_paso cap x (abs q) = (fst (paso x q), abs ?q)" using abs_paso Cons.prems by simp
  ultimately show ?case
    using Cons.IH [of ?q] Cons.prems(2) by (auto simp: case_prod_beta Let_def prod_eq_iff)
qed simp

text \<open>What came out, then what is inside, is what was inside, then what was put.\<close>

lemma orden:
  assumes "inv q" and "list_all apta xs"
  shows "sacados (fst (ejecutar paso xs q)) @ abs (snd (ejecutar paso xs q)) =
     abs q @ puestos xs (fst (ejecutar paso xs q))"
  using assms
proof (induction xs arbitrary: q)
  case (Cons x xs)
  let ?q = "snd (paso x q)"
  have i: "inv ?q" using Cons.prems by (simp add: inv_paso)
  have "(fst (paso x q), abs ?q) = cola_paso cap x (abs q)" using abs_paso Cons.prems by simp
  then show ?case
    using Cons.IH [OF i] Cons.prems(2)
    by (cases x; cases "abs q") (auto simp: case_prod_beta Let_def split: if_splits)
qed simp

end


section \<open>The buffer as a queue\<close>

text \<open>
  A buffer of \<open>n\<close> elements of \<open>t\<close> bytes with its indices at the elements \<open>r\<close> and \<open>w\<close>. One
  element of the memory stays free.
\<close>

definition cb_en :: "nat \<Rightarrow> nat \<Rightarrow> nat \<Rightarrow> nat \<Rightarrow> 'f circularBuffer_t \<Rightarrow> bool" where
  "cb_en n t r w buffer \<longleftrightarrow> 0 < t \<and> t < 256 \<and> Suc n * t < 2 ^ 32 \<and> r \<le> n \<and> w \<le> n \<and>
     amountOfElements buffer = of_nat (Suc n) \<and> elementSize buffer = of_nat t \<and>
     length (memoryAddress buffer) = Suc n * t \<and> readIndex buffer = of_nat (r * t) \<and> writeIndex buffer = of_nat (w * t)"

definition ranura :: "nat \<Rightarrow> u8 list \<Rightarrow> nat \<Rightarrow> u8 list" where
  "ranura t mem k = take t (drop (k * t) mem)"

definition ocupados :: "nat \<Rightarrow> nat \<Rightarrow> nat \<Rightarrow> nat" where
  "ocupados n r w = (w + Suc n - r) mod Suc n"

definition cb_cola :: "nat \<Rightarrow> nat \<Rightarrow> nat \<Rightarrow> nat \<Rightarrow> u8 list \<Rightarrow> u8 list list" where
  "cb_cola n t r w mem = map (\<lambda>k. ranura t mem ((r + k) mod Suc n)) [0..<ocupados n r w]"

lemma ocupados_eq: "r \<le> n \<Longrightarrow> w \<le> n \<Longrightarrow> ocupados n r w = (if r \<le> w then w - r else w + Suc n - r)"
  by (auto simp: ocupados_def mod_if)

lemma suc_mod: "i \<le> n \<Longrightarrow> Suc i mod Suc n = (if i = n then 0 else Suc i)"
  by (simp add: mod_if)

text \<open>The index arithmetic does not wrap.\<close>

lemma unat_of_nat32: "k < 2 ^ 32 \<Longrightarrow> unat (of_nat k :: u32) = k"
  by (simp add: unat_of_nat take_bit_nat_eq_self)

lemma ranura_cabe: "k \<le> n \<Longrightarrow> Suc k * t \<le> Suc n * (t :: nat)"
  by (rule mult_right_mono) simp_all

lemma siguiente_Ret:
  assumes "cb_en n t r w buffer" and "k \<le> n"
  shows "siguiente buffer (of_nat (k * t)) = ret (of_nat (Suc k mod Suc n * t))"
proof -
  have t: "0 < t" "Suc n * t < 2 ^ 32" and b: "elementSize buffer = of_nat t"
      "amountOfElements buffer * elementSize buffer = of_nat (Suc n * t)"
    using assms(1) by (simp_all add: cb_en_def distrib_right)
  have k: "Suc k * t < 2 ^ 32" using ranura_cabe [OF assms(2), of t] t(2) by linarith
  have i: "of_nat (k * t) + of_nat t = (of_nat (Suc k * t) :: u32)" by simp
  have "(of_nat (Suc n * t) :: u32) \<noteq> 0"
    using unat_of_nat32 [OF t(2)] t(1) by (metis mult_pos_pos not_gr_zero unat_0 zero_less_Suc)
  moreover have "of_nat (Suc k * t) mod of_nat (Suc n * t) = (of_nat (Suc k mod Suc n * t) :: u32)"
  proof (rule word_unat_eq_iff [THEN iffD2])
    have "Suc k mod Suc n * t < 2 ^ 32"
      using mult_right_mono [OF mod_less_eq_dividend [of "Suc k" "Suc n"], of t] k by linarith
    then show "unat (of_nat (Suc k * t) mod of_nat (Suc n * t) :: u32) = unat (of_nat (Suc k mod Suc n * t) :: u32)"
      by (simp only: unat_mod unat_of_nat32 [OF t(2)] unat_of_nat32 [OF k] unat_of_nat32 mod_mult_mult2)
  qed
  ultimately show ?thesis
    unfolding siguiente_def Let_def b(2) [unfolded b(1)] b(1) by (simp only: i if_False)
qed

lemma indices_eq:
  assumes "Suc n * t < 2 ^ 32" and "k \<le> n" and "t < 256"
  shows "indices (of_nat (k * t)) (of_nat t) = [k * t..<Suc k * t]"
proof -
  have k: "Suc k * t < 2 ^ 32" using ranura_cabe [OF assms(2), of t] assms(1) by linarith
  have "unat (of_nat (k * t) + of_nat j :: u32) = k * t + j" if "j < t" for j
  proof -
    have "k * t + j < 2 ^ 32" using k that by simp
    then show ?thesis using unat_of_nat32 [of "k * t + j"] by simp
  qed
  moreover have "unat (of_nat t :: u32) = t" by (rule unat_of_nat32) (use assms(3) in simp)
  ultimately show ?thesis
    unfolding indices_def by (auto intro!: nth_equalityI)
qed

lemma copiar_de_Ret:
  assumes "cb_en n t r w buffer" and "k \<le> n"
  shows "copiar_de (memoryAddress buffer) (of_nat (k * t)) (elementSize buffer) = ret (ranura t (memoryAddress buffer) k)"
proof -
  have t: "t < 256" "Suc n * t < 2 ^ 32" "elementSize buffer = of_nat t" "length (memoryAddress buffer) = Suc n * t"
    using assms(1) by (simp_all add: cb_en_def)
  have u: "unat (of_nat t :: u32) = t" by (rule unat_of_nat32) (use t(1) in simp)
  have c: "k * t + t \<le> length (memoryAddress buffer)"
    using ranura_cabe [OF assms(2), of t] by (simp add: t(4))
  have "map ((!) (memoryAddress buffer)) [k * t..<Suc k * t] = ranura t (memoryAddress buffer) k"
    unfolding ranura_def using c by (intro nth_equalityI) auto
  then show ?thesis
    unfolding copiar_de_def t(3) indices_eq [OF t(2) assms(2) t(1)]
    using t(1) c by (auto simp: u list_all_iff)
qed

lemma fold_update:
  "length x = t \<Longrightarrow> a + t \<le> length mem \<Longrightarrow>
   fold (\<lambda>(j, y) m. m[j := y]) (zip [a..<a + t] x) mem = take a mem @ x @ drop (a + t) mem"
proof (induction t arbitrary: a x mem)
  case (Suc t)
  then obtain y ys where x: "x = y # ys" by (cases x) auto
  have "[a..<a + Suc t] = a # [Suc a..<Suc a + t]" by (simp add: upt_conv_Cons)
  then show ?case
    using Suc.IH [of ys "Suc a" "mem[a := y]"] Suc.prems
    by (simp add: x take_update_swap drop_update_cancel take_Suc_conv_app_nth list_update_append del: upt_Suc)
qed simp

lemma copiar_a_Ret:
  assumes "cb_en n t r w buffer" and "k \<le> n" and "length x = t"
  shows "\<exists>mem. copiar_a (memoryAddress buffer) (of_nat (k * t)) (elementSize buffer) x = ret mem \<and>
    length mem = length (memoryAddress buffer) \<and> ranura t mem k = x \<and>
    (\<forall>j \<le> n. j \<noteq> k \<longrightarrow> ranura t mem j = ranura t (memoryAddress buffer) j)"
proof -
  have t: "t < 256" "Suc n * t < 2 ^ 32" "elementSize buffer = of_nat t" "length (memoryAddress buffer) = Suc n * t"
    using assms(1) by (simp_all add: cb_en_def)
  have u: "unat (of_nat t :: u32) = t" by (rule unat_of_nat32) (use t(1) in simp)
  have c: "k * t + t \<le> length (memoryAddress buffer)"
    using ranura_cabe [OF assms(2), of t] by (simp add: t(4))
  let ?mem = "memoryAddress buffer"
  let ?m = "take (k * t) ?mem @ x @ drop (Suc k * t) ?mem"
  have "copiar_a ?mem (of_nat (k * t)) (elementSize buffer) x = ret ?m"
    unfolding copiar_a_def t(3) indices_eq [OF t(2) assms(2) t(1)]
    using t(1) c assms(3) fold_update [of x t "k * t" ?mem] by (auto simp: u list_all_iff add.commute [of t])
  moreover have "length ?m = length ?mem" using c assms(3) by simp
  moreover have "ranura t ?m k = x" unfolding ranura_def using c assms(3) by simp
  moreover have "ranura t ?m j = ranura t ?mem j" if "j \<le> n" "j \<noteq> k" for j
  proof (cases "j < k")
    case True
    then have "Suc j * t \<le> k * t" by (intro mult_right_mono) simp_all
    then show ?thesis unfolding ranura_def using c by (simp add: drop_take min_def)
  next
    case False
    with that have j: "Suc k * t \<le> j * t" by (intro mult_right_mono) simp_all
    have "k * t \<le> j * t" using False by (intro mult_right_mono) simp_all
    then have "k * t - j * t = 0" "drop (j * t) (take (k * t) ?mem) = []"
      by (simp_all add: min.coboundedI2 del: mult_le_cancel2)
    with j show ?thesis unfolding ranura_def using c assms(3) by simp
  qed
  ultimately show ?thesis by blast
qed

text \<open>The queue of the buffer after an element is taken and after one is put.\<close>

lemma cb_cola_vacia: "cb_cola n t r r mem = []"
  by (simp add: cb_cola_def ocupados_def)

lemma cb_cola_sacar:
  assumes "r \<le> n" and "w \<le> n" and "r \<noteq> w"
  shows "cb_cola n t r w mem = ranura t mem r # cb_cola n t (Suc r mod Suc n) w mem"
proof -
  have o: "ocupados n r w = Suc (ocupados n (Suc r mod Suc n) w)"
    using assms by (auto simp: ocupados_eq suc_mod)
  have "(r + Suc k) mod Suc n = (Suc r mod Suc n + k) mod Suc n" for k
    by (simp add: mod_add_left_eq)
  then show ?thesis
    unfolding cb_cola_def o map_upt_Suc using assms(1) by simp
qed

lemma cb_cola_poner:
  assumes "r \<le> n" and "w \<le> n" and "Suc w mod Suc n \<noteq> r"
    and "\<forall>j \<le> n. j \<noteq> w \<longrightarrow> ranura t mem' j = ranura t mem j" and "ranura t mem' w = x"
  shows "cb_cola n t r (Suc w mod Suc n) mem' = cb_cola n t r w mem @ [x]"
proof -
  have o: "ocupados n r (Suc w mod Suc n) = Suc (ocupados n r w)"
    using assms(1-3) by (auto simp: ocupados_eq suc_mod split: if_splits)
  have l: "(r + ocupados n r w) mod Suc n = w"
    using assms(1,2) by (auto simp: ocupados_eq mod_if)
  have d: "(r + k) mod Suc n \<noteq> w" if "k < ocupados n r w" for k
  proof -
    have k: "k \<le> n" using assms(1,2) that by (simp add: ocupados_eq split: if_splits)
    then have "(r + k) mod Suc n = (if r + k < Suc n then r + k else r + k - Suc n)"
      using assms(1) by (simp add: mod_if)
    then show ?thesis using assms(1,2) that k by (simp add: ocupados_eq split: if_splits)
  qed
  show ?thesis
    unfolding cb_cola_def o using assms(4,5) l d by (auto simp: less_Suc_eq_le)
qed

lemma cb_lleno:
  assumes "r \<le> n" and "w \<le> n"
  shows "length (cb_cola n t r w mem) \<le> n" and "Suc w mod Suc n = r \<longleftrightarrow> length (cb_cola n t r w mem) = n"
  using assms by (auto simp: cb_cola_def ocupados_eq suc_mod split: if_splits)


section \<open>The operations on a queue\<close>

lemma cb_Read_vacio:
  assumes "cb_en n t r r (bufs m b)" and "isSetEmptyBufferCallback m \<longrightarrow> emptyBufferCallback (bufs m b) \<noteq> None"
  shows "\<exists>m'. circularBufferRead b m = Ret (CIRCULAR_BUFFER_EMPTY, []) m' \<and> cb_en n t r r (bufs m' b) \<and>
     memoryAddress (bufs m' b) = memoryAddress (bufs m b)"
  using assms
  by (auto simp: circularBufferRead_def bind_gets en_buffer_def bind_modify llamar_def bind_apply cb_en_def split: option.split)

lemma cb_indices:
  assumes "cb_en n t r w buffer" and "i \<le> n" and "j \<le> n"
  shows "(of_nat (i * t) = (of_nat (j * t) :: u32)) = (i = j)"
proof -
  have t: "0 < t" "Suc n * t < 2 ^ 32" using assms(1) by (simp_all add: cb_en_def)
  have "i * t < 2 ^ 32" "j * t < 2 ^ 32"
    using ranura_cabe [OF assms(2), of t] ranura_cabe [OF assms(3), of t] t(2) unfolding mult_Suc by linarith+
  then have "(of_nat (i * t) = (of_nat (j * t) :: u32)) = (i * t = j * t)"
    by (metis unat_of_nat32)
  then show ?thesis using t(1) by simp
qed

lemma cb_Read_normal:
  assumes "cb_en n t r w (bufs m b)" and "r \<noteq> w"
  shows "\<exists>m'. circularBufferRead b m = Ret (CIRCULAR_BUFFER_NORMAL, ranura t (memoryAddress (bufs m b)) r) m' \<and>
     cb_en n t (Suc r mod Suc n) w (bufs m' b) \<and> memoryAddress (bufs m' b) = memoryAddress (bufs m b)"
proof -
  have i: "readIndex (bufs m b) = of_nat (r * t)" "writeIndex (bufs m b) = of_nat (w * t)" "r \<le> n" "w \<le> n"
    using assms(1) by (simp_all add: cb_en_def)
  have ne: "readIndex (bufs m b) \<noteq> writeIndex (bufs m b)"
    unfolding i(1,2) using cb_indices [OF assms(1) i(3,4)] assms(2) by simp
  have n: "Suc r mod Suc n \<le> n" using mod_less_divisor [of "Suc n" "Suc r"] by (simp only: less_Suc_eq_le)
  note c = copiar_de_Ret [OF assms(1) i(3), folded i(1)] and s = siguiente_Ret [OF assms(1) i(3), folded i(1)]
  let ?b = "(bufs m b)\<lparr>status := CIRCULAR_BUFFER_NORMAL, readIndex := of_nat (Suc r mod Suc n * t)\<rparr>"
  have "circularBufferRead b m = Ret (CIRCULAR_BUFFER_NORMAL, ranura t (memoryAddress (bufs m b)) r) (m\<lparr>bufs := (bufs m)(b := ?b)\<rparr>)"
    using ne by (simp add: circularBufferRead_def bind_gets c s en_buffer_def bind_modify del: of_nat_mult)
  moreover have "cb_en n t (Suc r mod Suc n) w ?b" using assms(1) n by (simp add: cb_en_def)
  ultimately show ?thesis by auto
qed

lemma cb_Write_lleno:
  assumes "cb_en n t r w (bufs m b)" and "Suc w mod Suc n = r"
    and "isSetFullBufferCallback m \<longrightarrow> fullBufferCalback (bufs m b) \<noteq> None"
  shows "\<exists>m'. circularBufferWrite b x m = Ret CIRCULAR_BUFFER_FULL m' \<and> cb_en n t r w (bufs m' b) \<and>
     memoryAddress (bufs m' b) = memoryAddress (bufs m b)"
proof -
  have i: "readIndex (bufs m b) = of_nat (r * t)" "writeIndex (bufs m b) = of_nat (w * t)" "w \<le> n"
    using assms(1) by (simp_all add: cb_en_def)
  have s: "siguiente (bufs m b) (writeIndex (bufs m b)) = ret (readIndex (bufs m b))"
    unfolding i(1,2) siguiente_Ret [OF assms(1) i(3)] assms(2) ..
  have "circularBufferWrite b x m =
       bind (en_buffer b (\<lambda>buffer. buffer\<lparr>status := CIRCULAR_BUFFER_FULL\<rparr>)) (\<lambda>_.
       bind (gets isSetFullBufferCallback) (\<lambda>isSet.
       bind (if isSet then llamar (fullBufferCalback (bufs m b)) else ret ()) (\<lambda>_.
       ret CIRCULAR_BUFFER_FULL))) m"
    by (simp add: circularBufferWrite_def bind_gets s)
  then show ?thesis
    using assms(1,3)
    by (auto simp: en_buffer_def bind_modify bind_gets llamar_def bind_apply cb_en_def split: option.split)
qed

lemma cb_Write_normal:
  fixes m :: "'f cb_mem"
  assumes "cb_en n t r w (bufs m b)" and "Suc w mod Suc n \<noteq> r" and "length x = t"
  shows "\<exists>m'. circularBufferWrite b x m = Ret CIRCULAR_BUFFER_NORMAL m' \<and> cb_en n t r (Suc w mod Suc n) (bufs m' b) \<and>
     cb_cola n t r (Suc w mod Suc n) (memoryAddress (bufs m' b)) = cb_cola n t r w (memoryAddress (bufs m b)) @ [x]"
proof -
  let ?i = "Suc w mod Suc n"
  have i: "readIndex (bufs m b) = of_nat (r * t)" "writeIndex (bufs m b) = of_nat (w * t)" "r \<le> n" "w \<le> n"
    using assms(1) by (simp_all add: cb_en_def)
  have n: "?i \<le> n" using mod_less_divisor [of "Suc n" "Suc w"] by (simp only: less_Suc_eq_le)
  have s: "siguiente (bufs m b) (writeIndex (bufs m b)) = ret (of_nat (?i * t))"
    unfolding i(2) by (rule siguiente_Ret [OF assms(1) i(4)])
  have ne: "of_nat (?i * t) \<noteq> readIndex (bufs m b)"
    unfolding i(1) using cb_indices [OF assms(1) n i(3)] assms(2) by simp
  obtain mem where mem: "copiar_a (memoryAddress (bufs m b)) (writeIndex (bufs m b)) (elementSize (bufs m b)) x = (ret mem :: (u8 list, 'f) cbprog)"
    "length mem = length (memoryAddress (bufs m b))" "ranura t mem w = x"
    "\<forall>j \<le> n. j \<noteq> w \<longrightarrow> ranura t mem j = ranura t (memoryAddress (bufs m b)) j"
    unfolding i(2) using copiar_a_Ret [OF assms(1) i(4) assms(3)] by blast
  let ?b = "(bufs m b)\<lparr>status := CIRCULAR_BUFFER_NORMAL, memoryAddress := mem, writeIndex := of_nat (?i * t)\<rparr>"
  have "circularBufferWrite b x m = Ret CIRCULAR_BUFFER_NORMAL (m\<lparr>bufs := (bufs m)(b := ?b)\<rparr>)"
    using ne by (simp add: circularBufferWrite_def bind_gets s mem(1) en_buffer_def bind_modify del: of_nat_mult)
  moreover have "cb_en n t r ?i ?b" using assms(1) n mem(2) by (simp add: cb_en_def)
  ultimately show ?thesis using cb_cola_poner [OF i(3,4) assms(2) mem(4,3)] by auto
qed


text \<open>A step of the buffer \<open>b\<close>; the invariant of the module memory for a buffer of \<open>n\<close> elements of \<open>t\<close> bytes.\<close>

fun cb_op :: "nat \<Rightarrow> u8 list cola_op \<Rightarrow> (u8 list cola_res, 'f) cbprog" where
  "cb_op b (Poner x) = bind (circularBufferWrite b x) (\<lambda>st. ret (Puesto (st = CIRCULAR_BUFFER_NORMAL)))"
| "cb_op b Sacar = bind (circularBufferRead b) (\<lambda>(st, x).
     ret (Sacado (if st = CIRCULAR_BUFFER_NORMAL then Some x else None)))"

primrec cb_corre :: "nat \<Rightarrow> u8 list cola_op list \<Rightarrow> (u8 list cola_res list, 'f) cbprog" where
  "cb_corre b [] = ret []"
| "cb_corre b (x # xs) = bind (cb_op b x) (\<lambda>r. bind (cb_corre b xs) (\<lambda>rs. ret (r # rs)))"

definition cb_paso :: "nat \<Rightarrow> u8 list cola_op \<Rightarrow> 'f cb_mem \<Rightarrow> u8 list cola_res \<times> 'f cb_mem" where
  "cb_paso b x m = (case cb_op b x m of Ret r m' \<Rightarrow> (r, m') | r \<Rightarrow> (Sacado None, final r))"

definition de_tamano :: "nat \<Rightarrow> u8 list cola_op \<Rightarrow> bool" where
  "de_tamano t x = (case x of Poner y \<Rightarrow> length y = t | Sacar \<Rightarrow> True)"

definition cb_llamables :: "nat \<Rightarrow> 'f cb_mem \<Rightarrow> bool" where
  "cb_llamables b m \<longleftrightarrow> (isSetEmptyBufferCallback m \<longrightarrow> emptyBufferCallback (bufs m b) \<noteq> None) \<and>
     (isSetFullBufferCallback m \<longrightarrow> fullBufferCalback (bufs m b) \<noteq> None)"

definition cb_inv :: "nat \<Rightarrow> nat \<Rightarrow> nat \<Rightarrow> 'f cb_mem \<Rightarrow> bool" where
  "cb_inv b n t m \<longleftrightarrow> (\<exists>r w. cb_en n t r w (bufs m b)) \<and> cb_llamables b m"

definition cb_abs :: "nat \<Rightarrow> nat \<Rightarrow> nat \<Rightarrow> 'f cb_mem \<Rightarrow> u8 list list" where
  "cb_abs b n t m = cb_cola n t (unat (readIndex (bufs m b)) div t) (unat (writeIndex (bufs m b)) div t) (memoryAddress (bufs m b))"

lemma cb_abs_en:
  assumes "cb_en n t r w (bufs m b)"
  shows "cb_abs b n t m = cb_cola n t r w (memoryAddress (bufs m b))"
proof -
  have t: "0 < t" "Suc n * t < 2 ^ 32" "r \<le> n" "w \<le> n" using assms by (simp_all add: cb_en_def)
  have "r * t < 2 ^ 32" "w * t < 2 ^ 32"
    using ranura_cabe [OF t(3), of t] ranura_cabe [OF t(4), of t] t(2) unfolding mult_Suc by linarith+
  then have "unat (readIndex (bufs m b)) = r * t" "unat (writeIndex (bufs m b)) = w * t"
    using assms unat_of_nat32 by (metis cb_en_def)+
  with t(1) show ?thesis by (simp add: cb_abs_def)
qed

lemma llamables_Write: "circularBufferWrite b x m = Ret st m' \<Longrightarrow> cb_llamables b m' = cb_llamables b m"
  by (auto simp: circularBufferWrite_def bind_eq_Ret en_buffer_def siguiente_def copiar_a_def llamar_def Let_def
      cb_llamables_def split: if_splits option.splits)

lemma llamables_Read: "circularBufferRead b m = Ret st m' \<Longrightarrow> cb_llamables b m' = cb_llamables b m"
  by (auto simp: circularBufferRead_def bind_eq_Ret en_buffer_def siguiente_def copiar_de_def llamar_def Let_def
      cb_llamables_def split: if_splits option.splits)

lemma cb_paso_correcto:
  assumes "cb_inv b n t m" and "de_tamano t x"
  shows "cb_op b x m = Ret (fst (cb_paso b x m)) (snd (cb_paso b x m)) \<and> cb_inv b n t (snd (cb_paso b x m)) \<and>
    (fst (cb_paso b x m), cb_abs b n t (snd (cb_paso b x m))) = cola_paso n x (cb_abs b n t m)"
proof -
  obtain r w where e: "cb_en n t r w (bufs m b)" using assms(1) by (auto simp: cb_inv_def)
  have l: "cb_llamables b m" using assms(1) by (simp add: cb_inv_def)
  have i: "r \<le> n" "w \<le> n" using e by (simp_all add: cb_en_def)
  note a = cb_abs_en [OF e]
  show ?thesis
  proof (cases x)
    case (Poner y)
    show ?thesis
    proof (cases "Suc w mod Suc n = r")
      case True
      then obtain m' where m': "circularBufferWrite b y m = Ret CIRCULAR_BUFFER_FULL m'" "cb_en n t r w (bufs m' b)"
        "memoryAddress (bufs m' b) = memoryAddress (bufs m b)"
        using cb_Write_lleno [OF e] l by (auto simp: cb_llamables_def)
      then show ?thesis
        using Poner True cb_lleno(2) [OF i] llamables_Write [OF m'(1)] l cb_abs_en [OF m'(2)]
        by (auto simp: a cb_inv_def cb_paso_def bind_apply)
    next
      case False
      then obtain m' where m': "circularBufferWrite b y m = Ret CIRCULAR_BUFFER_NORMAL m'"
        "cb_en n t r (Suc w mod Suc n) (bufs m' b)"
        "cb_cola n t r (Suc w mod Suc n) (memoryAddress (bufs m' b)) = cb_cola n t r w (memoryAddress (bufs m b)) @ [y]"
        using cb_Write_normal [OF e False] assms(2) Poner by (auto simp: de_tamano_def)
      then show ?thesis
        using Poner False cb_lleno [OF i, of t "memoryAddress (bufs m b)"] llamables_Write [OF m'(1)] l cb_abs_en [OF m'(2)]
        by (auto simp: a cb_inv_def cb_paso_def bind_apply)
    qed
  next
    case Sacar
    show ?thesis
    proof (cases "r = w")
      case True
      then obtain m' where m': "circularBufferRead b m = Ret (CIRCULAR_BUFFER_EMPTY, []) m'" "cb_en n t r w (bufs m' b)"
        "memoryAddress (bufs m' b) = memoryAddress (bufs m b)"
        using cb_Read_vacio [of n t r m b] e l by (auto simp: cb_llamables_def)
      then show ?thesis
        using Sacar True llamables_Read [OF m'(1)] l cb_abs_en [OF m'(2)]
        by (auto simp: a cb_inv_def cb_paso_def bind_apply cb_cola_vacia)
    next
      case False
      then obtain m' where m': "circularBufferRead b m = Ret (CIRCULAR_BUFFER_NORMAL, ranura t (memoryAddress (bufs m b)) r) m'"
        "cb_en n t (Suc r mod Suc n) w (bufs m' b)" "memoryAddress (bufs m' b) = memoryAddress (bufs m b)"
        using cb_Read_normal [OF e False] by auto
      then show ?thesis
        using Sacar False llamables_Read [OF m'(1)] l cb_abs_en [OF m'(2)]
        by (auto simp: a cb_inv_def cb_paso_def bind_apply cb_cola_sacar [OF i False])
    qed
  qed
qed


interpretation cb: cola_acotada "cb_inv b n t" "de_tamano t" n "cb_abs b n t" "cb_paso b" for b n t
proof unfold_locales
  fix q :: "'a cb_mem" and x
  assume q: "cb_inv b n t q"
  show "de_tamano t x \<Longrightarrow> cb_inv b n t (snd (cb_paso b x q))"
    and "de_tamano t x \<Longrightarrow> (fst (cb_paso b x q), cb_abs b n t (snd (cb_paso b x q))) = cola_paso n x (cb_abs b n t q)"
    using cb_paso_correcto [OF q] by blast+
  obtain r w where e: "cb_en n t r w (bufs q b)" using q by (auto simp: cb_inv_def)
  then show "length (cb_abs b n t q) \<le> n"
    using cb_lleno(1) [of r n w] by (simp add: cb_abs_en [OF e]) (simp add: cb_en_def)
qed

text \<open>The receive FIFO of a USART, filled by the line and emptied by \<^verbatim>\<open>uartRxRead\<close>, is one too.\<close>

fun rx_paso :: "uartMap_t \<Rightarrow> u8 cola_op \<Rightarrow> 'z hw_scheme \<Rightarrow> u8 cola_res \<times> 'z hw_scheme" where
  "rx_paso u (Poner x) w = (Puesto (length (rxFifo w (usart u)) < UART_RX_FIFO_SIZE), apply_ev (RxByte (usart u) x) w)"
| "rx_paso u Sacar w = (case uartRxRead u w of
       Ret x w' \<Rightarrow> (Sacado (if rxFifo w (usart u) \<noteq> [] then Some x else None), w') | r \<Rightarrow> (Sacado None, final r))"

interpretation rx: cola_acotada "\<lambda>w. length (rxFifo w (usart u)) \<le> UART_RX_FIFO_SIZE" "\<lambda>_. True" UART_RX_FIFO_SIZE
    "\<lambda>w. rxFifo w (usart u)" "rx_paso u" for u
proof unfold_locales
  fix q :: "'a hw_scheme" and x
  assume "length (rxFifo q (usart u)) \<le> UART_RX_FIFO_SIZE"
  then show "length (rxFifo (snd (rx_paso u x q)) (usart u)) \<le> UART_RX_FIFO_SIZE"
    and "(fst (rx_paso u x q), rxFifo (snd (rx_paso u x q)) (usart u)) = cola_paso UART_RX_FIFO_SIZE x (rxFifo q (usart u))"
    by (cases x; auto simp: uartRxRead_def split: list.splits)+
qed

lemma cb_corre_Ret:
  assumes "cb_inv b n t m" and "list_all (de_tamano t) xs"
  shows "cb_corre b xs m = Ret (fst (ejecutar (cb_paso b) xs m)) (snd (ejecutar (cb_paso b) xs m))"
  using assms
proof (induction xs arbitrary: m)
  case (Cons x xs)
  then show ?case
    using cb_paso_correcto [OF Cons.prems(1), of x] Cons.IH [of "snd (cb_paso b x m)"]
    by (simp add: bind_apply case_prod_beta Let_def)
qed simp

lemma cb_Init:
  assumes "0 < t" and "t < 256" and "Suc n * t < 2 ^ 32" and "length mem = Suc n * t" and "cb_llamables b m"
  shows "\<exists>m'. circularBuffer_Init b mem (of_nat n) (of_nat t) m = Ret () m' \<and> cb_inv b n t m' \<and> cb_abs b n t m' = []"
proof -
  obtain m' where m': "circularBuffer_Init b mem (of_nat n) (of_nat t) m = Ret () m'" "cb_en n t 0 0 (bufs m' b)"
    "cb_llamables b m'"
    using assms by (auto simp: circularBuffer_Init_def en_buffer_def cb_en_def cb_llamables_def)
  then show ?thesis by (auto simp: cb_inv_def cb_abs_en cb_cola_vacia)
qed

section \<open>Properties\<close>

text \<open>C31: The circular buffer is a bounded queue. A buffer for \<open>n\<close> elements of \<open>t\<close> bytes (less than 256, memory of
  \<open>n + 1\<close> elements below 4 GiB) answers every sequence of \<^verbatim>\<open>circularBufferWrite\<close> and \<^verbatim>\<open>circularBufferRead\<close>, without
  undefined behaviour, exactly as a queue of capacity \<open>n\<close> does; so elements come out in the order they went in, none is
  lost, none is invented.\<close>

theorem buffer_circular_es_cola:
  assumes "0 < t" and "t < 256" and "Suc n * t < 2 ^ 32" and "length mem = Suc n * t" and "cb_llamables b m"
    and "list_all (de_tamano t) xs"
  shows "\<exists>rs m'. bind (circularBuffer_Init b mem (of_nat n) (of_nat t)) (\<lambda>_. cb_corre b xs) m = Ret rs m' \<and>
     rs = fst (ejecutar (cola_paso n) xs []) \<and> sacados rs @ cb_abs b n t m' = puestos xs rs"
proof -
  obtain m0 where m0: "circularBuffer_Init b mem (of_nat n) (of_nat t) m = Ret () m0" "cb_inv b n t m0" "cb_abs b n t m0 = []"
    using cb_Init [OF assms(1-5)] by blast
  show ?thesis
    using m0(1) cb_corre_Ret [OF m0(2) assms(6)] cb.refina [OF m0(2) assms(6)] cb.orden [OF m0(2) assms(6)]
    by (auto simp: bind_apply m0(3) prod_eq_iff)
qed


definition cb_mem0 :: "nat cb_mem" where
  "cb_mem0 = \<lparr>bufs = (\<lambda>_. \<lparr>memoryAddress = [], amountOfElements = 0, elementSize = 0, readIndex = 0, writeIndex = 0,
     status = CIRCULAR_BUFFER_EMPTY, emptyBufferCallback = None, fullBufferCalback = None\<rparr>),
     isSetEmptyBufferCallback = False, isSetFullBufferCallback = False, llamadas = []\<rparr>"

theorem buffer_circular_es_cola_witness:
  "\<exists>rs m'. bind (circularBuffer_Init 0 [0, 0, 0, 0, 0, 0] (of_nat 2) (of_nat 2)) (\<lambda>_. cb_corre 0
       [Poner [1, 2], Poner [3, 4], Poner [5, 6], Sacar, Poner [7, 8], Sacar, Sacar, Sacar]) cb_mem0 = Ret rs m' \<and>
     rs = [Puesto True, Puesto True, Puesto False, Sacado (Some [1, 2]), Puesto True, Sacado (Some [3, 4]),
       Sacado (Some [7, 8]), Sacado None]"
  using buffer_circular_es_cola [of 2 2 "[0, 0, 0, 0, 0, 0]" 0 cb_mem0
    "[Poner [1, 2], Poner [3, 4], Poner [5, 6], Sacar, Poner [7, 8], Sacar, Sacar, Sacar]"]
  by (auto simp: cb_mem0_def cb_llamables_def de_tamano_def)

text \<open>
  The flags of the callbacks belong to the module and not to the buffer: after a callback was set for one
  buffer, an empty read of another one calls a pointer that was never set.
\<close>

lemma bandera_compartida:
  "\<exists>m. bind (circularBufferEmptyBufferCallbackSet 0 (Some 7)) (\<lambda>_. bind (circularBuffer_Init 1 [0, 0] 1 1) (\<lambda>_.
     circularBufferRead 1)) cb_mem0 = Fault Uninitialised m"
  by (simp add: circularBufferEmptyBufferCallbackSet_def circularBuffer_Init_def circularBufferRead_def en_buffer_def
      bind_modify bind_gets llamar_def bind_apply cb_mem0_def)

end
