(* ===== verification/Sapi_Convert.thy ===== *)
theory Sapi_Convert
  imports CString
begin

unbundle bit_operations_syntax

text \<open>
  Conversion of numbers to text and to bytes (\<^verbatim>\<open>sapi_convert.c\<close>). A function that writes
  a text into its caller's array gives the text; where the array is a local variable of
  the source, the copy is checked against its size. An \<^verbatim>\<open>int64_t\<close> is an \<open>int\<close>: the
  division by a base of 2 or more and the products with its quotient do not leave
  the range of the argument. The functions on \<^verbatim>\<open>float\<close> are left out.
\<close>

section \<open>Numbers as text\<close>

definition tabla_digitos :: string where
  "tabla_digitos = ''zyxwvutsrqponmlkjihgfedcba9876543210123456789abcdefghijklmnopqrstuvwxyz''"

text \<open>The division of C, which rounds towards zero.\<close>

definition div_c :: "int \<Rightarrow> int \<Rightarrow> int" where
  "div_c a b = sgn a * sgn b * (\<bar>a\<bar> div \<bar>b\<bar>)"

lemma abs_div_c: "0 < b \<Longrightarrow> \<bar>div_c a b\<bar> = \<bar>a\<bar> div b"
  by (cases a "0 :: int" rule: linorder_cases)
    (auto simp: div_c_def abs_mult pos_imp_zdiv_nonneg_iff intro!: abs_of_nonneg)

text \<open>
  The \<^verbatim>\<open>do\<close> loop that writes the digits, the last one first, with the last value of
  \<^verbatim>\<open>tmp_value\<close>. It is entered with a base between 2 and 36; for the others, which its
  callers turn away, it stops after a digit.
\<close>

function digitos_i :: "int \<Rightarrow> int \<Rightarrow> string \<times> int" where
  "digitos_i base tmp_value =
     (let value = div_c tmp_value base; c = tabla_digitos ! nat (35 + (tmp_value - value * base)) in
      if 2 \<le> base \<and> value \<noteq> 0 then apfst ((#) c) (digitos_i base value) else ([c], tmp_value))"
  by pat_completeness auto
termination
proof (relation "measure (\<lambda>(b, v). nat \<bar>v\<bar>)", goal_cases)
  case (2 base v q c)
  then have b: "2 \<le> base" and v: "div_c v base \<noteq> 0" by auto
  have a: "\<bar>div_c v base\<bar> = \<bar>v\<bar> div base" using b by (simp add: abs_div_c)
  have "v \<noteq> 0" using v by (auto simp: div_c_def)
  then have "\<bar>v\<bar> div base < \<bar>v\<bar>" using b by (intro int_div_less_self) auto
  with a 2 show ?case by simp
qed simp

declare digitos_i.simps [simp del]

function digitos_u :: "u64 \<Rightarrow> u64 \<Rightarrow> string" where
  "digitos_u base tmp_value =
     (let value = tmp_value div base in
      tabla_digitos ! unat (35 + (tmp_value - value * base)) #
      (if 2 \<le> base \<and> value \<noteq> 0 then digitos_u base value else []))"
  by pat_completeness auto
termination
proof (relation "measure (\<lambda>(b, v). unat v)", simp, clarsimp)
  fix base v :: u64
  assume b: "2 \<le> base" and v: "v div base \<noteq> 0"
  have "v \<noteq> 0" using v by auto
  then have "0 < unat v" by (simp add: unat_gt_0)
  moreover have "2 \<le> unat base" using b by (simp add: word_le_nat_alt)
  ultimately show "unat (v div base) < unat v" by (simp add: unat_div)
qed

declare digitos_u.simps [simp del]

text \<open>The loop that reverses the text in its array.\<close>

function invertir :: "'a list \<Rightarrow> nat \<Rightarrow> nat \<Rightarrow> 'a list" where
  "invertir s ptr1 ptr =
     (if ptr1 < ptr then invertir (s[ptr := s ! ptr1, ptr1 := s ! ptr]) (Suc ptr1) (ptr - 1) else s)"
  by pat_completeness auto
termination by (relation "measure (\<lambda>(s, i, j). j - i)") auto

declare invertir.simps [simp del]

definition int64ToString :: "int \<Rightarrow> u8 \<Rightarrow> bool \<times> string" where
  "int64ToString value base =
     (if base < 2 \<or> base > 36 then (False, [])
      else let (ds, tmp_value) = digitos_i (uint base) value;
               s = ds @ (if tmp_value < 0 then ''-'' else [])
           in (True, invertir s 0 (length s - 1)))"

text \<open>The test for a sign of \<^verbatim>\<open>uint64ToString\<close> compares an unsigned number with 0.\<close>

definition uint64ToString :: "u64 \<Rightarrow> u8 \<Rightarrow> bool \<times> string" where
  "uint64ToString value base =
     (if base < 2 \<or> base > 36 then (False, [])
      else let s = digitos_u (ucast base) value in (True, invertir s 0 (length s - 1)))"

definition uint64ToString2Digits :: "u64 \<Rightarrow> u8 \<Rightarrow> bool \<times> string" where
  "uint64ToString2Digits value base =
     (if value < 10 then apsnd (\<lambda>t. CHR ''0'' # t) (uint64ToString value base)
      else uint64ToString value base)"

definition intToStringGlobal :: "int \<Rightarrow> string" where
  "intToStringGlobal value = (if value = 0 then ''0'' else snd (int64ToString value 10))"

definition charIsDigit :: "char \<Rightarrow> bool" where
  "charIsDigit c \<longleftrightarrow> (of_char c :: nat) \<ge> of_char (CHR ''0'') \<and> (of_char c :: nat) \<le> of_char (CHR ''9'')"

section \<open>Times as text\<close>

text \<open>The local arrays have 3 and 10 characters.\<close>

definition hourMinSecToStringHHMMSS :: "u8 \<Rightarrow> u8 \<Rightarrow> u8 \<Rightarrow> (string, 's) prog" where
  "hourMinSecToStringHHMMSS hour mins sec =
     bind (store_str 3 (snd (uint64ToString2Digits (ucast hour) 10))) (\<lambda>h.
     bind (store_str 3 (snd (uint64ToString2Digits (ucast mins) 10))) (\<lambda>m.
     bind (store_str 3 (snd (uint64ToString2Digits (ucast sec) 10))) (\<lambda>s.
     ret (h @ '':'' @ m @ '':'' @ s))))"

definition dayHourToStringDH :: "u32 \<Rightarrow> u8 \<Rightarrow> (string, 's) prog" where
  "dayHourToStringDH day hour =
     bind (store_str 10 (snd (uint64ToString (ucast day) 10))) (\<lambda>d.
     bind (store_str 10 (snd (uint64ToString (ucast hour) 10))) (\<lambda>h.
     ret (d @ ''d '' @ h @ ''h'')))"

section \<open>Hexadecimal text of a fixed width\<close>

text \<open>
  The loop writes into the caller's array \<open>result\<close>; a shift by 64 or more is undefined.
\<close>

definition vectorNumHex :: string where "vectorNumHex = ''0123456789ABCDEF''"

definition cifra_hex :: "u64 \<Rightarrow> nat \<Rightarrow> char" where
  "cifra_hex value i = vectorNumHex ! unat (ucast (drop_bit (4 * i) (value AND push_bit (4 * i) 0x0F)) :: u8)"

definition uintToAsciiHex :: "u64 \<Rightarrow> string \<Rightarrow> u8 \<Rightarrow> (string, 's) prog" where
  "uintToAsciiHex value result bitSize =
     (let n = unat bitSize div 4 in
      if length result \<le> n then fault BufferOverflow
      else if n > 16 then fault ShiftTooFar
      else ret (fold (\<lambda>i r. r[n - i - 1 := cifra_hex value i]) [0..<n] (result[n := NUL])))"

text \<open>\<^verbatim>\<open>globalStrConvertBuff\<close> is an argument.\<close>

definition uintToAsciiHexGlobal :: "u64 \<Rightarrow> string \<Rightarrow> u8 \<Rightarrow> (string, 's) prog" where
  "uintToAsciiHexGlobal value globalStrConvertBuff bitSize = uintToAsciiHex value globalStrConvertBuff bitSize"

section \<open>Numbers as bytes\<close>

text \<open>
  \<^verbatim>\<open>memcpy\<close> of the first \<open>n\<close> bytes of an object over those of another, and the bytes
  of an \<^verbatim>\<open>int32_t\<close>, the low one first.
\<close>

definition memcpy :: "u8 list \<Rightarrow> u8 list \<Rightarrow> nat \<Rightarrow> (u8 list, 's) prog" where
  "memcpy dst src n =
     (if length src < n then fault OutOfBounds
      else if length dst < n then fault BufferOverflow
      else ret (take n src @ drop n dst))"

definition bytes_de :: "32 word \<Rightarrow> u8 list" where
  "bytes_de v = map (\<lambda>i. ucast (drop_bit (8 * i) v)) [0..<4]"

definition de_bytes :: "u8 list \<Rightarrow> 32 word" where
  "de_bytes bs = foldr (\<lambda>b v. ucast b OR push_bit 8 v) bs 0"

definition variableToByteArray :: "u8 list \<Rightarrow> u32 \<Rightarrow> u8 list \<Rightarrow> (u8 list, 's) prog" where
  "variableToByteArray var sizeOfVar byteArray = memcpy byteArray var (unat sizeOfVar)"

definition byteArrayToVariable :: "u8 list \<Rightarrow> u32 \<Rightarrow> u8 list \<Rightarrow> (u8 list, 's) prog" where
  "byteArrayToVariable var sizeOfVar byteArray = memcpy var byteArray (unat sizeOfVar)"

definition int32ToByteArray :: "32 word \<Rightarrow> u8 list \<Rightarrow> (u8 list, 's) prog" where
  "int32ToByteArray value byteArray = memcpy byteArray (bytes_de value) 4"

definition byteArrayToInt32 :: "u8 list \<Rightarrow> (32 word, 's) prog" where
  "byteArrayToInt32 byteArray =
     bind (memcpy (bytes_de 0) byteArray 4) (\<lambda>bs. ret (de_bytes bs))"

section \<open>The text of a number\<close>

text \<open>The reference: the digits of a natural number in a base, and how to read them.\<close>

definition cifras :: string where "cifras = ''0123456789abcdefghijklmnopqrstuvwxyz''"

fun num_base :: "nat \<Rightarrow> nat \<Rightarrow> string" where
  "num_base b n = (if b < 2 \<or> n < b then [cifras ! n] else num_base b (n div b) @ [cifras ! (n mod b)])"

declare num_base.simps [simp del]

definition valor_cifra :: "char \<Rightarrow> nat" where
  "valor_cifra c = (case strchr cifras c of None \<Rightarrow> 0 | Some i \<Rightarrow> i)"

definition leer_base :: "nat \<Rightarrow> string \<Rightarrow> int" where
  "leer_base b s = (case s of
       c # t \<Rightarrow> if c = CHR ''-'' then - int (foldl (\<lambda>n d. b * n + valor_cifra d) 0 t)
                else int (foldl (\<lambda>n d. b * n + valor_cifra d) 0 s)
     | [] \<Rightarrow> 0)"

lemma mod_36: "2 \<le> b \<Longrightarrow> b \<le> 36 \<Longrightarrow> n mod b < (36 :: nat)"
  by (rule order_less_le_trans [OF mod_less_divisor]) auto

lemma unat_up_ucast: "LENGTH('a) \<le> LENGTH('b) \<Longrightarrow> unat (ucast (x :: 'a :: len word) :: 'b :: len word) = unat x"
  by (simp add: unsigned_ucast_eq take_bit_nat_eq_self order_less_le_trans [OF unsigned_less])

lemma tabla_mas: "r < 36 \<Longrightarrow> tabla_digitos ! (35 + r) = cifras ! r"
proof -
  have "map (\<lambda>r. tabla_digitos ! (35 + r)) [0..<36] = map (\<lambda>r. cifras ! r) [0..<36]" by code_simp
  then show "r < 36 \<Longrightarrow> ?thesis" by simp
qed

lemma tabla_menos: "r < 36 \<Longrightarrow> tabla_digitos ! (35 - r) = cifras ! r"
proof -
  have "map (\<lambda>r. tabla_digitos ! (35 - r)) [0..<36] = map (\<lambda>r. cifras ! r) [0..<36]" by code_simp
  then show "r < 36 \<Longrightarrow> ?thesis" by simp
qed

lemma valor_cifra_nth: "r < 36 \<Longrightarrow> valor_cifra (cifras ! r) = r"
proof -
  have "map (\<lambda>r. valor_cifra (cifras ! r)) [0..<36] = [0..<36]" by code_simp
  then have "map (\<lambda>r. valor_cifra (cifras ! r)) [0..<36] ! r = [0..<36] ! r" by simp
  then show "r < 36 \<Longrightarrow> ?thesis" by simp
qed

lemma cifra_no_signo: "r < 36 \<Longrightarrow> cifras ! r \<noteq> CHR ''-''"
proof -
  have "CHR ''-'' \<notin> set cifras" "length cifras = 36" by code_simp+
  then show "r < 36 \<Longrightarrow> ?thesis" by (metis nth_mem)
qed

lemma cifras_digit: "r < 10 \<Longrightarrow> cifras ! r = digit r"
proof -
  have "map (\<lambda>r. cifras ! r) [0..<10] = map digit [0..<10]" by code_simp
  then show "r < 10 \<Longrightarrow> ?thesis" by simp
qed

lemma num_base_10: "num_base 10 n = fmt_u n"
proof (induction n rule: fmt_u.induct)
  case (1 n)
  then show ?case by (subst num_base.simps, subst fmt_u.simps) (simp add: cifras_digit)
qed

lemma num_base_cifras: "2 \<le> b \<Longrightarrow> b \<le> 36 \<Longrightarrow> c \<in> set (num_base b n) \<Longrightarrow> \<exists>r < b. c = cifras ! r"
proof (induction b n rule: num_base.induct)
  case (1 b n)
  from 1(4) show ?case
  proof (subst (asm) num_base.simps)
    assume "c \<in> set (if b < 2 \<or> n < b then [cifras ! n] else num_base b (n div b) @ [cifras ! (n mod b)])"
    with 1(1) [OF _ 1(2,3)] 1(2) show ?thesis by (auto split: if_splits intro: exI [of _ "n mod b"])
  qed
qed

lemma num_base_no_Nil: "num_base b n \<noteq> []"
  by (subst num_base.simps) simp

lemma leer_num_base:
  "2 \<le> b \<Longrightarrow> b \<le> 36 \<Longrightarrow> foldl (\<lambda>n d. b * n + valor_cifra d) 0 (num_base b n) = n"
proof (induction b n rule: num_base.induct)
  case (1 b n)
  then have m: "n mod b < 36" by (intro mod_36)
  show ?case
  proof (cases "n < b")
    case True
    with 1 show ?thesis by (subst num_base.simps) (simp add: valor_cifra_nth)
  next
    case False
    with 1 m show ?thesis by (subst num_base.simps) (simp add: valor_cifra_nth)
  qed
qed

lemma leer_base_signo:
  assumes "2 \<le> b" "b \<le> 36"
  shows "leer_base b ((if v < 0 then ''-'' else []) @ num_base b (nat \<bar>v\<bar>)) = v"
proof -
  obtain c t where ct: "num_base b (nat \<bar>v\<bar>) = c # t" using num_base_no_Nil by (cases "num_base b (nat \<bar>v\<bar>)") auto
  then obtain r where "r < b" "c = cifras ! r" using num_base_cifras [OF assms, of c "nat \<bar>v\<bar>"] by auto
  then have "c \<noteq> CHR ''-''" using cifra_no_signo [of r] assms by simp
  then show ?thesis using leer_num_base [OF assms, of "nat \<bar>v\<bar>"] ct by (auto simp: leer_base_def)
qed

section \<open>The loops write it\<close>

lemma length_invertir [simp]: "length (invertir s i j) = length s"
  by (induction s i j rule: invertir.induct) (subst invertir.simps, simp)

lemma invertir_nth:
  "j < length s \<Longrightarrow> k < length s \<Longrightarrow>
     invertir s i j ! k = (if i \<le> k \<and> k \<le> j then s ! (i + j - k) else s ! k)"
proof (induction s i j rule: invertir.induct)
  case (1 s i j)
  show ?case
  proof (cases "i < j")
    case True
    have "invertir s i j ! k = invertir (s[j := s ! i, i := s ! j]) (Suc i) (j - 1) ! k"
      using True by (subst invertir.simps) simp
    also have "\<dots> = (if i \<le> k \<and> k \<le> j then s ! (i + j - k) else s ! k)"
    proof (cases "k = i \<or> k = j")
      case True
      then show ?thesis using 1 \<open>i < j\<close> by (subst 1(1)) (auto simp: nth_list_update)
    next
      case False
      then show ?thesis using 1 \<open>i < j\<close> by (subst 1(1)) (auto simp: nth_list_update)
    qed
    finally show ?thesis .
  next
    case False
    moreover have "\<not> i < j \<and> i \<le> k \<and> k \<le> j \<Longrightarrow> i + j - k = k" by arith
    ultimately show ?thesis by (subst invertir.simps) auto
  qed
qed

lemma invertir_rev: "invertir s 0 (length s - 1) = rev s"
  by (cases "s = []", simp add: invertir.simps) (rule nth_equalityI, auto simp: invertir_nth rev_nth)

lemma invertir_de: "n = length s - 1 \<Longrightarrow> invertir s 0 n = rev s"
  by (simp only: invertir_rev)

lemma resto_c: "0 < b \<Longrightarrow> v - div_c v b * b = sgn v * (\<bar>v\<bar> mod b)"
  by (cases v "0 :: int" rule: linorder_cases) (auto simp: div_c_def minus_div_mult_eq_mod [symmetric])

lemma cifra_i:
  assumes "2 \<le> b" "b \<le> 36"
  shows "tabla_digitos ! nat (35 + (v - div_c v (int b) * int b)) = cifras ! (nat \<bar>v\<bar> mod b)"
proof -
  let ?r = "nat \<bar>v\<bar> mod b"
  have r: "?r < 36" "\<bar>v\<bar> mod int b = int ?r" using assms by (auto simp: zmod_int intro: mod_36)
  then show ?thesis using assms tabla_mas [of ?r] tabla_menos [of ?r]
    by (cases v "0 :: int" rule: linorder_cases) (auto simp: resto_c div_c_def [of 0] nat_diff_distrib nat_add_distrib)
qed

lemma digitos_i_num:
  assumes "2 \<le> b" "b \<le> 36"
  shows "\<exists>t. digitos_i (int b) v = (rev (num_base b (nat \<bar>v\<bar>)), t) \<and> (t < 0 \<longleftrightarrow> v < 0)"
proof (induction "nat \<bar>v\<bar>" arbitrary: v rule: less_induct)
  case (less v)
  let ?q = "div_c v (int b)"
  have q: "nat \<bar>?q\<bar> = nat \<bar>v\<bar> div b" using assms by (simp add: abs_div_c nat_div_distrib)
  show ?case
  proof (cases "?q = 0")
    case True
    then have "nat \<bar>v\<bar> < b" using q assms by (simp add: div_eq_0_iff)
    then show ?thesis using True assms cifra_i [OF assms, of v]
      by (subst digitos_i.simps, subst num_base.simps) (simp add: Let_def)
  next
    case False
    then have n: "\<not> nat \<bar>v\<bar> < b" "v \<noteq> 0" using q by (auto simp: div_c_def)
    then have "nat \<bar>?q\<bar> < nat \<bar>v\<bar>" using assms q by simp
    from less [OF this] obtain t where "digitos_i (int b) ?q = (rev (num_base b (nat \<bar>v\<bar> div b)), t)"
      "t < 0 \<longleftrightarrow> ?q < 0" using q by auto
    moreover have "?q < 0 \<longleftrightarrow> v < 0" using False assms pos_imp_zdiv_nonneg_iff [of "int b" "\<bar>v\<bar>"]
      by (auto simp: div_c_def sgn_if simp del: pos_imp_zdiv_nonneg_iff split: if_splits)
    ultimately show ?thesis using False n assms cifra_i [OF assms, of v]
      by (subst digitos_i.simps, subst num_base.simps) (simp add: Let_def)
  qed
qed

lemma digitos_u_num:
  assumes "2 \<le> unat b" "unat b \<le> 36"
  shows "digitos_u b v = rev (num_base (unat b) (unat v))"
proof (induction "unat v" arbitrary: v rule: less_induct)
  case (less v)
  let ?q = "v div b"
  have q: "unat ?q = unat v div unat b" by (simp add: unat_div)
  have m: "v - ?q * b = v mod b" by (metis minus_div_mult_eq_mod)
  have r: "unat (35 + v mod b) = 35 + unat v mod unat b" "unat v mod unat b < 36"
    using mod_36 [OF assms, of "unat v"] by (auto simp: unat_word_ariths unat_mod)
  have b: "2 \<le> b" using assms by (simp add: word_le_nat_alt)
  have z: "?q = 0 \<longleftrightarrow> unat v < unat b" using q assms by (metis div_eq_0_iff not_numeral_le_zero unat_eq_zero)
  show ?case
  proof (cases "?q = 0")
    case True
    then show ?thesis using z m r tabla_mas [of "unat v mod unat b"] assms
      by (subst digitos_u.simps, subst num_base.simps) (simp add: Let_def)
  next
    case False
    then have n: "\<not> unat v < unat b" using z by simp
    then have "unat ?q < unat v" using assms q by simp
    from less [OF this] show ?thesis using False n m r b q tabla_mas [of "unat v mod unat b"] assms
      by (subst digitos_u.simps, subst num_base.simps) (simp add: Let_def)
  qed
qed

lemma int64ToString_num:
  "int64ToString v b =
     (if 2 \<le> b \<and> b \<le> 36
      then (True, (if v < 0 then ''-'' else []) @ num_base (unat b) (nat \<bar>v\<bar>)) else (False, []))"
proof (cases "2 \<le> b \<and> b \<le> 36")
  case True
  then have b: "2 \<le> unat b" "unat b \<le> 36" by (simp_all add: word_le_nat_alt)
  with digitos_i_num [OF b, of v] True show ?thesis
    by (auto simp: int64ToString_def invertir_de not_less)
qed (auto simp: int64ToString_def not_le)

lemma uint64ToString_num:
  "uint64ToString v b =
     (if 2 \<le> b \<and> b \<le> 36 then (True, num_base (unat b) (unat v)) else (False, []))"
proof (cases "2 \<le> b \<and> b \<le> 36")
  case True
  then have b: "2 \<le> unat b" "unat b \<le> 36" by (simp_all add: word_le_nat_alt)
  have u: "unat (ucast b :: u64) = unat b" by (rule unat_up_ucast) simp
  show ?thesis using True digitos_u_num [of "ucast b" v] b
    by (auto simp: uint64ToString_def u invertir_de not_less)
qed (auto simp: uint64ToString_def not_le)

text \<open>C33: \<^verbatim>\<open>int64ToString\<close> and \<^verbatim>\<open>uint64ToString\<close> accept the bases from 2 to 36 and give an
  empty text and \<open>FALSE\<close> for every other one; in base 10 they write what \<^verbatim>\<open>printf\<close>'s \<^verbatim>\<open>%d\<close>
  and \<^verbatim>\<open>%u\<close> write; and in every base they accept, the text they write reads back as the
  number.
\<close>

theorem numero_a_texto:
  "fst (int64ToString v b) = (2 \<le> b \<and> b \<le> 36) \<and> fst (uint64ToString u b) = (2 \<le> b \<and> b \<le> 36) \<and>
   int64ToString v 10 = (True, fmt_d v) \<and> uint64ToString u 10 = (True, fmt_u (unat u)) \<and>
   (if 2 \<le> b \<and> b \<le> 36
    then leer_base (unat b) (snd (int64ToString v b)) = v \<and>
         leer_base (unat b) (snd (uint64ToString u b)) = int (unat u)
    else snd (int64ToString v b) = [] \<and> snd (uint64ToString u b) = [])"
proof -
  have "int64ToString v 10 = (True, fmt_d v)" by (simp add: int64ToString_num num_base_10 fmt_d_def)
  moreover have "uint64ToString u 10 = (True, fmt_u (unat u))" by (simp add: uint64ToString_num num_base_10)
  moreover have "leer_base (unat b) (snd (int64ToString v b)) = v \<and>
      leer_base (unat b) (snd (uint64ToString u b)) = int (unat u)" if "2 \<le> b \<and> b \<le> 36"
    using leer_base_signo [of "unat b" v] leer_base_signo [of "unat b" "int (unat u)"] that
    by (simp add: int64ToString_num uint64ToString_num word_le_nat_alt)
  ultimately show ?thesis by (auto simp: int64ToString_num uint64ToString_num)
qed

section \<open>Local arrays\<close>

lemma fmt_u_length_ge: "10 ^ k \<le> n \<Longrightarrow> k < length (fmt_u n)"
proof (induction k arbitrary: n)
  case 0
  then show ?case using fmt_u_nonempty by simp
next
  case (Suc k)
  have "10 \<le> n" "10 ^ k \<le> n div 10" using Suc.prems by (simp_all add: less_eq_div_iff_mult_less_eq)
      (rule order_trans [OF _ Suc.prems], simp)
  with Suc.IH [of "n div 10"] show ?case by (subst fmt_u.simps) simp
qed

lemma fmt_u_length_iff: "length (fmt_u n) \<le> Suc k \<longleftrightarrow> n < 10 ^ Suc k"
  using fmt_u_length [of n k] fmt_u_length_ge [of "Suc k" n] by (meson not_less)

definition dos_cifras :: "nat \<Rightarrow> string" where
  "dos_cifras n = (if n < 10 then CHR ''0'' # fmt_u n else fmt_u n)"

lemma dos_cifras_num: "snd (uint64ToString2Digits (ucast (x :: u8)) 10) = dos_cifras (unat x)"
proof -
  have u: "unat (ucast x :: u64) = unat x" by (rule unat_up_ucast) simp
  then show ?thesis
    by (simp add: uint64ToString2Digits_def uint64ToString_num num_base_10 dos_cifras_def word_less_nat_alt)
qed

lemma dos_cifras_length: "length (dos_cifras n) < 3 \<longleftrightarrow> n < 100"
  using fmt_u_length_iff [of n 0] fmt_u_length_iff [of n 1] by (auto simp: dos_cifras_def)

lemma hora_desborda:
  "hourMinSecToStringHHMMSS h m s w =
     (if h < 100 \<and> m < 100 \<and> s < 100
      then Ret (dos_cifras (unat h) @ '':'' @ dos_cifras (unat m) @ '':'' @ dos_cifras (unat s)) w
      else Fault BufferOverflow w)"
  by (simp add: hourMinSecToStringHHMMSS_def dos_cifras_num store_str_def dos_cifras_length
      word_less_nat_alt bind_def)

lemma dia_desborda:
  "dayHourToStringDH d h w =
     (if d < 1000000000 then Ret (fmt_u (unat d) @ ''d '' @ fmt_u (unat h) @ ''h'') w
      else Fault BufferOverflow w)"
proof -
  have u: "unat (ucast d :: u64) = unat d" "unat (ucast h :: u64) = unat h"
    by (rule unat_up_ucast, simp)+
  have "unat h < 10 ^ Suc 2" by (rule order_less_le_trans [OF unsigned_less]) simp
  from fmt_u_length [OF this] have h: "length (fmt_u (unat h)) < 10" by simp
  have "length (fmt_u (unat d)) < 10 \<longleftrightarrow> unat d < 1000000000"
    using fmt_u_length_iff [of "unat d" 8] by auto
  with h show ?thesis
    by (simp add: dayHourToStringDH_def uint64ToString_num u num_base_10 store_str_def word_less_nat_alt bind_def)
qed

lemma int32_ida_y_vuelta:
  assumes "4 \<le> length bs"
  shows "bind (int32ToByteArray v bs) byteArrayToInt32 w = Ret v w"
proof -
  have "de_bytes (bytes_de v) = v"
  proof (rule bit_word_eqI)
    fix n
    assume "n < LENGTH(32)"
    then show "bit (de_bytes (bytes_de v)) n = bit v n"
      by (cases "24 \<le> n"; cases "16 \<le> n") (auto simp: bytes_de_def de_bytes_def upt_rec bit_simps)
  qed
  then show ?thesis using assms
    by (simp add: int32ToByteArray_def byteArrayToInt32_def memcpy_def bytes_de_def bind_def)
qed

lemma cifra_hex_div: 
  assumes "i < 16"
  shows "cifra_hex v i = vectorNumHex ! (unat v div 16 ^ i mod 16)"
proof -
  have "drop_bit (4 * i) (v AND push_bit (4 * i) 0x0F) = take_bit 4 (drop_bit (4 * i) v)"
  proof (rule bit_word_eqI)
    fix n
    have "bit (0x0F :: u64) n \<longleftrightarrow> n < 4"
      using bit_mask_iff [of 4 n, where ?'a = u64] by (auto simp: mask_eq_exp_minus_1)
    then show "bit (drop_bit (4 * i) (v AND push_bit (4 * i) 0x0F)) n = bit (take_bit 4 (drop_bit (4 * i) v)) n"
      by (auto simp: bit_simps dest: bit_imp_le_length)
  qed
  moreover have "unat (ucast (take_bit 4 (drop_bit (4 * i) v)) :: u8) =
      take_bit 8 (take_bit 4 (drop_bit (4 * i) (unat v)))"
    by (simp add: unsigned_ucast_eq unsigned_take_bit_eq unsigned_drop_bit_eq take_bit_nat_eq_self [OF order_less_le_trans [OF unsigned_less]])
  moreover have "\<dots> = unat v div 16 ^ i mod 16"
    by (simp add: take_bit_eq_mod drop_bit_eq_div power_mult)
  ultimately show ?thesis by (simp add: cifra_hex_def)
qed

lemma escribir_atras:
  "n < length r \<Longrightarrow> m \<le> n \<Longrightarrow>
     fold (\<lambda>i r. r[n - i - 1 := f i]) [0..<m] r = take (n - m) r @ map (\<lambda>k. f (n - 1 - k)) [n - m..<n] @ drop n r"
proof (induction m)
  case 0
  then show ?case by simp
next
  case (Suc m)
  then have t: "take (n - m) r = take (n - Suc m) r @ [r ! (n - Suc m)]"
    by (metis Suc_diff_Suc Suc_le_lessD diff_less_Suc less_trans_Suc take_Suc_conv_app_nth not_less_eq order_less_trans)
  have u: "[n - Suc m..<n] = (n - Suc m) # [n - m..<n]"
    using Suc.prems by (metis Suc_diff_Suc Suc_le_lessD diff_less less_zeroE upt_rec zero_less_Suc gr0I)
  show ?case using Suc by (simp add: t u list_update_append)
qed

text \<open>
  The hexadecimal text: \<open>bitSize div 4\<close> digits, the high one first, and the terminator.
\<close>

lemma hexadecimal:
  assumes "unat bitSize div 4 = n" and "n \<le> 16" and "n < length result"
  shows "uintToAsciiHex v result bitSize w =
     Ret (map (\<lambda>k. vectorNumHex ! (unat v div 16 ^ (n - 1 - k) mod 16)) [0..<n] @ NUL # drop (Suc n) result) w"
proof -
  have "fold (\<lambda>i r. r[n - i - 1 := cifra_hex v i]) [0..<n] (result[n := NUL]) =
      map (\<lambda>k. cifra_hex v (n - 1 - k)) [0..<n] @ drop n (result[n := NUL])"
    using escribir_atras [of n "result[n := NUL]" n "cifra_hex v"] assms(3) by simp
  also have "drop n (result[n := NUL]) = NUL # drop (Suc n) result"
    using assms(3) by (simp add: Cons_nth_drop_Suc [symmetric])
  finally show ?thesis using assms by (simp add: uintToAsciiHex_def cifra_hex_div)
qed

end
