(* ===== verification/Sapi_Parser.thy ===== *)
theory Sapi_Parser
  imports Sapi CString
begin

text \<open>
  The pattern recogniser of sAPI (\<^verbatim>\<open>sapi_parser.c\<close>), over its non-blocking delay. The
  pattern is the characters in memory from the pointer on, the terminator included.
\<close>

section \<open>Operations\<close>

datatype parserStatus_t = PARSER_PATTERN_MATCH | PARSER_TIMEOUT | PARSER_RECEIVING

record parser_t =
  p_state :: parserStatus_t
  stringPattern :: string
  stringPatternLen :: u16
  stringIndex :: u16
  p_timeout :: u64
  p_delay :: delay_t

definition parserInit :: "parser_t \<Rightarrow> string \<Rightarrow> u16 \<Rightarrow> u64 \<Rightarrow> (parser_t, 'z) hwprog" where
  "parserInit p pattern len tout =
     bind (delayInit (p_delay p) tout) (\<lambda>d. ret (p\<lparr>
       p_state := PARSER_RECEIVING, stringPattern := pattern, stringPatternLen := len,
       p_timeout := tout, p_delay := d, stringIndex := 0\<rparr>))"

definition parserUpdate :: "parser_t \<Rightarrow> char \<Rightarrow> (parserStatus_t \<times> parser_t, 'z) hwprog" where
  "parserUpdate p receivedChar =
     (case p_state p of
        PARSER_RECEIVING \<Rightarrow>
          if length (stringPattern p) \<le> unat (stringIndex p) then fault OutOfBounds
          else let p' = (if stringPattern p ! unat (stringIndex p) = receivedChar
                         then p\<lparr>p_state := if stringIndex p = stringPatternLen p
                                            then PARSER_PATTERN_MATCH else PARSER_RECEIVING,
                                stringIndex := stringIndex p + 1\<rparr>
                         else p)
          in bind (delayRead (p_delay p')) (\<lambda>(vencido, d).
             let p'' = p'\<lparr>p_delay := d,
                          p_state := if vencido then PARSER_TIMEOUT else p_state p'\<rparr>
             in ret (p_state p'', p''))
      | PARSER_PATTERN_MATCH \<Rightarrow> ret (p_state p, p)
      | PARSER_TIMEOUT \<Rightarrow> ret (p_state p, p))"

text \<open>The calls for a text, one for each character.\<close>

primrec parser_texto :: "string \<Rightarrow> parser_t \<Rightarrow> (parser_t, 'z) hwprog" where
  "parser_texto [] p = ret p"
| "parser_texto (c # cs) p = bind (parserUpdate p c) (\<lambda>(_, p'). parser_texto cs p')"

section \<open>What it recognises\<close>

text \<open>
  The characters of the pattern that the text matches in order, with others in between
  (the longest prefix of the pattern that is a subsequence of the text).
\<close>

fun avance :: "string \<Rightarrow> string \<Rightarrow> nat" where
  "avance [] cs = 0"
| "avance (x # xs) [] = 0"
| "avance (x # xs) (c # cs) = (if x = c then Suc (avance xs cs) else avance (x # xs) cs)"

lemma avance_le: "avance xs cs \<le> length xs"
  by (induction xs cs rule: avance.induct) auto

lemma avance_todo: "avance xs cs = length xs \<longleftrightarrow> subseq xs cs"
  by (induction xs cs rule: avance.induct) (auto simp: subseq_Cons2_iff dest: subseq_Cons')

lemma avance_Nil [simp]: "avance xs [] = 0"
  by (cases xs) auto

text \<open>
  The invariant of a recogniser: it is still receiving exactly while its index has not
  passed the length it was given, and the index stays inside the pattern.
\<close>

definition inv_parser :: "parser_t \<Rightarrow> bool" where
  "inv_parser p \<longleftrightarrow> unat (stringPatternLen p) < length (stringPattern p) \<and>
     stringPatternLen p < 0xFFFF \<and>
     (case p_state p of
        PARSER_RECEIVING \<Rightarrow> stringIndex p \<le> stringPatternLen p
      | PARSER_PATTERN_MATCH \<Rightarrow> stringIndex p = stringPatternLen p + 1
      | PARSER_TIMEOUT \<Rightarrow> True)"

abbreviation pendiente :: "parser_t \<Rightarrow> string" where
  "pendiente p \<equiv> drop (unat (stringIndex p)) (take (Suc (unat (stringPatternLen p))) (stringPattern p))"

text \<open>What a run of updates from \<open>p\<close> over \<open>cs\<close> leaves.\<close>

definition leido :: "parser_t \<Rightarrow> string \<Rightarrow> parser_t \<Rightarrow> 'z hw_scheme \<Rightarrow> bool" where
  "leido p cs p' w \<longleftrightarrow> inv_parser p' \<and> duration (p_delay p') = duration (p_delay p) \<and>
     stringPattern p' = stringPattern p \<and> stringPatternLen p' = stringPatternLen p \<and>
     (case p_state p' of
        PARSER_TIMEOUT \<Rightarrow> duration (p_delay p) \<le> tickCounter w - startTime (p_delay p')
      | PARSER_PATTERN_MATCH \<Rightarrow> subseq (pendiente p) cs
      | PARSER_RECEIVING \<Rightarrow> pendiente p' = drop (avance (pendiente p) cs) (pendiente p) \<and>
          \<not> subseq (pendiente p) cs)"

lemma delayRead_Ret:
  assumes "script w \<noteq> []"
  shows "\<exists>v d' w'. delayRead d w = Ret (v, d') w' \<and> script w' = tl (script w) \<and>
    duration d' = duration d \<and> (v \<longrightarrow> duration d \<le> tickCounter w' - startTime d')"
proof -
  obtain w' where "poll w = Ret () w'" "script w' = tl (script w)"
    using assms by (cases "script w") (auto simp: poll_def)
  then show ?thesis by (auto simp: delayRead_def tickRead_def bind_def)
qed

lemma parser_final: "p_state p \<noteq> PARSER_RECEIVING \<Longrightarrow> parser_texto cs p w = Ret p w"
  by (induction cs) (auto simp: parserUpdate_def bind_def split: parserStatus_t.splits)

lemma leido_final: "p_state p' \<noteq> PARSER_RECEIVING \<Longrightarrow> leido p [c] p' w \<Longrightarrow> leido p (c # cs) p' w"
  by (auto simp: leido_def split: parserStatus_t.splits dest: subseq_order.trans)

lemma avance_Cons:
  assumes "Y = drop (avance X [c]) X"
  shows "drop (avance X (c # cs)) X = drop (avance Y cs) Y" "subseq X (c # cs) \<longleftrightarrow> subseq Y cs"
  using assms by (cases X, auto)+

lemma leido_sigue:
  "p_state p' = PARSER_RECEIVING \<Longrightarrow> leido p [c] p' w \<Longrightarrow> leido p' cs p'' w' \<Longrightarrow> leido p (c # cs) p'' w'"
  using avance_Cons [of "pendiente p'" "pendiente p" c cs]
  by (auto simp: leido_def split: parserStatus_t.splits)

lemma parserUpdate_leido:
  assumes "inv_parser p" "p_state p = PARSER_RECEIVING" "script w \<noteq> []"
  shows "\<exists>p' w'. parserUpdate p c w = Ret (p_state p', p') w' \<and> script w' = tl (script w) \<and> leido p [c] p' w'"
proof -
  let ?i = "stringIndex p" and ?n = "stringPatternLen p"
  have i: "unat ?i \<le> unat ?n" "unat ?n < length (stringPattern p)" "unat ?n < 0xFFFF"
    using assms by (auto simp: inv_parser_def word_le_nat_alt word_less_nat_alt)
  then have s: "unat (?i + 1) = Suc (unat ?i)" "unat (?n + 1) = Suc (unat ?n)"
    by (simp_all add: unat_word_ariths)
  have pd: "pendiente p = stringPattern p ! unat ?i #
      drop (Suc (unat ?i)) (take (Suc (unat ?n)) (stringPattern p))"
    using i by (subst Cons_nth_drop_Suc [symmetric]) auto
  obtain v d w' where d: "delayRead (p_delay p) w = Ret (v, d) w'" "script w' = tl (script w)"
    "duration d = duration (p_delay p)" "v \<longrightarrow> duration (p_delay p) \<le> tickCounter w' - startTime d"
    using delayRead_Ret [OF assms(3)] by blast
  define p1 where "p1 = (if stringPattern p ! unat ?i = c
    then p\<lparr>p_state := if ?i = ?n then PARSER_PATTERN_MATCH else PARSER_RECEIVING, stringIndex := ?i + 1\<rparr>
    else p)"
  define p2 where "p2 = p1\<lparr>p_delay := d, p_state := if v then PARSER_TIMEOUT else p_state p1\<rparr>"
  have "p_delay p1 = p_delay p" by (simp add: p1_def)
  then have "parserUpdate p c w = Ret (p_state p2, p2) w'"
    using assms(2) i d(1) unfolding parserUpdate_def p1_def [symmetric]
    by (simp add: Let_def bind_def p2_def)
  moreover have "leido p [c] p2 w'"
  proof (cases "stringPattern p ! unat ?i = c")
    case True
    then have "p1 = p\<lparr>p_state := if ?i = ?n then PARSER_PATTERN_MATCH else PARSER_RECEIVING, stringIndex := ?i + 1\<rparr>"
      by (simp add: p1_def)
    then show ?thesis using i s pd d assms True
      by (auto simp: p2_def leido_def inv_parser_def word_le_nat_alt word_unat_eq_iff)
  next
    case False
    then show ?thesis using i s pd d assms
      by (auto simp: p1_def p2_def leido_def inv_parser_def)
  qed
  ultimately show ?thesis using d(2) by blast
qed

lemma parser_texto_leido:
  "inv_parser p \<Longrightarrow> p_state p = PARSER_RECEIVING \<Longrightarrow> length cs \<le> length (script w) \<Longrightarrow>
     \<exists>p' w'. parser_texto cs p w = Ret p' w' \<and> leido p cs p' w'"
proof (induction cs arbitrary: p w)
  case Nil
  then show ?case by (auto simp: leido_def inv_parser_def word_le_nat_alt)
next
  case (Cons c cs)
  then have "script w \<noteq> []" by auto
  with Cons.prems obtain p1 w1 where u: "parserUpdate p c w = Ret (p_state p1, p1) w1"
    and s: "script w1 = tl (script w)" and l: "leido p [c] p1 w1" using parserUpdate_leido by blast
  show ?case
  proof (cases "p_state p1 = PARSER_RECEIVING")
    case True
    have "inv_parser p1" "length cs \<le> length (script w1)" using l s Cons.prems by (auto simp: leido_def)
    with Cons.IH True obtain p2 w2 where "parser_texto cs p1 w1 = Ret p2 w2" "leido p1 cs p2 w2" by blast
    then show ?thesis using u leido_sigue [OF True l] by (auto simp: bind_def)
  next
    case False
    then show ?thesis using u leido_final [OF False l] by (simp add: bind_def parser_final)
  qed
qed

text \<open>C34: a recogniser set up with \<^verbatim>\<open>parserInit\<close> and given the characters of a text returns
  from every update, never reads outside its pattern, and ends in \<open>PARSER_PATTERN_MATCH\<close>
  only when the first \<open>len + 1\<close> characters of the pattern are a subsequence of the text,
  in \<open>PARSER_TIMEOUT\<close> only when the time has passed since its first update, and in
  \<open>PARSER_RECEIVING\<close> otherwise. So with the length \<^verbatim>\<open>strlen\<close> gives, a text without
  a \<^verbatim>\<open>NUL\<close> is never recognised, not even the pattern itself.
\<close>

theorem parser_reconoce:
  assumes "unat len < length pat" and "len < 0xFFFF" and "length cs \<le> length (script w)"
  shows "\<exists>p' w'. bind (parserInit p pat len tout) (parser_texto cs) w = Ret p' w' \<and>
    (case p_state p' of
       PARSER_PATTERN_MATCH \<Rightarrow> subseq (take (Suc (unat len)) pat) cs
     | PARSER_TIMEOUT \<Rightarrow> tout div tickRateMS w \<le> tickCounter w' - startTime (p_delay p')
     | PARSER_RECEIVING \<Rightarrow> \<not> subseq (take (Suc (unat len)) pat) cs) \<and>
    (pat ! unat len \<notin> set cs \<longrightarrow> p_state p' \<noteq> PARSER_PATTERN_MATCH)"
proof -
  obtain q where q: "parserInit p pat len tout w = Ret q w" "p_state q = PARSER_RECEIVING"
    "stringPattern q = pat" "stringPatternLen q = len" "stringIndex q = 0"
    "duration (p_delay q) = tout div tickRateMS w"
    by (auto simp: parserInit_def delayInit_def bind_def)
  then have "inv_parser q" using assms(1,2) by (simp add: inv_parser_def)
  then obtain p' w' where r: "parser_texto cs q w = Ret p' w'" "leido q cs p' w'"
    using parser_texto_leido q(2) assms(3) by blast
  have "pat ! unat len \<in> set cs" if "subseq (take (Suc (unat len)) pat) cs"
    using list_emb_set [OF that, of "pat ! unat len"] assms(1) by (auto simp: take_Suc_conv_app_nth)
  with r q show ?thesis by (auto simp: bind_def leido_def split: parserStatus_t.splits)
qed

lemma parser_reconoce_witness:
  "\<exists>p' w'. bind (parserInit \<lparr>p_state = PARSER_TIMEOUT, stringPattern = [], stringPatternLen = 0,
       stringIndex = 0, p_timeout = 0, p_delay = \<lparr>startTime = 0, duration = 0, running = False\<rparr>\<rparr>
       (''OK'' @ [NUL]) 2 10) (parser_texto ''O!KK'') (hw0 [[], [], [], []] ()) = Ret p' w' \<and>
     p_state p' \<noteq> PARSER_PATTERN_MATCH"
  using parser_reconoce [of 2 "''OK'' @ [NUL]" "''O!KK''" "hw0 [[], [], [], []] ()"
      "\<lparr>p_state = PARSER_TIMEOUT, stringPattern = [], stringPatternLen = 0,
       stringIndex = 0, p_timeout = 0, p_delay = \<lparr>startTime = 0, duration = 0, running = False\<rparr>\<rparr>" 10]
  by (auto simp: hw0_def)

end
