(* ===== verification/Sapi_Boton.thy ===== *)
theory Sapi_Boton
  imports Sapi
begin

text \<open>
  The push button of sAPI (\<^verbatim>\<open>sapi_button.c\<close>): a state machine that is updated at a fixed
  period and calls back on a press, a release and a long press. Its callbacks are
  functions of the program that uses it; the model gives the list of the ones an update
  calls, in order, and takes it that they leave the button alone.
\<close>

section \<open>Operations\<close>

datatype buttonEvent_t =
  BUTTON_NO_EVENT | BUTTON_PRESSED | BUTTON_RELEASED | BUTTON_HOLD_PRESED | BUTTON_EVENT_HANDLED

datatype buttonLogic_t = BUTTON_ZERO_IS_UP | BUTTON_ONE_IS_UP

datatype buttonFsmState_t = BUTTON_UP | BUTTON_DOWN | BUTTON_FALLING | BUTTON_RISING

record 'f button_t =
  b_gpio :: gpioMap_t
  b_logic :: buttonLogic_t
  refreshTime :: u64
  b_state :: buttonFsmState_t
  flagUp :: bool
  flagDown :: bool
  flagFalling :: bool
  flagRising :: bool
  timeInSate :: u64
  b_event :: buttonEvent_t
  checkPressedEvent :: bool
  checkReleasedEvent :: bool
  checkHoldPressedEvent :: bool
  holdPressedTime :: u64
  pressedCallback :: "'f option"
  releasedCallback :: "'f option"
  holdPressedCallback :: "'f option"

definition buttonIsUp :: "'f button_t \<Rightarrow> (bool, 'z) hwprog" where
  "buttonIsUp button = bind (gpioRead (b_gpio button)) (\<lambda>gpioStatus.
     if b_logic button = BUTTON_ONE_IS_UP then ret gpioStatus else ret (\<not> gpioStatus))"

definition buttonIsDown :: "'f button_t \<Rightarrow> (bool, 'z) hwprog" where
  "buttonIsDown button = bind (buttonIsUp button) (\<lambda>up. ret (\<not> up))"

definition buttonInitState :: "'f button_t \<Rightarrow> (buttonFsmState_t, 'z) hwprog" where
  "buttonInitState button = bind (buttonIsDown button) (\<lambda>down.
     if down then ret BUTTON_DOWN else ret BUTTON_UP)"

definition buttonFsmInit :: "'f button_t \<Rightarrow> ('f button_t, 'z) hwprog" where
  "buttonFsmInit button = bind (buttonInitState button) (\<lambda>s. ret (button\<lparr>
     b_state := s, timeInSate := 0, flagUp := False, flagDown := False, flagFalling := False,
     flagRising := False\<rparr>))"

definition buttonInit ::
  "'f button_t \<Rightarrow> gpioMap_t \<Rightarrow> buttonLogic_t \<Rightarrow> u64 \<Rightarrow> bool \<Rightarrow> bool \<Rightarrow> bool \<Rightarrow> u64 \<Rightarrow>
   'f option \<Rightarrow> 'f option \<Rightarrow> 'f option \<Rightarrow> ('f button_t, 'z) hwprog" where
  "buttonInit button pin lgc refr chkP chkR chkH hold cbP cbR cbH =
     bind (buttonFsmInit (button\<lparr>b_gpio := pin, b_logic := lgc, refreshTime := refr\<rparr>)) (\<lambda>button.
     ret (button\<lparr>b_event := BUTTON_NO_EVENT, checkPressedEvent := chkP, checkReleasedEvent := chkR,
       checkHoldPressedEvent := chkH, holdPressedTime := hold, pressedCallback := cbP,
       releasedCallback := cbR, holdPressedCallback := cbH\<rparr>))"

definition buttonEventGet :: "'f button_t \<Rightarrow> buttonEvent_t" where
  "buttonEventGet button = b_event button"

definition buttonEventHandled :: "'f button_t \<Rightarrow> 'f button_t" where
  "buttonEventHandled button = button\<lparr>b_event := BUTTON_EVENT_HANDLED\<rparr>"

definition buttonStateGet :: "'f button_t \<Rightarrow> buttonFsmState_t" where
  "buttonStateGet button = b_state button"

definition buttonTimeInStateGet :: "'f button_t \<Rightarrow> u64" where
  "buttonTimeInStateGet button = timeInSate button"

abbreviation llamada :: "'f option \<Rightarrow> 'f list" where
  "llamada cb \<equiv> (case cb of None \<Rightarrow> [] | Some f \<Rightarrow> [f])"

definition buttonFsmUpdate :: "'f button_t \<Rightarrow> ('f button_t \<times> 'f list, 'z) hwprog" where
  "buttonFsmUpdate button0 =
     (let button = button0\<lparr>timeInSate := timeInSate button0 + refreshTime button0\<rparr> in
      case b_state button of
        BUTTON_UP \<Rightarrow>
          (let button = (if flagUp button = False
                         then button\<lparr>flagUp := True, b_event := BUTTON_NO_EVENT\<rparr> else button) in
           bind (buttonIsDown button) (\<lambda>down.
           let button = (if down then button\<lparr>b_state := BUTTON_FALLING, timeInSate := 0\<rparr> else button) in
           ret (if b_state button \<noteq> BUTTON_UP
                then button\<lparr>flagUp := False, timeInSate := 0, b_event := BUTTON_NO_EVENT\<rparr>
                else button, [])))
      | BUTTON_DOWN \<Rightarrow>
          (let button = (if flagDown button = False
                         then button\<lparr>flagDown := True, b_event := BUTTON_NO_EVENT\<rparr> else button) in
           bind (buttonIsUp button) (\<lambda>up.
           let button = (if up then button\<lparr>b_state := BUTTON_RISING\<rparr> else button);
               (button, ll) =
                 (if checkHoldPressedEvent button \<and> timeInSate button \<ge> holdPressedTime button \<and>
                     b_event button = BUTTON_NO_EVENT
                  then (button\<lparr>b_event := BUTTON_HOLD_PRESED\<rparr>, llamada (holdPressedCallback button))
                  else (button, [])) in
           ret (if b_state button \<noteq> BUTTON_DOWN
                then button\<lparr>flagDown := False, timeInSate := 0, b_event := BUTTON_NO_EVENT\<rparr>
                else button, ll)))
      | BUTTON_FALLING \<Rightarrow>
          (let button = (if flagFalling button = False then button\<lparr>flagFalling := True\<rparr> else button) in
           bind (buttonIsDown button) (\<lambda>down.
           let (button, ll) =
                 (if down then
                    (let button = button\<lparr>b_state := BUTTON_DOWN\<rparr> in
                     if checkPressedEvent button
                     then (button\<lparr>b_event := BUTTON_PRESSED\<rparr>, llamada (pressedCallback button))
                     else (button, []))
                  else (button\<lparr>b_state := BUTTON_UP\<rparr>, [])) in
           ret (if b_state button \<noteq> BUTTON_FALLING
                then button\<lparr>flagFalling := False, timeInSate := 0\<rparr> else button, ll)))
      | BUTTON_RISING \<Rightarrow>
          (let button = (if flagRising button = False then button\<lparr>flagRising := True\<rparr> else button) in
           bind (buttonIsUp button) (\<lambda>up.
           let (button, ll) =
                 (if up then
                    (let button = button\<lparr>b_state := BUTTON_UP\<rparr> in
                     if checkReleasedEvent button
                     then (button\<lparr>b_event := BUTTON_RELEASED\<rparr>, llamada (releasedCallback button))
                     else (button, []))
                  else (button\<lparr>b_state := BUTTON_DOWN\<rparr>, [])) in
           ret (if b_state button \<noteq> BUTTON_RISING
                then button\<lparr>flagRising := False, timeInSate := 0\<rparr> else button, ll))))"

text \<open>The updates of \<open>n\<close> periods, and the readings (down or not) they make.\<close>

primrec actualizaciones :: "nat \<Rightarrow> 'f button_t \<Rightarrow> ('f button_t \<times> 'f list, 'z) hwprog" where
  "actualizaciones 0 b = ret (b, [])"
| "actualizaciones (Suc n) b =
     bind (buttonFsmUpdate b) (\<lambda>(b, ll). bind (actualizaciones n b) (\<lambda>(b, ll'). ret (b, ll @ ll')))"

primrec lecturas :: "nat \<Rightarrow> 'f button_t \<Rightarrow> (bool list, 'z) hwprog" where
  "lecturas 0 b = ret []"
| "lecturas (Suc n) b = bind (buttonIsDown b) (\<lambda>d. bind (lecturas n b) (\<lambda>ds. ret (d # ds)))"

text \<open>A button in a zeroed structure.\<close>

definition boton0 :: "'f button_t" where
  "boton0 = \<lparr>b_gpio = 0, b_logic = BUTTON_ZERO_IS_UP, refreshTime = 0, b_state = BUTTON_UP, flagUp = False,
     flagDown = False, flagFalling = False, flagRising = False, timeInSate = 0,
     b_event = BUTTON_NO_EVENT, checkPressedEvent = False, checkReleasedEvent = False,
     checkHoldPressedEvent = False, holdPressedTime = 0, pressedCallback = None, releasedCallback = None,
     holdPressedCallback = None\<rparr>"

section \<open>Debouncing\<close>

text \<open>
  The specification: the button has a settled position, which changes when two readings
  in a row disagree with it. The list is of the new positions (down or not).
\<close>

fun antirrebote :: "bool \<Rightarrow> bool list \<Rightarrow> bool list" where
  "antirrebote s (a # b # ds) =
     (if a = s then antirrebote s (b # ds)
      else if b = s then antirrebote s ds
      else b # antirrebote b ds)"
| "antirrebote s ds = []"

text \<open>The events alternate.\<close>

fun alternan :: "bool \<Rightarrow> bool list \<Rightarrow> bool" where
  "alternan s [] = True"
| "alternan s (e # es) = (e \<noteq> s \<and> alternan e es)"

lemma antirrebote_alterna: "alternan s (antirrebote s ds)"
  by (induction s ds rule: antirrebote.induct) auto

text \<open>A single reading between two that agree with the position is never an event.\<close>

lemma antirrebote_ruido:
  "antirrebote s (s # ds) = antirrebote s ds"
  "antirrebote s ((\<not> s) # s # ds) = antirrebote s ds"
  by (cases ds; simp)+

section \<open>The state machine debounces\<close>

definition asentado :: "'f button_t \<Rightarrow> bool" where
  "asentado b \<longleftrightarrow> b_state b = BUTTON_DOWN \<or> b_state b = BUTTON_RISING"

definition en_duda :: "'f button_t \<Rightarrow> bool list" where
  "en_duda b = (case b_state b of
     BUTTON_FALLING \<Rightarrow> [True] | BUTTON_RISING \<Rightarrow> [False] | _ \<Rightarrow> [])"

text \<open>A button on a pin that calls \<open>fp\<close> and \<open>fr\<close>.\<close>

definition avisa :: "gpioMap_t \<Rightarrow> buttonLogic_t \<Rightarrow> 'f \<Rightarrow> 'f \<Rightarrow> 'f button_t \<Rightarrow> bool" where
  "avisa pin lgc fp fr b \<longleftrightarrow> b_gpio b = pin \<and> b_logic b = lgc \<and> checkPressedEvent b \<and> checkReleasedEvent b \<and>
     pressedCallback b = Some fp \<and> releasedCallback b = Some fr \<and>
     (checkHoldPressedEvent b \<longrightarrow> holdPressedCallback b = None)"

abbreviation aviso :: "'f \<Rightarrow> 'f \<Rightarrow> bool \<Rightarrow> 'f" where
  "aviso fp fr down \<equiv> (if down then fp else fr)"

lemma boton_leido:
  assumes "buttonIsDown b w = Ret d w'" and "b_gpio c = b_gpio b" and "b_logic c = b_logic b"
  shows "buttonIsDown c w = Ret d w'" "buttonIsUp c w = Ret (\<not> d) w'"
  using assms by (auto simp: buttonIsDown_def buttonIsUp_def bind_def split: res.splits if_splits)

lemma buttonIsDown_conf:
  "b_gpio b = b_gpio c \<Longrightarrow> b_logic b = b_logic c \<Longrightarrow> buttonIsDown b w = buttonIsDown c w"
  by (simp add: buttonIsDown_def buttonIsUp_def bind_def)

lemma lecturas_conf:
  "b_gpio b = b_gpio c \<Longrightarrow> b_logic b = b_logic c \<Longrightarrow> lecturas n b w = lecturas n c w"
  by (induction n arbitrary: w) (simp_all add: bind_def buttonIsDown_conf [of b c])

lemma paso_boton:
  assumes "avisa pin lgc fp fr b" and r: "buttonIsDown b w = Ret d w'"
  shows "\<exists>b' es. buttonFsmUpdate b w = Ret (b', map (aviso fp fr) es) w' \<and> avisa pin lgc fp fr b' \<and>
     (\<forall>ds. antirrebote (asentado b) (en_duda b @ d # ds) =
           es @ antirrebote (asentado b') (en_duda b' @ ds))"
proof (cases "b_state b")
  case BUTTON_UP
  then show ?thesis using assms(1)
    by (auto simp: buttonFsmUpdate_def boton_leido [OF r] bind_def Let_def avisa_def asentado_def en_duda_def
        antirrebote_ruido [where s = False, simplified])
next
  case BUTTON_DOWN
  then show ?thesis using assms(1)
    by (auto simp: buttonFsmUpdate_def boton_leido [OF r] bind_def Let_def avisa_def asentado_def en_duda_def
        antirrebote_ruido [where s = True, simplified])
next
  case BUTTON_FALLING
  then show ?thesis using assms(1)
    by (auto simp: buttonFsmUpdate_def boton_leido [OF r] bind_def Let_def avisa_def asentado_def en_duda_def)
next
  case BUTTON_RISING
  then show ?thesis using assms(1)
    by (auto simp: buttonFsmUpdate_def boton_leido [OF r] bind_def Let_def avisa_def asentado_def en_duda_def)
qed

lemma actualizaciones_antirrebote:
  assumes "avisa pin lgc fp fr b" and "lecturas n b w = Ret ds w'"
  shows "\<exists>b'. actualizaciones n b w =
     Ret (b', map (aviso fp fr) (antirrebote (asentado b) (en_duda b @ ds))) w'"
  using assms
proof (induction n arbitrary: b w ds)
  case 0
  then show ?case by (auto simp: en_duda_def split: buttonFsmState_t.splits)
next
  case (Suc n)
  obtain d ds' w1 where l: "buttonIsDown b w = Ret d w1" "lecturas n b w1 = Ret ds' w'" "ds = d # ds'"
    using Suc.prems(2) by (auto simp: bind_def split: res.splits)
  obtain b1 es where u: "buttonFsmUpdate b w = Ret (b1, map (aviso fp fr) es) w1" "avisa pin lgc fp fr b1"
    "antirrebote (asentado b) (en_duda b @ d # ds') = es @ antirrebote (asentado b1) (en_duda b1 @ ds')"
    using paso_boton [OF Suc.prems(1) l(1)] by blast
  have "lecturas n b1 w1 = Ret ds' w'"
    using l(2) u(2) Suc.prems(1) lecturas_conf [of b1 b n w1] by (simp add: avisa_def)
  from Suc.IH [OF u(2) this] show ?case using u l(3) by (auto simp: bind_def)
qed

lemma gpioRead_Ret:
  assumes "pin_valido pin" and "script w \<noteq> []"
  shows "\<exists>v w'. gpioRead pin w = Ret v w' \<and> length (script w) \<le> Suc (length (script w'))"
proof -
  obtain w' where "poll w = Ret () w'" "script w' = tl (script w)"
    using assms(2) by (cases "script w") (auto simp: poll_def)
  with assms(1) show ?thesis
    by (elim pin_valido_cases) (auto simp: gpioRead_def Chip_GPIO_GetPinState_def bind_def split: prod.split)
qed

lemma lecturas_Ret:
  assumes "pin_valido (b_gpio b)" and "n \<le> length (script w)"
  shows "\<exists>ds w'. lecturas n b w = Ret ds w' \<and> length ds = n"
  using assms(2)
proof (induction n arbitrary: w)
  case (Suc n)
  then have "script w \<noteq> []" by auto
  then obtain v w1 where "gpioRead (b_gpio b) w = Ret v w1" "length (script w) \<le> Suc (length (script w1))"
    using gpioRead_Ret [OF assms(1)] by blast
  then show ?case using Suc.IH [of w1] Suc.prems
    by (auto simp: buttonIsDown_def buttonIsUp_def bind_def)
qed simp

lemma buttonInit_lee:
  assumes "buttonIsDown (b\<lparr>b_gpio := pin, b_logic := lgc\<rparr>) w = Ret d w'"
  shows "\<exists>b'. buttonInit b pin lgc refr True True False hold (Some fp) (Some fr) cbH w = Ret b' w' \<and>
    avisa pin lgc fp fr b' \<and> asentado b' = d \<and> en_duda b' = []"
  using boton_leido(1) [OF assms, of "b\<lparr>b_gpio := pin, b_logic := lgc, refreshTime := refr\<rparr>"]
  by (auto simp: buttonInit_def buttonFsmInit_def buttonInitState_def bind_def avisa_def asentado_def en_duda_def)



end
