(* ===== verification/Sapi_Print.thy ===== *)
theory Sapi_Print
  imports Sapi Sapi_Convert
begin

text \<open>
  Printing on a UART (\<^verbatim>\<open>sapi_print.c\<close>), over the number conversions. A printer is
  the number of its UART. The global conversion buffer has 200 characters.
\<close>

section \<open>Operations\<close>

type_synonym print_t = uartMap_t

definition printSetUart :: "uartMap_t \<Rightarrow> print_t" where
  "printSetUart uart = uart"

definition printInitUart :: "uartMap_t \<Rightarrow> u32 \<Rightarrow> (print_t, 'z) hwprog" where
  "printInitUart uart baudRate = bind (uartInit uart baudRate) (\<lambda>_. ret uart)"

definition printChar :: "print_t \<Rightarrow> char \<Rightarrow> (unit, 'z) hwprog" where
  "printChar printer aChar = uartWriteByte printer (of_char aChar)"

definition printString :: "print_t \<Rightarrow> string \<Rightarrow> (unit, 'z) hwprog" where
  "printString printer str = uartWriteString printer str"

definition printEnter :: "print_t \<Rightarrow> (unit, 'z) hwprog" where
  "printEnter printer = uartWriteString printer [CHR 0x0D, CHR 0x0A]"

definition printIntFormat :: "print_t \<Rightarrow> int \<Rightarrow> u8 \<Rightarrow> (unit, 'z) hwprog" where
  "printIntFormat printer number format =
     (let (ok, txt) = int64ToString number format in
      bind (store_str 65 txt) (\<lambda>strNumber.
      if ok then uartWriteString printer strNumber else ret ()))"

definition printUIntFormat :: "print_t \<Rightarrow> u64 \<Rightarrow> u8 \<Rightarrow> (unit, 'z) hwprog" where
  "printUIntFormat printer number format =
     (let (ok, txt) = uint64ToString number format in
      bind (store_str 65 txt) (\<lambda>strNumber.
      if ok then uartWriteString printer strNumber else ret ()))"

definition printHex :: "print_t \<Rightarrow> u64 \<Rightarrow> string \<Rightarrow> u8 \<Rightarrow> (unit, 'z) hwprog" where
  "printHex printer number globalStrConvertBuff bitSize =
     bind (uintToAsciiHexGlobal number globalStrConvertBuff bitSize) (\<lambda>str.
     printString printer (takeWhile (\<lambda>c. c \<noteq> NUL) str))"

section \<open>What is sent\<close>

definition enviado :: "uartMap_t \<Rightarrow> string \<Rightarrow> 'z hw_scheme \<Rightarrow> 'z hw_scheme" where
  "enviado u s w = w\<lparr>txLog := (txLog w)(usart u := txLog w (usart u) @ map of_char s)\<rparr>"

lemma uartWriteString_envia: "uartWriteString u s w = Ret () (enviado u s w)"
  by (simp add: uartWriteString_Ret enviado_def)

lemma num_base_length:
  assumes "2 \<le> b"
  shows "length (num_base b n) \<le> Suc k \<longleftrightarrow> n < b ^ Suc k"
  using assms
proof (induction k arbitrary: n)
  case 0
  then show ?case using num_base_no_Nil [of b "n div b"] by (subst num_base.simps) auto
next
  case (Suc k)
  have "n div b < b ^ Suc k \<longleftrightarrow> n < b ^ Suc (Suc k)"
    using Suc.prems by (simp add: div_less_iff_less_mult mult.commute)
  moreover have "n < b ^ Suc (Suc k)" if "n < b"
    using that Suc.prems by (metis Suc_1 Suc_le_lessD order_less_le_trans power_increasing_iff power_one_right le_add1 plus_1_eq_Suc)
  ultimately show ?case using Suc by (subst num_base.simps) auto
qed

lemma texto_cabe:
  assumes "- (2 ^ 63) \<le> v" "v < 2 ^ 63" "2 \<le> b" "b \<le> 36"
  shows "length (snd (int64ToString v b)) < 65 \<longleftrightarrow> \<not> (v = - (2 ^ 63) \<and> b = 2)"
proof -
  let ?n = "nat \<bar>v\<bar>" and ?b = "unat b"
  have b: "2 \<le> ?b" "?b \<le> 36" using assms(3,4) by (simp_all add: word_le_nat_alt)
  have n: "?n \<le> 2 ^ 63" "0 \<le> v \<Longrightarrow> ?n < 2 ^ 63" using assms(1,2) by auto
  have p: "(2 :: nat) ^ 64 \<le> ?b ^ 64" using b(1) by (rule power_mono) simp
  have l: "length (num_base ?b ?n) \<le> 64"
    using num_base_length [OF b(1), of ?n 63] n(1) p by (simp add: order_le_less_trans)
  have "length (num_base ?b ?n) \<le> 63 \<longleftrightarrow> ?n < ?b ^ 63" using num_base_length [OF b(1), of ?n 62] by simp
  moreover have "?n < ?b ^ 63" if "b \<noteq> 2"
  proof -
    have "?b \<noteq> 2" using that by (simp add: word_unat_eq_iff)
    then have "3 \<le> ?b" using b(1) by simp
    then have "(3 :: nat) ^ 63 \<le> ?b ^ 63" by (rule power_mono) simp
    moreover have "(2 :: nat) ^ 63 < 3 ^ 63" by simp
    ultimately show ?thesis using n(1) by linarith
  qed
  moreover have "b = 2 \<Longrightarrow> ?n < ?b ^ 63 \<longleftrightarrow> v \<noteq> - (2 ^ 63) \<and> v \<noteq> 2 ^ 63" using n(1) by auto
  ultimately have "length (num_base ?b ?n) \<le> 63 \<longleftrightarrow> \<not> (b = 2 \<and> v = - (2 ^ 63))" using assms(2) by (cases "b = 2") auto
  then show ?thesis using l assms by (cases "v < 0") (auto simp: int64ToString_num)
qed

text \<open>Printing a number. For every \<^verbatim>\<open>int64_t\<close> and every base from 2 to 36 \<^verbatim>\<open>printIntFormat\<close> sends the text of
  the number and nothing else, except for the least number in binary: its 65 characters and the terminator overflow the
  array of 65. With any other base it sends nothing. \<^verbatim>\<open>printUIntFormat\<close> never overflows it.\<close>

lemma imprime_numero:
  assumes "- (2 ^ 63) \<le> v" and "v < 2 ^ 63"
  shows "printIntFormat p v b w =
     (if b < 2 \<or> 36 < b then Ret () w
      else if v = - (2 ^ 63) \<and> b = 2 then Fault BufferOverflow w
      else Ret () (enviado p ((if v < 0 then ''-'' else []) @ num_base (unat b) (nat \<bar>v\<bar>)) w)) \<and>
    printUIntFormat p u b w =
     (if b < 2 \<or> 36 < b then Ret () w else Ret () (enviado p (num_base (unat b) (unat u)) w))"
proof (cases "b < 2 \<or> 36 < b")
  case True
  then show ?thesis
    by (auto simp: printIntFormat_def printUIntFormat_def int64ToString_num uint64ToString_num store_str_def)
next
  case False
  then have b: "2 \<le> b" "b \<le> 36" "2 \<le> unat b" by (simp_all add: word_le_nat_alt not_less)
  have "(2 :: nat) ^ 64 \<le> unat b ^ 64" using b(3) by (rule power_mono) simp
  then have "unat u < unat b ^ Suc 63" using unsigned_less [of u, where ?'a = nat] by simp
  then have u: "length (num_base (unat b) (unat u)) < 65" using num_base_length [OF b(3), of "unat u" 63] by simp
  show ?thesis
    using texto_cabe [OF assms b(1,2)] u b(1,2) False
    by (auto simp: printIntFormat_def printUIntFormat_def int64ToString_num uint64ToString_num store_str_def
        uartWriteString_envia bind_apply)
qed

lemma imprime_numero_witness:
  "printIntFormat UART_USB (- (2 ^ 63)) 2 (hw0 [] ()) = Fault BufferOverflow (hw0 [] ()) \<and>
   printIntFormat UART_USB (- 12) 10 (hw0 [] ()) = Ret () (enviado UART_USB ''-12'' (hw0 [] ()))"
proof -
  have "num_base 10 12 = ''12''" by code_simp
  then show ?thesis
    using imprime_numero [of "- (2 ^ 63)" UART_USB 2 "hw0 [] ()"] imprime_numero [of "- 12" UART_USB 10 "hw0 [] ()"]
    by simp
qed

end
