(* ===== verification/Sapi_Irq.thy ===== *)
theory Sapi_Irq
  imports Sapi
begin

unbundle bit_operations_syntax

text \<open>
  The interrupt callbacks of sAPI (\<^verbatim>\<open>sapi_uart.c\<close> with \<^verbatim>\<open>SAPI_USE_INTERRUPTS\<close>, and the hook of
  \<^verbatim>\<open>sapi_tick.c\<close>). The static variables \<^verbatim>\<open>rxIsrCallbackUART0\<close>, \<^verbatim>\<open>..2\<close>, \<^verbatim>\<open>..3\<close> and their
  parameters are functions of the number of the USART; \<open>'f\<close> is the type of the function
  pointers and \<open>'p\<close> that of their arguments. The line status a handler reads is an
  argument, and a handler gives the calls it makes, in order.
\<close>

section \<open>UART\<close>

datatype uartEvents_t = UART_RECEIVE | UART_TRANSMITER_FREE

record ('f, 'p) uart_irq =
  rxIsrCallbackUART :: "nat \<Rightarrow> 'f option"
  rxIsrCallbackUARTParams :: "nat \<Rightarrow> 'p option"
  txIsrCallbackUART :: "nat \<Rightarrow> 'f option"
  txIsrCallbackUARTParams :: "nat \<Rightarrow> 'p option"
  uartIER :: "nat \<Rightarrow> u32"          \<comment> \<open>interrupt enable register of each USART\<close>
  uartNvicEnabled :: "nat \<Rightarrow> bool"
  uartNvicPending :: "nat \<Rightarrow> bool"
  uartNvicPriority :: "nat \<Rightarrow> nat"

definition UART_IER_RBRINT :: u32 where "UART_IER_RBRINT = 1"
definition UART_IER_THREINT :: u32 where "UART_IER_THREINT = 2"
definition UART_IER_RLSINT :: u32 where "UART_IER_RLSINT = 4"
definition UART_LSR_RDR :: u8 where "UART_LSR_RDR = 1"
definition UART_LSR_THRE :: u8 where "UART_LSR_THRE = 0x20"

definition uartInterrupt :: "uartMap_t \<Rightarrow> bool \<Rightarrow> ('f, 'p) uart_irq \<Rightarrow> ('f, 'p) uart_irq" where
  "uartInterrupt uart enable s =
     (if enable
      then s\<lparr>uartNvicPriority := (uartNvicPriority s)(usart uart := 5),
             uartNvicEnabled := (uartNvicEnabled s)(usart uart := True)\<rparr>
      else s\<lparr>uartNvicEnabled := (uartNvicEnabled s)(usart uart := False)\<rparr>)"

text \<open>The number of the callback a map entry has, none for the UART that is not routed.\<close>

definition isr_de :: "uartMap_t \<Rightarrow> nat option" where
  "isr_de uart =
     (if uart = UART_GPIO \<or> uart = UART_485 then Some 0
      else if uart = UART_USB \<or> uart = UART_ENET then Some 2
      else if uart = UART_232 then Some 3 else None)"

definition poner :: "'i option \<Rightarrow> 'v \<Rightarrow> ('i \<Rightarrow> 'v) \<Rightarrow> 'i \<Rightarrow> 'v" where
  "poner i v f = (case i of None \<Rightarrow> f | Some n \<Rightarrow> f(n := v))"

definition uartCallbackSet ::
  "uartMap_t \<Rightarrow> uartEvents_t \<Rightarrow> 'f option \<Rightarrow> 'p option \<Rightarrow> ('f, 'p) uart_irq \<Rightarrow> ('f, 'p) uart_irq" where
  "uartCallbackSet uart event callbackFunc callbackParam s =
     (if callbackFunc = None then s
      else case event of
        UART_RECEIVE \<Rightarrow> s\<lparr>
          rxIsrCallbackUART := poner (isr_de uart) callbackFunc (rxIsrCallbackUART s),
          rxIsrCallbackUARTParams := poner (isr_de uart) callbackParam (rxIsrCallbackUARTParams s),
          uartIER := (uartIER s)(usart uart := uartIER s (usart uart) OR (UART_IER_RBRINT OR UART_IER_RLSINT))\<rparr>
      | UART_TRANSMITER_FREE \<Rightarrow> s\<lparr>
          txIsrCallbackUART := poner (isr_de uart) callbackFunc (txIsrCallbackUART s),
          txIsrCallbackUARTParams := poner (isr_de uart) callbackParam (txIsrCallbackUARTParams s),
          uartIER := (uartIER s)(usart uart := uartIER s (usart uart) OR UART_IER_THREINT)\<rparr>)"

definition uartCallbackClr :: "uartMap_t \<Rightarrow> uartEvents_t \<Rightarrow> ('f, 'p) uart_irq \<Rightarrow> ('f, 'p) uart_irq" where
  "uartCallbackClr uart event s =
     (let intMask = (case event of UART_RECEIVE \<Rightarrow> UART_IER_RBRINT OR UART_IER_RLSINT
                     | UART_TRANSMITER_FREE \<Rightarrow> UART_IER_THREINT)
      in s\<lparr>uartIER := (uartIER s)(usart uart := uartIER s (usart uart) AND NOT intMask)\<rparr>)"

definition uartSetPendingInterrupt :: "uartMap_t \<Rightarrow> ('f, 'p) uart_irq \<Rightarrow> ('f, 'p) uart_irq" where
  "uartSetPendingInterrupt uart s = s\<lparr>uartNvicPending := (uartNvicPending s)(usart uart := True)\<rparr>"

definition uartClearPendingInterrupt :: "uartMap_t \<Rightarrow> ('f, 'p) uart_irq \<Rightarrow> ('f, 'p) uart_irq" where
  "uartClearPendingInterrupt uart s = s\<lparr>uartNvicPending := (uartNvicPending s)(usart uart := False)\<rparr>"

definition llamada_isr :: "uartMap_t \<Rightarrow> (nat \<Rightarrow> 'f option) \<Rightarrow> (nat \<Rightarrow> 'p option) \<Rightarrow> ('f \<times> 'p option) list" where
  "llamada_isr uart cb params = concat (map (\<lambda>(u, n). if uart = u then (case cb n of None \<Rightarrow> [] | Some f \<Rightarrow> [(f, params n)]) else [])
     [(UART_GPIO, 0), (UART_USB, 2), (UART_232, 3)])"

definition uartProcessIRQ :: "uartMap_t \<Rightarrow> u8 \<Rightarrow> ('f, 'p) uart_irq \<Rightarrow> ('f \<times> 'p option) list" where
  "uartProcessIRQ uart st s =
     (if st AND UART_LSR_RDR \<noteq> 0 then llamada_isr uart (rxIsrCallbackUART s) (rxIsrCallbackUARTParams s) else []) @
     (if st AND UART_LSR_THRE \<noteq> 0 \<and> uartIER s (usart uart) AND UART_IER_THREINT \<noteq> 0
      then llamada_isr uart (txIsrCallbackUART s) (txIsrCallbackUARTParams s) else [])"

definition UART0_IRQHandler :: "u8 \<Rightarrow> ('f, 'p) uart_irq \<Rightarrow> ('f \<times> 'p option) list" where
  "UART0_IRQHandler = uartProcessIRQ UART_GPIO"

definition UART2_IRQHandler :: "u8 \<Rightarrow> ('f, 'p) uart_irq \<Rightarrow> ('f \<times> 'p option) list" where
  "UART2_IRQHandler = uartProcessIRQ UART_USB"

definition UART3_IRQHandler :: "u8 \<Rightarrow> ('f, 'p) uart_irq \<Rightarrow> ('f \<times> 'p option) list" where
  "UART3_IRQHandler = uartProcessIRQ UART_232"

section \<open>Tick\<close>

record ('f, 'p) tick_hook =
  tickHookFunction :: "'f option"
  callBackFuncParams :: "'p option"

definition tickWrite :: "u64 \<Rightarrow> (unit, 'z) hwprog" where
  "tickWrite ticks = modify (\<lambda>w. w\<lparr>tickCounter := ticks\<rparr>)"

definition tickCallbackSet :: "'f option \<Rightarrow> 'p option \<Rightarrow> ('f, 'p) tick_hook \<Rightarrow> bool \<times> ('f, 'p) tick_hook" where
  "tickCallbackSet tickCallback tickCallbackParams s =
     (let (retVal, s) = (if tickCallback \<noteq> None then (True, s\<lparr>tickHookFunction := tickCallback\<rparr>) else (False, s)) in
      if tickCallbackParams \<noteq> None then (retVal, s\<lparr>callBackFuncParams := tickCallbackParams\<rparr>)
      else (False, s))"

text \<open>The whole handler, with the hook: the calls it makes.\<close>

definition SysTick_Handler :: "('f, 'p) tick_hook \<Rightarrow> 'z hw_scheme \<Rightarrow> ('f \<times> 'p option) list \<times> 'z hw_scheme" where
  "SysTick_Handler s w =
     ((case tickHookFunction s of None \<Rightarrow> [] | Some f \<Rightarrow> [(f, callBackFuncParams s)]), tickerCallback w)"

section \<open>What the handlers call\<close>

definition UART_IRQHandler :: "nat \<Rightarrow> u8 \<Rightarrow> ('f, 'p) uart_irq \<Rightarrow> ('f \<times> 'p option) list" where
  "UART_IRQHandler n = (if n = 0 then UART0_IRQHandler else if n = 2 then UART2_IRQHandler
     else if n = 3 then UART3_IRQHandler else (\<lambda>_ _. []))"

text \<open>
  The specification of an interrupt: the receive callback if a byte has arrived, then the
  transmit callback if the transmitter is free and its interrupt is enabled.
\<close>

lemma UART_IRQHandler_llama:
  assumes "n \<in> {0, 2, 3}"
  shows "UART_IRQHandler n st s =
    (if st AND UART_LSR_RDR \<noteq> 0 then (case rxIsrCallbackUART s n of None \<Rightarrow> [] | Some f \<Rightarrow> [(f, rxIsrCallbackUARTParams s n)]) else []) @
    (if st AND UART_LSR_THRE \<noteq> 0 \<and> uartIER s n AND UART_IER_THREINT \<noteq> 0
     then (case txIsrCallbackUART s n of None \<Rightarrow> [] | Some f \<Rightarrow> [(f, txIsrCallbackUARTParams s n)]) else [])"
  using assms
  by (auto simp: UART_IRQHandler_def UART0_IRQHandler_def UART2_IRQHandler_def UART3_IRQHandler_def uartProcessIRQ_def
      llamada_isr_def UART_GPIO_def UART_USB_def UART_232_def usart_def lpcUarts_def)

lemma isr_usart: "isr_de uart = Some n \<Longrightarrow> usart uart = n \<and> n \<in> {0, 2, 3}"
  by (auto simp: isr_de_def usart_def lpcUarts_def UART_GPIO_def UART_485_def UART_USB_def UART_ENET_def UART_232_def
      split: if_splits)

text \<open>
  A callback that was set is called, with its parameter, by the handler of its USART and
  by no other; the other callbacks stay.
\<close>

lemma callback_uart:
  assumes "isr_de uart = Some n" and "m \<in> {0, 2, 3}"
  shows "UART_IRQHandler m UART_LSR_RDR (uartCallbackSet uart UART_RECEIVE (Some f) p s) =
     (if m = n then [(f, p)] else UART_IRQHandler m UART_LSR_RDR s)"
    and "UART_IRQHandler m UART_LSR_THRE (uartCallbackSet uart UART_TRANSMITER_FREE (Some f) p s) =
     (if m = n then [(f, p)] else UART_IRQHandler m UART_LSR_THRE s)"
proof -
  have d: "UART_LSR_RDR AND UART_LSR_THRE = 0" "UART_LSR_THRE AND UART_LSR_RDR = 0"
    "UART_LSR_RDR \<noteq> 0" "UART_LSR_THRE \<noteq> 0"
    by (simp_all add: UART_LSR_RDR_def UART_LSR_THRE_def)
  have o: "(x OR UART_IER_THREINT) AND UART_IER_THREINT \<noteq> 0" for x
    by (simp add: bit.conj_disj_distrib2 and.commute UART_IER_THREINT_def)
  note [simp] = UART_IRQHandler_llama [OF assms(2)] uartCallbackSet_def poner_def isr_usart [OF assms(1)] assms(1) d
  show "UART_IRQHandler m UART_LSR_RDR (uartCallbackSet uart UART_RECEIVE (Some f) p s) =
     (if m = n then [(f, p)] else UART_IRQHandler m UART_LSR_RDR s)" by (simp split: option.split)
  show "UART_IRQHandler m UART_LSR_THRE (uartCallbackSet uart UART_TRANSMITER_FREE (Some f) p s) =
     (if m = n then [(f, p)] else UART_IRQHandler m UART_LSR_THRE s)" using o by (simp split: option.split)
qed

text \<open>
  Clearing a callback only masks the interrupt: the handler does not look whether the receive
  interrupt is enabled, so an interrupt for the transmitter still calls the receive callback
  when a byte has arrived. The transmit callback is not called any more.
\<close>

lemma callback_borrado:
  assumes "isr_de uart = Some n"
  shows "rxIsrCallbackUART s n = Some f \<Longrightarrow>
      UART_IRQHandler n UART_LSR_RDR (uartCallbackClr uart UART_RECEIVE s) = [(f, rxIsrCallbackUARTParams s n)]"
    and "UART_IRQHandler n UART_LSR_THRE (uartCallbackClr uart UART_TRANSMITER_FREE s) = []"
proof -
  have m: "(x AND NOT y) AND y = 0" for x y :: u32 by (rule bit_eqI) (auto simp: bit_simps)
  show "rxIsrCallbackUART s n = Some f \<Longrightarrow>
      UART_IRQHandler n UART_LSR_RDR (uartCallbackClr uart UART_RECEIVE s) = [(f, rxIsrCallbackUARTParams s n)]"
    "UART_IRQHandler n UART_LSR_THRE (uartCallbackClr uart UART_TRANSMITER_FREE s) = []"
    using isr_usart [OF assms] m
    by (auto simp: UART_IRQHandler_llama uartCallbackClr_def Let_def UART_LSR_RDR_def UART_LSR_THRE_def)
qed

text \<open>
  A hook without a parameter is installed although the function reports a failure.
\<close>

lemma gancho_sin_parametro:
  "tickCallbackSet (Some f) None s = (False, s\<lparr>tickHookFunction := Some f\<rparr>)"
  "fst (SysTick_Handler (snd (tickCallbackSet (Some f) None s)) w) = [(f, callBackFuncParams s)]"
  by (simp_all add: tickCallbackSet_def SysTick_Handler_def)

end
