(* ===== verification/Sapi_I2c_Soft.thy ===== *)
theory Sapi_I2c_Soft
  imports Sapi
begin

text \<open>
  The software I2C master of sAPI (\<^verbatim>\<open>sapi_software_i2c.c\<close>), which the lock does not
  call: two pins of the GPIO block driven so that they form the start and stop
  conditions, the bytes and the acknowledge slots of the bus.

  The specification is a decoder of the bus: from what the master does with
  the two lines it recovers the conditions and the bits. The functions are shown
  to emit exactly the frames of a transfer, in every environment (\<open>emite\<close>), and to
  return when the slave does not hold the clock (\<open>vuelve\<close>). The pin test of
  \<^verbatim>\<open>SOFTWARE_I2C_DEBUG\<close>, which is 0, is not compiled and not modelled.
\<close>

section \<open>State\<close>

text \<open>
  \<open>traza\<close> is a ghost variable: after every change of a line, newest first, what the master does
  with SCL (\<open>True\<close>: released, which on this bus means high, because the function waits for it) and with
  SDA (\<open>Some v\<close>: driven to \<open>v\<close>, \<open>None\<close>: released).
\<close>

record i2csw = hw +
  traza :: "(bool \<times> bool option) list"

type_synonym ('a, 'z) iprog = "('a, 'z i2csw_scheme) prog"

definition GPIO8 :: gpioMap_t where "GPIO8 = 11"
definition I2C_SOFTWARE_SDA_DIR :: gpioMap_t where "I2C_SOFTWARE_SDA_DIR = GPIO7"
definition I2C_SOFTWARE_SDA_IN :: gpioMap_t where "I2C_SOFTWARE_SDA_IN = GPIO7"
definition I2C_SOFTWARE_SDA_OUT :: gpioMap_t where "I2C_SOFTWARE_SDA_OUT = GPIO7"
definition I2C_SOFTWARE_SCL_DIR :: gpioMap_t where "I2C_SOFTWARE_SCL_DIR = GPIO8"
definition I2C_SOFTWARE_SCL_IN :: gpioMap_t where "I2C_SOFTWARE_SCL_IN = GPIO8"
definition I2C_SOFTWARE_SCL_OUT :: gpioMap_t where "I2C_SOFTWARE_SCL_OUT = GPIO8"

lemmas i2c_pin_defs = GPIO8_def I2C_SOFTWARE_SDA_DIR_def I2C_SOFTWARE_SDA_IN_def I2C_SOFTWARE_SDA_OUT_def
  I2C_SOFTWARE_SCL_DIR_def I2C_SOFTWARE_SCL_IN_def I2C_SOFTWARE_SCL_OUT_def GPIO7_def

datatype I2C_Software_rw_t = I2C_SOFTWARE_WRITE | I2C_SOFTWARE_READ

text \<open>GPIO ports and bits of the two pins.\<close>

definition SDA :: pin where "SDA = (3, 7)"
definition SCL :: pin where "SCL = (2, 8)"

definition niveles :: "'z i2csw_scheme \<Rightarrow> bool \<times> bool option" where
  "niveles w = (\<not> pinDir w SCL \<or> pinOut w SCL, if pinDir w SDA then Some (pinOut w SDA) else None)"

definition anotar :: "(unit, 'z) iprog" where
  "anotar = modify (\<lambda>w. w\<lparr>traza := niveles w # traza w\<rparr>)"

lemma niveles_traza [simp]: "niveles (w\<lparr>traza := t\<rparr>) = niveles w"
  by (simp add: niveles_def)

section \<open>Operations\<close>

definition i2cSoftwareDelay :: "u64 \<Rightarrow> (unit, 'z) hwprog" where
  "i2cSoftwareDelay dur = busy (13 * dur)"

definition i2cSoftwarePinInit :: "gpioMap_t \<Rightarrow> gpioInit_t \<Rightarrow> (unit, 'z) iprog" where
  "i2cSoftwarePinInit pin mode = block [
     if pin = I2C_SOFTWARE_SDA_DIR then
       if mode = GPIO_OUTPUT then void (gpioInit I2C_SOFTWARE_SDA_DIR GPIO_OUTPUT)
       else if mode = GPIO_INPUT_PULLUP then void (gpioInit I2C_SOFTWARE_SDA_DIR GPIO_INPUT)
       else ret ()
     else if pin = I2C_SOFTWARE_SCL_DIR then
       if mode = GPIO_OUTPUT then void (gpioInit I2C_SOFTWARE_SCL_DIR GPIO_OUTPUT)
       else if mode = GPIO_INPUT_PULLUP then void (gpioInit I2C_SOFTWARE_SCL_DIR GPIO_INPUT)
       else ret ()
     else ret (),
     anotar]"

text \<open>\<^verbatim>\<open>while( !gpioRead( I2C_SOFTWARE_SCL_IN ) )\<close>: a slave may hold the clock low.\<close>

definition esperar_scl :: "(unit, 'z) hwprog" where
  "esperar_scl = loop (\<lambda>_. bind (gpioRead I2C_SOFTWARE_SCL_IN) (\<lambda>v. ret (if v then Inr () else Inl ()))) ()"

definition i2cSoftwarePinWrite :: "gpioMap_t \<Rightarrow> bool \<Rightarrow> (unit, 'z) iprog" where
  "i2cSoftwarePinWrite pin val = block [
     if pin = I2C_SOFTWARE_SDA_OUT then void (gpioWrite I2C_SOFTWARE_SDA_OUT val)
     else if pin = I2C_SOFTWARE_SCL_OUT then
       block [
         if val then
           block [void (gpioInit I2C_SOFTWARE_SCL_DIR GPIO_INPUT), esperar_scl, i2cSoftwareDelay 1]
         else
           block [void (gpioInit I2C_SOFTWARE_SCL_DIR GPIO_OUTPUT), void (gpioWrite I2C_SOFTWARE_SCL_OUT False)],
         i2cSoftwareDelay 1]
     else ret (),
     anotar]"

definition i2cSoftwarePinRead :: "gpioMap_t \<Rightarrow> (bool, 'z) hwprog" where
  "i2cSoftwarePinRead pin = gpioRead pin"

definition i2cSoftwareInit :: "(bool, 'z) iprog" where
  "i2cSoftwareInit =
     bind (i2cSoftwarePinInit I2C_SOFTWARE_SDA_DIR GPIO_INPUT_PULLUP) (\<lambda>_.
     bind (i2cSoftwarePinInit I2C_SOFTWARE_SCL_DIR GPIO_INPUT_PULLUP) (\<lambda>_. ret True))"

definition i2cSoftwareMasterWriteStart :: "(unit, 'z) iprog" where
  "i2cSoftwareMasterWriteStart = block [
     i2cSoftwarePinWrite I2C_SOFTWARE_SCL_OUT True,
     i2cSoftwarePinWrite I2C_SOFTWARE_SDA_OUT True, i2cSoftwareDelay 10,
     i2cSoftwarePinWrite I2C_SOFTWARE_SDA_OUT False, i2cSoftwareDelay 5,
     i2cSoftwarePinWrite I2C_SOFTWARE_SCL_OUT False, i2cSoftwareDelay 3]"

definition i2cSoftwareMasterWriteStop :: "(unit, 'z) iprog" where
  "i2cSoftwareMasterWriteStop = block [
     i2cSoftwarePinWrite I2C_SOFTWARE_SDA_OUT False,
     i2cSoftwarePinWrite I2C_SOFTWARE_SCL_OUT False, i2cSoftwareDelay 2,
     i2cSoftwarePinWrite I2C_SOFTWARE_SCL_OUT True, i2cSoftwareDelay 5,
     i2cSoftwarePinWrite I2C_SOFTWARE_SDA_OUT True, i2cSoftwareDelay 10]"

text \<open>The loop over the bits of \<^verbatim>\<open>dataByte\<close>, highest first.\<close>

primrec enviar_bits :: "nat \<Rightarrow> u8 \<Rightarrow> (unit, 'z) iprog" where
  "enviar_bits 0 dataByte = ret ()"
| "enviar_bits (Suc i) dataByte =
     bind (block [
       i2cSoftwarePinWrite I2C_SOFTWARE_SCL_OUT False,
       i2cSoftwarePinWrite I2C_SOFTWARE_SDA_OUT (dataByte AND 0x80 \<noteq> 0), i2cSoftwareDelay 2,
       i2cSoftwarePinWrite I2C_SOFTWARE_SCL_OUT True, i2cSoftwareDelay 5,
       i2cSoftwarePinWrite I2C_SOFTWARE_SCL_OUT False, i2cSoftwareDelay 3]) (\<lambda>_.
     enviar_bits i (push_bit 1 dataByte))"

definition i2cSoftwareMasterWriteByte :: "u8 \<Rightarrow> (bool, 'z) iprog" where
  "i2cSoftwareMasterWriteByte dataByte =
     bind (block [
       enviar_bits 8 dataByte,
       i2cSoftwareDelay 1,
       i2cSoftwarePinInit I2C_SOFTWARE_SDA_DIR GPIO_INPUT_PULLUP,
       i2cSoftwareDelay 1,
       i2cSoftwarePinWrite I2C_SOFTWARE_SCL_OUT True,
       i2cSoftwareDelay 1]) (\<lambda>_.
     bind (i2cSoftwarePinRead I2C_SOFTWARE_SDA_IN) (\<lambda>ackOrNack.
     bind (block [
       i2cSoftwareDelay 4,
       i2cSoftwarePinWrite I2C_SOFTWARE_SCL_OUT False,
       i2cSoftwareDelay 2,
       i2cSoftwarePinInit I2C_SOFTWARE_SDA_DIR GPIO_OUTPUT,
       i2cSoftwareDelay 1]) (\<lambda>_. ret ackOrNack)))"

primrec recibir_bits :: "nat \<Rightarrow> u8 \<Rightarrow> (u8, 'z) iprog" where
  "recibir_bits 0 receivedData = ret receivedData"
| "recibir_bits (Suc i) receivedData =
     bind (block [
       i2cSoftwarePinWrite I2C_SOFTWARE_SCL_OUT False, i2cSoftwareDelay 2,
       i2cSoftwarePinWrite I2C_SOFTWARE_SCL_OUT True, i2cSoftwareDelay 1]) (\<lambda>_.
     bind (i2cSoftwarePinRead I2C_SOFTWARE_SDA_IN) (\<lambda>receivedBit.
     bind (block [
       i2cSoftwareDelay 4,
       i2cSoftwarePinWrite I2C_SOFTWARE_SCL_OUT False, i2cSoftwareDelay 3]) (\<lambda>_.
     recibir_bits i (if receivedBit then push_bit 1 receivedData OR 0x01 else push_bit 1 receivedData))))"

definition i2cSoftwareMasterReadByte :: "bool \<Rightarrow> (u8, 'z) iprog" where
  "i2cSoftwareMasterReadByte ack =
     bind (i2cSoftwarePinInit I2C_SOFTWARE_SDA_DIR GPIO_INPUT_PULLUP) (\<lambda>_.
     bind (recibir_bits 8 0) (\<lambda>receivedData.
     bind (block [
       i2cSoftwareDelay 1,
       i2cSoftwarePinInit I2C_SOFTWARE_SDA_DIR GPIO_OUTPUT,
       if ack then i2cSoftwarePinWrite I2C_SOFTWARE_SDA_OUT False
       else i2cSoftwarePinWrite I2C_SOFTWARE_SDA_OUT True,
       i2cSoftwareDelay 1,
       i2cSoftwarePinWrite I2C_SOFTWARE_SCL_OUT True, i2cSoftwareDelay 5,
       i2cSoftwarePinWrite I2C_SOFTWARE_SCL_OUT False, i2cSoftwareDelay 1,
       i2cSoftwarePinWrite I2C_SOFTWARE_SDA_OUT False, i2cSoftwareDelay 2]) (\<lambda>_.
     ret receivedData)))"

definition i2cSoftwareMasterWriteAddress :: "u8 \<Rightarrow> I2C_Software_rw_t \<Rightarrow> (bool, 'z) iprog" where
  "i2cSoftwareMasterWriteAddress i2cSlaveAddress readOrWrite = (case readOrWrite of
       I2C_SOFTWARE_WRITE \<Rightarrow> i2cSoftwareMasterWriteByte (push_bit 1 i2cSlaveAddress)
     | I2C_SOFTWARE_READ \<Rightarrow> i2cSoftwareMasterWriteByte (push_bit 1 i2cSlaveAddress OR 0x01))"

text \<open>
  \<open>None\<close> is a null buffer; the size of a buffer to send, a \<^verbatim>\<open>uint16_t\<close>, is its length. The buffer for the answer is
  null or not, and what is written to it is returned with the result. The number of the bus is not used.
\<close>

primrec recibir :: "nat \<Rightarrow> (u8 list, 'z) iprog" where
  "recibir 0 = ret []"
| "recibir (Suc n) = bind (i2cSoftwareMasterReadByte True) (\<lambda>b. bind (recibir n) (\<lambda>bs. ret (b # bs)))"

definition i2cSoftwareRead :: "u8 \<Rightarrow> bool \<Rightarrow> u16 \<Rightarrow> bool \<Rightarrow> (bool \<times> u8 list, 'z) iprog" where
  "i2cSoftwareRead i2cSlaveAddress buffer receiveDataBufferSize sendReadStop =
     (if \<not> buffer \<or> receiveDataBufferSize = 0 then ret (False, [])
      else
        bind i2cSoftwareMasterWriteStart (\<lambda>_.
        bind (i2cSoftwareMasterWriteAddress i2cSlaveAddress I2C_SOFTWARE_READ) (\<lambda>_.
        bind (recibir (unat receiveDataBufferSize)) (\<lambda>bs.
        bind (if sendReadStop then i2cSoftwareMasterWriteStop else ret ()) (\<lambda>_.
        ret (True, bs))))))"

definition i2cSoftwareWrite :: "u8 \<Rightarrow> u8 list option \<Rightarrow> bool \<Rightarrow> (bool, 'z) iprog" where
  "i2cSoftwareWrite i2cSlaveAddress transmitDataBuffer sendWriteStop = (case transmitDataBuffer of
       None \<Rightarrow> ret False
     | Some bs \<Rightarrow>
         if bs = [] then ret False
         else
           bind i2cSoftwareMasterWriteStart (\<lambda>_.
           bind (i2cSoftwareMasterWriteAddress i2cSlaveAddress I2C_SOFTWARE_WRITE) (\<lambda>_.
           bind (for_each bs (\<lambda>b. void (i2cSoftwareMasterWriteByte b))) (\<lambda>_.
           bind (if sendWriteStop then i2cSoftwareMasterWriteStop else ret ()) (\<lambda>_.
           ret True)))))"

definition i2cSoftwareWriteRead ::
  "u8 \<Rightarrow> u8 list option \<Rightarrow> bool \<Rightarrow> bool \<Rightarrow> u16 \<Rightarrow> bool \<Rightarrow> (bool \<times> u8 list, 'z) iprog" where
  "i2cSoftwareWriteRead i2cSlaveAddress dataToReadBuffer sendWriteStop buffer receiveDataBufferSize sendReadStop =
     (if dataToReadBuffer = None \<or> \<not> buffer \<or> receiveDataBufferSize = 0 then ret (False, [])
      else
        bind (if dataToReadBuffer \<noteq> Some [] then i2cSoftwareWrite i2cSlaveAddress dataToReadBuffer sendWriteStop
              else ret True) (\<lambda>w.
        bind (i2cSoftwareRead i2cSlaveAddress buffer receiveDataBufferSize sendReadStop) (\<lambda>(r, bs).
        ret (w \<and> r, bs))))"

section \<open>The bus\<close>

datatype i2c_ev = Start | Stop | Bit "bool option"

text \<open>
  The decoder. Its state is what both lines did last and the bit of the clock pulse that is
  high now. SDA falling while SCL is high is a start, rising a stop; otherwise the level at the rising clock
  is a bit, complete when the clock falls.
\<close>

type_synonym bus_t = "bool \<times> bool option \<times> bool option option"

definition alto :: "bool option \<Rightarrow> bool" where
  "alto s \<longleftrightarrow> s \<noteq> Some False"

fun paso_bus :: "bus_t \<Rightarrow> bool \<times> bool option \<Rightarrow> i2c_ev list \<times> bus_t" where
  "paso_bus (scl, sda, pend) (scl', sda') =
     (if scl \<and> scl' then
        if alto sda \<and> \<not> alto sda' then ([Start], scl', sda', None)
        else if \<not> alto sda \<and> alto sda' then ([Stop], scl', sda', None)
        else ([], scl', sda', pend)
      else if scl' then ([], scl', sda', Some sda')
      else if scl then (case pend of None \<Rightarrow> [] | Some b \<Rightarrow> [Bit b], scl', sda', None)
      else ([], scl', sda', None))"

primrec decodifica_bus :: "(bool \<times> bool option) list \<Rightarrow> i2c_ev list \<times> bus_t" where
  "decodifica_bus [] = ([], True, None, None)"
| "decodifica_bus (x # xs) = (case decodifica_bus xs of (es, b) \<Rightarrow>
     case paso_bus b x of (es', b') \<Rightarrow> (es @ es', b'))"

text \<open>The bits of a byte, highest first, each driven by the master; the slot of the acknowledge belongs to the slave.\<close>

definition bits_de :: "u8 \<Rightarrow> bool list" where
  "bits_de b = map (bit b) [7, 6, 5, 4, 3, 2, 1, 0]"

definition trama :: "u8 \<Rightarrow> i2c_ev list" where
  "trama b = map (\<lambda>x. Bit (Some x)) (bits_de b) @ [Bit None]"

text \<open>A byte of the slave: eight slots of the slave, then the acknowledge of the master, which is low.\<close>

definition trama_leida :: "i2c_ev list" where
  "trama_leida = replicate 8 (Bit None) @ [Bit (Some False)]"

section \<open>What a function does on the bus\<close>

text \<open>The events so far are \<open>es\<close>, and the lines are as the decoder has them.\<close>

definition en_bus :: "i2c_ev list \<Rightarrow> bus_t \<Rightarrow> 'z i2csw_scheme \<Rightarrow> bool" where
  "en_bus es b w \<longleftrightarrow> decodifica_bus (traza w) = (es, b) \<and> niveles w = (fst b, fst (snd b))"

text \<open>
  From bus state \<open>b\<close>, \<open>m\<close> emits \<open>es\<close> and leaves the bus in \<open>b'\<close> with a result that satisfies \<open>R\<close>, in every
  environment.
\<close>

definition emite :: "('a, 'z) iprog \<Rightarrow> bus_t \<Rightarrow> i2c_ev list \<Rightarrow> bus_t \<Rightarrow> ('a \<Rightarrow> bool) \<Rightarrow> bool" where
  "emite m b es b' R \<longleftrightarrow> (\<forall>w es0. en_bus es0 b w \<longrightarrow>
     sat {} (\<lambda>x w'. en_bus (es0 @ es) b' w' \<and> R x) (\<lambda>_. True) (m w))"

lemma emiteI: "(\<And>w es0. en_bus es0 b w \<Longrightarrow>
    sat {} (\<lambda>x w'. en_bus (es0 @ es) b' w' \<and> R x) (\<lambda>_. True) (m w)) \<Longrightarrow> emite m b es b' R"
  by (simp add: emite_def)

lemma emiteD: "emite m b es b' R \<Longrightarrow> en_bus es0 b w \<Longrightarrow>
    sat {} (\<lambda>x w'. en_bus (es0 @ es) b' w' \<and> R x) (\<lambda>_. True) (m w)"
  by (simp add: emite_def)

lemma emite_bind:
  assumes "emite m b es1 b1 R1" and "\<And>x. R1 x \<Longrightarrow> emite (f x) b1 es2 b2 R" and "es = es1 @ es2"
  shows "emite (bind m f) b es b2 R"
proof (rule emiteI, rule sat_bind, rule sat_weaken [OF emiteD [OF assms(1)]], assumption, elim conjE, goal_cases)
  case (1 w es0 x w')
  from emiteD [OF assms(2) [OF 1(3)] 1(2)] show ?case by (simp add: assms(3))
qed

lemma emite_ret: "R x \<Longrightarrow> emite (ret x) b [] b R"
  by (simp add: emite_def)

lemma emite_mono: "emite m b es b' R \<Longrightarrow> (\<And>x. R x \<Longrightarrow> R' x) \<Longrightarrow> emite m b es b' R'"
  unfolding emite_def by (blast intro: sat_weaken)

text \<open>The two pins.\<close>

lemma gpio_i2c:
  "gpioInit GPIO7 GPIO_INPUT = bind (Chip_SCU_PinMux 6 11 (SCU_MODE_INACT OR SCU_MODE_INBUFF_EN OR SCU_MODE_ZIF_DIS) 0)
     (\<lambda>_. bind (Chip_GPIO_SetDir 3 7 False) (\<lambda>_. ret True))"
  "gpioInit GPIO8 GPIO_INPUT = bind (Chip_SCU_PinMux 6 12 (SCU_MODE_INACT OR SCU_MODE_INBUFF_EN OR SCU_MODE_ZIF_DIS) 0)
     (\<lambda>_. bind (Chip_GPIO_SetDir 2 8 False) (\<lambda>_. ret True))"
  "gpioInit GPIO7 GPIO_OUTPUT = bind (Chip_SCU_PinMux 6 11 (SCU_MODE_INACT OR SCU_MODE_ZIF_DIS OR SCU_MODE_INBUFF_EN) 0)
     (\<lambda>_. bind (Chip_GPIO_SetDir 3 7 True) (\<lambda>_. bind (Chip_GPIO_SetPinState 3 7 False) (\<lambda>_. ret True)))"
  "gpioInit GPIO8 GPIO_OUTPUT = bind (Chip_SCU_PinMux 6 12 (SCU_MODE_INACT OR SCU_MODE_ZIF_DIS OR SCU_MODE_INBUFF_EN) 0)
     (\<lambda>_. bind (Chip_GPIO_SetDir 2 8 True) (\<lambda>_. bind (Chip_GPIO_SetPinState 2 8 False) (\<lambda>_. ret True)))"
  "gpioWrite GPIO7 v = bind (Chip_GPIO_SetPinState 3 7 v) (\<lambda>_. ret True)"
  "gpioWrite GPIO8 v = bind (Chip_GPIO_SetPinState 2 8 v) (\<lambda>_. ret True)"
  "gpioRead GPIO7 = Chip_GPIO_GetPinState 3 7"
  "gpioRead GPIO8 = Chip_GPIO_GetPinState 2 8"
  by (simp_all add: gpioInit_def gpioInit_in_def gpioWrite_def gpioRead_def gpioObtainPinInit_def gpioPinsInit_def
      VCC_def GND_def GPIO7_def GPIO8_def)

definition lineas_frame :: "'z i2csw_scheme \<Rightarrow> 'z i2csw_scheme \<Rightarrow> bool" where
  "lineas_frame w w' \<longleftrightarrow> traza w' = traza w \<and> pinDir w' = pinDir w \<and> pinOut w' = pinOut w"

interpretation lf: stable lineas_frame
  by unfold_locales (auto simp: lineas_frame_def)

lemma lf_lineas: "lineas_frame w w' \<Longrightarrow> niveles w' = niveles w"
  by (simp add: lineas_frame_def niveles_def)

lemma env_frame_lineas: "env_frame w w' \<Longrightarrow> lineas_frame w w'"
  unfolding env_frame_def lineas_frame_def by (cases w, cases w') simp

lemma lineas_poll: "respeta lineas_frame poll"
  by (rule within_poll_frame) (rule env_frame_lineas)

lemma emite_frame: "safe {} m \<Longrightarrow> respeta lineas_frame m \<Longrightarrow> emite m b [] b (\<lambda>_. True)"
  unfolding emite_def
  by (intro allI impI, rule sat_weaken [OF sat_safe_within [where r = lineas_frame]])
    (auto simp: lineas_frame_def en_bus_def niveles_def)

lemma nada: "safe {} (ret ())" "respeta lineas_frame (ret ())"
  by (rule keeps_ret) (rule lf.within_ret)

lemma fija_delay: "safe {} (i2cSoftwareDelay d)" "respeta lineas_frame (i2cSoftwareDelay d)"
  unfolding i2cSoftwareDelay_def busy_def by (auto intro!: keeps_modify lf.within_modify simp: lineas_frame_def)

lemma emite_delay: "emite (i2cSoftwareDelay d) b [] b (\<lambda>_. True)"
  by (rule emite_frame [OF fija_delay])

lemma emite_leer: "emite (i2cSoftwarePinRead I2C_SOFTWARE_SDA_IN) b [] b (\<lambda>_. True)"
  unfolding i2cSoftwarePinRead_def I2C_SOFTWARE_SDA_IN_def gpio_i2c Chip_GPIO_GetPinState_def
  by (rule emite_frame) (intro keeps_rules safe_poll lf.within_bind lineas_poll lf.within_gets)+

lemma fija_esperar:
  "safe {} (esperar_scl :: (unit, 'a) hwprog)"
  "respeta lineas_frame (esperar_scl :: (unit, 'a i2csw_ext) hwprog)"
proof -
  let ?body = "\<lambda>_ :: unit. bind (gpioRead I2C_SOFTWARE_SCL_IN) (\<lambda>v. ret (if v then Inr () else Inl ()))"
  have c: "consumes (?body x :: (unit + unit, 'a) hwprog)" for x
    unfolding I2C_SOFTWARE_SCL_IN_def gpio_i2c Chip_GPIO_GetPinState_def bind_assoc
    by (intro consumes_bind consumes_poll shr.within_rules)
  have r: "respeta lineas_frame (?body x :: (unit + unit, 'a i2csw_scheme) prog)" for x
    unfolding I2C_SOFTWARE_SCL_IN_def gpio_i2c Chip_GPIO_GetPinState_def
    by (intro lf.within_bind lineas_poll lf.within_gets lf.within_ret)+
  have s: "safe {} (?body x :: (unit + unit, 'a) hwprog)" for x
    unfolding I2C_SOFTWARE_SCL_IN_def gpio_i2c Chip_GPIO_GetPinState_def
    by (intro keeps_rules safe_poll)+
  show "respeta lineas_frame (esperar_scl :: (unit, 'a i2csw_scheme) prog)"
    unfolding esperar_scl_def loop_def by (rule withinI, rule withinD [OF lf.within_iter [OF r(1)]])
  show "safe {} (esperar_scl :: (unit, 'a) hwprog)"
    unfolding esperar_scl_def by (rule keeps_loop [OF c s])
qed

text \<open>Setting the registers and noting the new levels is one step of the decoder.\<close>

definition registra :: "(unit, 'z) iprog \<Rightarrow> (bool \<times> bool option \<Rightarrow> bool \<times> bool option) \<Rightarrow> bool" where
  "registra m f \<longleftrightarrow> (\<forall>w. \<exists>w'. m w = Ret () w' \<and> traza w' = traza w \<and>
niveles w' = f (niveles w))"

lemma emite_anotar:
  assumes "registra m f" and "safe {} n" and "respeta lineas_frame n"
    and "paso_bus (scl, sda, pend) (f (scl, sda)) = (es, b')"
  shows "emite (bind m (\<lambda>_. bind n (\<lambda>_. anotar))) (scl, sda, pend) es b' (\<lambda>_. True)"
proof (rule emiteI, goal_cases)
  case (1 w es0)
  then have l: "niveles w = (scl, sda)" "decodifica_bus (traza w) = (es0, scl, sda, pend)" by (simp_all add: en_bus_def)
  obtain w1 where w1: "m w = Ret () w1" "traza w1 = traza w" "niveles w1 = f (scl, sda)"
    using assms(1) unfolding registra_def l(1)[symmetric] by blast
  have b': "(fst b', fst (snd b')) = f (scl, sda)"
    using assms(4) by (cases "f (scl, sda)") (auto split: if_splits)
  have a: "sat {} (\<lambda>_ w'. en_bus (es0 @ es) b' w') (\<lambda>_. True) (anotar w2)" if "lineas_frame w1 w2" for w2
  proof -
    have "traza w2 = traza w" "niveles w2 = f (scl, sda)"
      using that w1(2) lf_lineas [OF that] w1(3) by (simp_all add: lineas_frame_def)
    then show ?thesis
      using assms(4) l(2) b' by (simp add: anotar_def en_bus_def del: paso_bus.simps)
  qed
  have "sat {} (\<lambda>_ w'. en_bus (es0 @ es) b' w') (\<lambda>_. True) (bind n (\<lambda>_. anotar) w1)"
    by (rule sat_frame_bind [OF assms(2,3) a])
  with w1(1) show ?case by (simp add: bind_apply)
qed

lemma registra_sda:
  "registra (void (gpioWrite I2C_SOFTWARE_SDA_OUT v)) (\<lambda>(scl, sda). (scl, if sda = None then None else Some v))"
  "registra (void (gpioInit I2C_SOFTWARE_SDA_DIR GPIO_OUTPUT)) (\<lambda>(scl, sda). (scl, Some False))"
  "registra (void (gpioInit I2C_SOFTWARE_SDA_DIR GPIO_INPUT)) (\<lambda>(scl, sda). (scl, None))"
  by (simp_all add: registra_def niveles_def I2C_SOFTWARE_SDA_OUT_def I2C_SOFTWARE_SDA_DIR_def gpio_i2c Chip_GPIO_SetPinState_def
      Chip_GPIO_SetDir_def Chip_SCU_PinMux_def void_def bind_apply SDA_def SCL_def)

lemma registra_scl:
  "registra (block [void (gpioInit I2C_SOFTWARE_SCL_DIR GPIO_OUTPUT), void (gpioWrite I2C_SOFTWARE_SCL_OUT False)])
     (\<lambda>(scl, sda). (False, sda))"
  "registra (void (gpioInit I2C_SOFTWARE_SCL_DIR GPIO_INPUT)) (\<lambda>(scl, sda). (True, sda))"
  by (simp_all add: registra_def niveles_def I2C_SOFTWARE_SCL_OUT_def I2C_SOFTWARE_SCL_DIR_def gpio_i2c Chip_GPIO_SetPinState_def
      Chip_GPIO_SetDir_def Chip_SCU_PinMux_def void_def bind_apply SDA_def SCL_def)

lemma pines_distintos: "I2C_SOFTWARE_SDA_OUT \<noteq> I2C_SOFTWARE_SCL_OUT" "I2C_SOFTWARE_SDA_DIR \<noteq> I2C_SOFTWARE_SCL_DIR"
  by (simp_all add: i2c_pin_defs)

text \<open>The pin functions.\<close>

lemma emite_sda:
  "paso_bus (scl, sda, pend) (scl, if sda = None then None else Some v) = (es, b') \<Longrightarrow>
   emite (i2cSoftwarePinWrite I2C_SOFTWARE_SDA_OUT v) (scl, sda, pend) es b' (\<lambda>_. True)"
  using emite_anotar [OF registra_sda(1) nada] by (simp add: i2cSoftwarePinWrite_def)

lemma emite_sda_init:
  "paso_bus (scl, sda, pend) (scl, Some False) = (es, b') \<Longrightarrow>
   emite (i2cSoftwarePinInit I2C_SOFTWARE_SDA_DIR GPIO_OUTPUT) (scl, sda, pend) es b' (\<lambda>_. True)"
  "paso_bus (scl, sda, pend) (scl, None) = (es, b') \<Longrightarrow>
   emite (i2cSoftwarePinInit I2C_SOFTWARE_SDA_DIR GPIO_INPUT_PULLUP) (scl, sda, pend) es b' (\<lambda>_. True)"
  using emite_anotar [OF registra_sda(2) nada] emite_anotar [OF registra_sda(3) nada]
  by (simp_all add: i2cSoftwarePinInit_def)

lemma emite_scl:
  "paso_bus (scl, sda, pend) (v, sda) = (es, b') \<Longrightarrow>
   emite (i2cSoftwarePinWrite I2C_SOFTWARE_SCL_OUT v :: (unit, 'a) iprog) (scl, sda, pend) es b' (\<lambda>_ :: unit. True)"
proof (cases v)
  case True
  assume "paso_bus (scl, sda, pend) (v, sda) = (es, b')"
  then have "paso_bus (scl, sda, pend) ((\<lambda>(scl, sda). (True, sda)) (scl, sda)) = (es, b')" using True by simp
  note p = this
  let ?n = "bind esperar_scl (\<lambda>_. bind (i2cSoftwareDelay 1) (\<lambda>_. i2cSoftwareDelay 1)) :: (unit, 'a) iprog"
  have "safe {} ?n" by (intro keeps_bind fija_esperar fija_delay)
  moreover have "respeta lineas_frame ?n" by (intro lf.within_bind fija_esperar fija_delay)
  ultimately show ?thesis
    using emite_anotar [OF registra_scl(2) _ _ p, of ?n] True pines_distintos
    by (simp add: i2cSoftwarePinWrite_def bind_assoc)
next
  case False
  assume "paso_bus (scl, sda, pend) (v, sda) = (es, b')"
  then have "paso_bus (scl, sda, pend) ((\<lambda>(scl, sda). (False, sda)) (scl, sda)) = (es, b')" using False by simp
  from emite_anotar [OF registra_scl(1) fija_delay this, of 1]
  show ?thesis
    using False pines_distintos by (simp add: i2cSoftwarePinWrite_def bind_assoc)
qed

section \<open>The conditions and the bytes\<close>

lemma emite_fin: "emite (ret x) b [] b (\<lambda>_. True)"
  by (rule emite_ret) (rule TrueI)

lemma emite_es: "emite m b es' b' R \<Longrightarrow> es' = es \<Longrightarrow> emite m b es b' R"
  by simp

lemma emite_sec: "emite m b es1 b1 (\<lambda>_. True) \<Longrightarrow> emite n b1 es2 b2 R \<Longrightarrow> emite (bind m (\<lambda>_. n)) b (es1 @ es2) b2 R"
  by (rule emite_bind) auto

lemma emite_scl_sube:
  "emite (i2cSoftwarePinWrite I2C_SOFTWARE_SCL_OUT True) (False, sda, None) [] (True, sda, Some sda) (\<lambda>_. True)"
  "emite (i2cSoftwarePinWrite I2C_SOFTWARE_SCL_OUT True) (True, sda, None) [] (True, sda, None) (\<lambda>_. True)"
  by (rule emite_scl, simp)+

lemma emite_scl_baja:
  "emite (i2cSoftwarePinWrite I2C_SOFTWARE_SCL_OUT False) (True, sda, Some x) [Bit x] (False, sda, None) (\<lambda>_. True)"
  "emite (i2cSoftwarePinWrite I2C_SOFTWARE_SCL_OUT False) (True, sda, None) [] (False, sda, None) (\<lambda>_. True)"
  "emite (i2cSoftwarePinWrite I2C_SOFTWARE_SCL_OUT False) (False, sda, None) [] (False, sda, None) (\<lambda>_. True)"
  by (rule emite_scl, simp)+

text \<open>Writing to SDA does nothing while the pin is an input.\<close>

definition pon :: "bool option \<Rightarrow> bool \<Rightarrow> bool option" where
  "pon s v = (if s = None then None else Some v)"

lemma pon_simps [simp]: "pon None v = None" "pon (Some x) v = Some v" "pon (pon s x) v = pon s v"
  by (simp_all add: pon_def)

lemma pon_None: "pon s v = None \<longleftrightarrow> s = None"
  by (simp add: pon_def)

lemma emite_sda_baja:
  "emite (i2cSoftwarePinWrite I2C_SOFTWARE_SDA_OUT v) (False, s, None) [] (False, pon s v, None) (\<lambda>_. True)"
  "emite (i2cSoftwarePinInit I2C_SOFTWARE_SDA_DIR GPIO_OUTPUT) (False, s, None) [] (False, Some False, None) (\<lambda>_. True)"
  "emite (i2cSoftwarePinInit I2C_SOFTWARE_SDA_DIR GPIO_INPUT_PULLUP) (False, s, None) [] (False, None, None) (\<lambda>_. True)"
  by (rule emite_sda emite_sda_init, simp add: pon_def)+

lemma emite_sda_alta:
  "emite (i2cSoftwarePinWrite I2C_SOFTWARE_SDA_OUT True) (True, Some True, None) [] (True, Some True, None) (\<lambda>_. True)"
  "emite (i2cSoftwarePinWrite I2C_SOFTWARE_SDA_OUT False) (True, Some True, None) [Start] (True, Some False, None) (\<lambda>_. True)"
  "emite (i2cSoftwarePinWrite I2C_SOFTWARE_SDA_OUT True) (True, Some False, p) [Stop] (True, Some True, None) (\<lambda>_. True)"
  "emite (i2cSoftwarePinWrite I2C_SOFTWARE_SDA_OUT v) (True, None, None) [] (True, None, None) (\<lambda>_. True)"
  by (rule emite_sda, simp add: alto_def)+

lemmas emite_pasos = emite_delay emite_scl_sube emite_scl_baja emite_sda_baja emite_sda_alta

text \<open>
  The idle bus and the bus held by the master between bytes; \<open>suelto\<close> is the bus after \<^verbatim>\<open>i2cSoftwareInit\<close>,
  with SDA an input.
\<close>

definition libre :: bus_t where "libre = (True, Some True, None)"
definition tomado :: bus_t where "tomado = (False, Some False, None)"
definition suelto :: bus_t where "suelto = (True, None, None)"

lemmas bus_defs = libre_def tomado_def suelto_def

lemma emite_start: "emite i2cSoftwareMasterWriteStart libre [Start] tomado (\<lambda>_. True)"
  unfolding i2cSoftwareMasterWriteStart_def block.simps bus_defs
  by (rule emite_es, (rule emite_sec emite_fin emite_pasos)+, simp)

text \<open>
  Clock first, then data: on a bus that the master holds, the function makes a stop before the start. With SDA
  an input it makes no condition at all.
\<close>

lemma emite_restart: "emite i2cSoftwareMasterWriteStart tomado [Stop, Start] tomado (\<lambda>_. True)"
  unfolding i2cSoftwareMasterWriteStart_def block.simps bus_defs
  by (rule emite_es, (rule emite_sec emite_fin emite_pasos)+, simp)

lemma emite_start_suelto: "emite i2cSoftwareMasterWriteStart suelto [] (False, None, None) (\<lambda>_. True)"
  unfolding i2cSoftwareMasterWriteStart_def block.simps bus_defs
  by (rule emite_es, (rule emite_sec emite_fin emite_delay emite_scl_sube(2) emite_scl_baja emite_sda_alta(4))+, simp)

lemma emite_stop: "emite i2cSoftwareMasterWriteStop tomado [Stop] libre (\<lambda>_. True)"
  unfolding i2cSoftwareMasterWriteStop_def block.simps bus_defs
  by (rule emite_es, (rule emite_sec emite_fin emite_delay emite_scl_sube(1) emite_scl_baja(3) emite_sda_baja(1) [of False "Some False", simplified] emite_sda_alta(3))+, simp)

text \<open>The bits that leave a shift register at the top.\<close>

primrec bits_msb :: "nat \<Rightarrow> u8 \<Rightarrow> bool list" where
  "bits_msb 0 b = []"
| "bits_msb (Suc n) b = bit b 7 # bits_msb n (push_bit 1 b)"

lemma bits_msb_push: "k + n \<le> 8 \<Longrightarrow> bits_msb n (push_bit k b) = map (\<lambda>i. bit b (7 - k - i)) [0..<n]"
proof (induction n arbitrary: k)
  case (Suc n)
  have "bits_msb n (push_bit 1 (push_bit k b)) = map (\<lambda>i. bit b (7 - Suc k - i)) [0..<n]"
    using Suc.IH [of "Suc k"] Suc.prems by (simp add: push_bit_push_bit del: push_bit_Suc)
  moreover have "bit (push_bit k b) 7 = bit b (7 - k)"
    using Suc.prems by (simp add: bit_push_bit_iff)
  ultimately show ?case
    by (simp add: upt_conv_Cons map_Suc_upt [symmetric] del: upt_Suc push_bit_Suc)
qed simp

lemma bits_msb_8: "bits_msb 8 b = bits_de b"
  using bits_msb_push [of 0 8 b] by (simp add: bits_de_def upt_conv_Cons)

lemma bit_alto: "(b :: u8) AND 0x80 \<noteq> 0 \<longleftrightarrow> bit b 7"
  using and_exp_eq_0_iff_not_bit [of b 7] by simp

lemma emite_enviar: "\<exists>s'. (s' = None \<longleftrightarrow> s = None) \<and>
    emite (enviar_bits n b :: (unit, 'z) iprog) (False, s, None) (map (\<lambda>x. Bit (pon s x)) (bits_msb n b)) (False, s', None) (\<lambda>_. True)"
proof (induction n arbitrary: b s)
  case 0
  show ?case by (auto simp: emite_ret)
next
  case (Suc n)
  from Suc.IH [of "pon s (bit b 7)" "push_bit 1 b"] obtain s' where s': "s' = None \<longleftrightarrow> s = None"
    "emite (enviar_bits n (push_bit 1 b) :: (unit, 'z) iprog) (False, pon s (bit b 7), None)
       (map (\<lambda>x. Bit (pon s x)) (bits_msb n (push_bit 1 b))) (False, s', None) (\<lambda>_. True)"
    unfolding pon_simps pon_None by blast
  have "emite (enviar_bits (Suc n) b :: (unit, 'z) iprog) (False, s, None) (map (\<lambda>x. Bit (pon s x)) (bits_msb (Suc n) b)) (False, s', None) (\<lambda>_. True)"
    unfolding enviar_bits.simps block.simps bind_assoc bind_ret bit_alto
    by (rule emite_es, (rule s'(2) emite_sec emite_delay emite_scl_sube(1) emite_scl_baja(1,3) emite_sda_baja(1))+, simp)
  with s'(1) show ?case by blast
qed

lemma emite_leer_sec:
  "(\<And>x. emite (f x) b es b' R) \<Longrightarrow> emite (bind (i2cSoftwarePinRead I2C_SOFTWARE_SDA_IN) f) b es b' R"
  by (rule emite_bind [OF emite_leer]) simp_all

lemma emite_byte:
  "emite (i2cSoftwareMasterWriteByte b :: (bool, 'z) iprog) (False, s, None) (map (\<lambda>x. Bit (pon s x)) (bits_de b) @ [Bit None]) tomado (\<lambda>_. True)"
proof -
  from emite_enviar [of s 8 b] obtain s' where
    "emite (enviar_bits 8 b :: (unit, 'z) iprog) (False, s, None) (map (\<lambda>x. Bit (pon s x)) (bits_de b)) (False, s', None) (\<lambda>_. True)"
    by (auto simp: bits_msb_8)
  note e = this
  show ?thesis
    unfolding i2cSoftwareMasterWriteByte_def block.simps bind_assoc bind_ret tomado_def
    by (rule emite_es, (rule e emite_sec emite_delay emite_scl_sube(1) emite_scl_baja(1) emite_sda_baja(2,3))+,
        rule emite_leer_sec,
        (rule emite_sec emite_fin emite_delay emite_scl_sube(1) emite_scl_baja(1) emite_sda_baja(2,3))+, simp)
qed

lemma emite_trama: "emite (i2cSoftwareMasterWriteByte b) tomado (trama b) tomado (\<lambda>_. True)"
  using emite_byte [of b "Some False"] by (simp add: trama_def tomado_def)

text \<open>The first frame after \<^verbatim>\<open>i2cSoftwareInit\<close>: nobody drives the nine slots.\<close>

lemma emite_trama_suelta:
  "emite (i2cSoftwareMasterWriteByte b) (False, None, None) (replicate 9 (Bit None)) tomado (\<lambda>_. True)"
  using emite_byte [of b None] by (simp add: bits_de_def eval_nat_numeral)

lemma emite_recibir_bits:
  "emite (recibir_bits n d) (False, None, None) (replicate n (Bit None)) (False, None, None) (\<lambda>_. True)"
proof (induction n arbitrary: d)
  case 0
  show ?case by (simp add: emite_fin)
next
  case (Suc n)
  show ?case
    unfolding recibir_bits.simps block.simps bind_assoc bind_ret
    by (rule emite_es, (rule Suc.IH emite_leer_sec emite_sec emite_delay emite_scl_sube(1) emite_scl_baja(1,3))+, simp)
qed

lemma emite_leida: "emite (i2cSoftwareMasterReadByte True) tomado trama_leida tomado (\<lambda>_. True)"
  unfolding i2cSoftwareMasterReadByte_def block.simps bind_assoc bind_ret tomado_def if_True
  by (rule emite_es, rule emite_sec, rule emite_sda_baja(3), rule emite_bind [OF emite_recibir_bits _ refl],
      (rule emite_sec emite_fin emite_delay emite_scl_sube(1) emite_scl_baja(1) emite_sda_baja(1)[where s = "Some b" for b, simplified] emite_sda_baja(2))+,
      simp add: trama_leida_def)

text \<open>The address is shifted by one; its top bit is lost and the low bit says the direction.\<close>

definition octeto_dir :: "u8 \<Rightarrow> I2C_Software_rw_t \<Rightarrow> u8" where
  "octeto_dir a rw = (case rw of I2C_SOFTWARE_WRITE \<Rightarrow> push_bit 1 a | I2C_SOFTWARE_READ \<Rightarrow> push_bit 1 a OR 1)"

lemma emite_dir: "emite (i2cSoftwareMasterWriteAddress a rw) tomado (trama (octeto_dir a rw)) tomado (\<lambda>_. True)"
  unfolding i2cSoftwareMasterWriteAddress_def octeto_dir_def by (cases rw) (simp_all add: emite_trama)

lemma emite_void: "emite m b es b' (\<lambda>_. True) \<Longrightarrow> emite (void m) b es b' (\<lambda>_. True)"
  unfolding void_def by (rule emite_es, rule emite_sec, assumption, rule emite_fin) simp

lemma emite_tramas:
  "emite (for_each bs (\<lambda>b. void (i2cSoftwareMasterWriteByte b))) tomado (concat (map trama bs)) tomado (\<lambda>_. True)"
proof (induction bs)
  case Nil
  show ?case by (simp add: emite_fin)
next
  case (Cons b bs)
  show ?case by (simp, rule emite_sec [OF emite_void [OF emite_trama] Cons.IH])
qed

lemma emite_recibir:
  "emite (recibir n) tomado (concat (replicate n trama_leida)) tomado (\<lambda>bs. length bs = n)"
proof (induction n)
  case 0
  show ?case by (simp add: emite_ret)
next
  case (Suc n)
  show ?case
    by (simp, rule emite_bind [OF emite_leida _ refl], rule emite_bind [OF Suc.IH]) (simp_all add: emite_ret)
qed

lemma emite_fin_de:
  "emite (if p then i2cSoftwareMasterWriteStop else ret ()) tomado (if p then [Stop] else [])
     (if p then libre else tomado) (\<lambda>_. True)"
  by (simp add: emite_stop emite_fin)

text \<open>A write transfer and a read transfer, without their stop.\<close>

definition escritura :: "u8 \<Rightarrow> u8 list \<Rightarrow> i2c_ev list" where
  "escritura a bs = Start # concat (map trama (octeto_dir a I2C_SOFTWARE_WRITE # bs))"

definition lectura :: "u8 \<Rightarrow> nat \<Rightarrow> i2c_ev list" where
  "lectura a n = Start # trama (octeto_dir a I2C_SOFTWARE_READ) @ concat (replicate n trama_leida)"

lemma escribe_eq:
  "bs \<noteq> [] \<Longrightarrow> i2cSoftwareWrite a (Some bs) p = bind i2cSoftwareMasterWriteStart (\<lambda>_.
     bind (i2cSoftwareMasterWriteAddress a I2C_SOFTWARE_WRITE) (\<lambda>_.
     bind (for_each bs (\<lambda>b. void (i2cSoftwareMasterWriteByte b))) (\<lambda>_.
     bind (if p then i2cSoftwareMasterWriteStop else ret ()) (\<lambda>_. ret True))))"
  by (simp add: i2cSoftwareWrite_def)

lemma lee_eq:
  "n \<noteq> 0 \<Longrightarrow> i2cSoftwareRead a True n p = bind i2cSoftwareMasterWriteStart (\<lambda>_.
     bind (i2cSoftwareMasterWriteAddress a I2C_SOFTWARE_READ) (\<lambda>_.
     bind (recibir (unat n)) (\<lambda>bs.
     bind (if p then i2cSoftwareMasterWriteStop else ret ()) (\<lambda>_. ret (True, bs)))))"
  by (simp add: i2cSoftwareRead_def)

lemma emite_escritura:
  assumes "bs \<noteq> []"
  shows "emite (i2cSoftwareWrite a (Some bs) p) libre (escritura a bs @ (if p then [Stop] else []))
     (if p then libre else tomado) (\<lambda>r. r)"
  unfolding escribe_eq [OF assms] escritura_def
  by (rule emite_es, rule emite_sec [OF emite_start], rule emite_sec [OF emite_dir], rule emite_sec [OF emite_tramas],
      rule emite_sec [OF emite_fin_de], rule emite_ret) simp_all

lemma emite_lectura:
  assumes "n \<noteq> 0" and "emite (i2cSoftwareMasterWriteStart :: (unit, 'z) iprog) b (es @ [Start]) tomado (\<lambda>_. True)"
  shows "emite (i2cSoftwareRead a True n p :: (bool \<times> u8 list, 'z) iprog) b (es @ lectura a (unat n) @ (if p then [Stop] else []))
     (if p then libre else tomado) (\<lambda>(r, bs). r \<and> length bs = unat n)"
  unfolding lee_eq [OF assms(1)] lectura_def
  by (rule emite_es, rule emite_sec [OF assms(2)], rule emite_sec [OF emite_dir], rule emite_bind [OF emite_recibir _ refl],
      rule emite_sec [OF emite_fin_de], rule emite_ret) simp_all

lemma emite_escritura_lectura:
  assumes "bs \<noteq> []" and "n \<noteq> 0"
  shows "emite (i2cSoftwareWriteRead a (Some bs) p True n q :: (bool \<times> u8 list, 'z) iprog) libre
     (escritura a bs @ [Stop] @ lectura a (unat n) @ (if q then [Stop] else [])) (if q then libre else tomado)
     (\<lambda>(r, xs). r \<and> length xs = unat n)"
proof -
  have "(i2cSoftwareWriteRead a (Some bs) p True n q :: (bool \<times> u8 list, 'z) iprog) = bind (i2cSoftwareWrite a (Some bs) p)
      (\<lambda>w. bind (i2cSoftwareRead a True n q) (\<lambda>(r, bs). ret (w \<and> r, bs)))" (is "_ = ?m")
    using assms by (simp add: i2cSoftwareWriteRead_def)
  moreover have "emite ?m libre (escritura a bs @ [Stop] @ lectura a (unat n) @ (if q then [Stop] else []))
      (if q then libre else tomado) (\<lambda>(r, xs). r \<and> length xs = unat n)"
  proof (cases p)
    case True
    show ?thesis
      by (rule emite_bind [OF emite_escritura [OF assms(1)]], rule emite_bind [OF emite_lectura [OF assms(2)] _ append_Nil2 [symmetric]])
        (auto simp: True emite_start intro: emite_ret)
  next
    case False
    show ?thesis
      by (rule emite_bind [OF emite_escritura [OF assms(1)]],
          rule emite_bind [OF emite_lectura [OF assms(2), where es = "[Stop]"] _ append_Nil2 [symmetric]])
        (auto simp: False emite_restart intro: emite_ret)
  qed
  ultimately show ?thesis by simp
qed

section \<open>Returning\<close>

text \<open>
  A slave that never holds the clock: the wire of SCL reads high, and nothing else happens. Then every function
  returns after a fixed number of looks at its pins.
\<close>

definition reloj_libre :: "'z hw_scheme \<Rightarrow> bool" where
  "reloj_libre w \<longleftrightarrow> (\<forall>evs \<in> set (script w). evs = []) \<and> (\<forall>out. wire w out SCL)"

definition vuelve :: "nat \<Rightarrow> ('a, 'z) hwprog \<Rightarrow> bool" where
  "vuelve k m \<longleftrightarrow> (\<forall>w. reloj_libre w \<and> k \<le> length (script w) \<longrightarrow>
     (\<exists>x w'. m w = Ret x w' \<and> reloj_libre w' \<and> length (script w') + k = length (script w)))"

lemma vuelveD:
  "vuelve k m \<Longrightarrow> reloj_libre w \<Longrightarrow> k \<le> length (script w) \<Longrightarrow>
     \<exists>x w'. m w = Ret x w' \<and> reloj_libre w' \<and> length (script w') + k = length (script w)"
  by (simp add: vuelve_def)

lemma vuelve_es: "vuelve k' m \<Longrightarrow> k' = k \<Longrightarrow> vuelve k m"
  by simp

lemma vuelve_bind:
  assumes "vuelve k1 (m :: ('a, 'z) hwprog)" and "\<And>x. vuelve k2 (f x :: ('b, 'z) hwprog)"
  shows "vuelve (k1 + k2) (bind m f)"
  unfolding vuelve_def
proof (intro allI impI, elim conjE)
  fix w :: "'z hw_scheme"
  assume w: "reloj_libre w" "k1 + k2 \<le> length (script w)"
  then obtain x w' where 1: "m w = Ret x w'" "reloj_libre w'" "length (script w') + k1 = length (script w)"
    using vuelveD [OF assms(1), of w] by auto
  then obtain y w'' where "f x w' = Ret y w''" "reloj_libre w''" "length (script w'') + k2 = length (script w')"
    using w(2) vuelveD [OF assms(2), of w' x] by auto
  with 1 show "\<exists>x w'. bind m f w = Ret x w' \<and> reloj_libre w' \<and> length (script w') + (k1 + k2) = length (script w)"
    by (simp add: bind_apply)
qed

lemma vuelve_ret: "vuelve 0 (ret x)"
  by (simp add: vuelve_def)

lemma vuelve_gets: "vuelve 0 (gets f)"
  by (simp add: vuelve_def)

lemma vuelve_modify: "(\<And>w. script (f w) = script w) \<Longrightarrow> (\<And>w. wire (f w) = wire w) \<Longrightarrow> vuelve 0 (modify f)"
  by (simp add: vuelve_def reloj_libre_def)

lemma vuelve_poll: "vuelve 1 poll"
  by (auto simp: vuelve_def poll_def reloj_libre_def split: list.splits)

lemma vuelve_void: "vuelve k m \<Longrightarrow> vuelve k (void m)"
  unfolding void_def by (rule vuelve_es, rule vuelve_bind, assumption, rule vuelve_ret) simp

lemma vuelve_pines:
  "vuelve 0 (void (gpioInit GPIO7 GPIO_INPUT))" "vuelve 0 (void (gpioInit GPIO8 GPIO_INPUT))"
  "vuelve 0 (void (gpioInit GPIO7 GPIO_OUTPUT))" "vuelve 0 (void (gpioInit GPIO8 GPIO_OUTPUT))"
  "vuelve 0 (void (gpioWrite GPIO7 v))" "vuelve 0 (void (gpioWrite GPIO8 v))"
  unfolding gpio_i2c Chip_SCU_PinMux_def Chip_GPIO_SetDir_def Chip_GPIO_SetPinState_def
  by (rule vuelve_void, rule vuelve_es, (rule vuelve_bind vuelve_ret vuelve_modify | simp)+)+

lemma vuelve_leer: "vuelve 1 (gpioRead GPIO7)"
  unfolding gpio_i2c Chip_GPIO_GetPinState_def
  by (rule vuelve_es, rule vuelve_bind, rule vuelve_poll, rule vuelve_gets) simp

lemma vuelve_esperar: "vuelve 1 esperar_scl"
  unfolding esperar_scl_def loop_def I2C_SOFTWARE_SCL_IN_def gpio_i2c Chip_GPIO_GetPinState_def
  by (auto simp: vuelve_def bind_apply poll_def reloj_libre_def SCL_def Suc_le_length_iff iter.simps)

lemma vuelve_delay: "vuelve 0 (i2cSoftwareDelay d)"
  unfolding i2cSoftwareDelay_def busy_def by (rule vuelve_modify) simp_all

lemma vuelve_anotar: "vuelve 0 anotar"
  unfolding anotar_def by (rule vuelve_modify) simp_all

lemmas pin_names = I2C_SOFTWARE_SDA_DIR_def I2C_SOFTWARE_SDA_IN_def I2C_SOFTWARE_SDA_OUT_def
  I2C_SOFTWARE_SCL_DIR_def I2C_SOFTWARE_SCL_IN_def I2C_SOFTWARE_SCL_OUT_def

lemma vuelve_pin:
  "vuelve 0 (i2cSoftwarePinWrite I2C_SOFTWARE_SDA_OUT v)"
  "vuelve 0 (i2cSoftwarePinWrite I2C_SOFTWARE_SCL_OUT False)"
  "vuelve 1 (i2cSoftwarePinWrite I2C_SOFTWARE_SCL_OUT True)"
  "vuelve 0 (i2cSoftwarePinInit I2C_SOFTWARE_SDA_DIR GPIO_OUTPUT)"
  "vuelve 0 (i2cSoftwarePinInit I2C_SOFTWARE_SDA_DIR GPIO_INPUT_PULLUP)"
  "vuelve 1 (i2cSoftwarePinRead I2C_SOFTWARE_SDA_IN)"
proof -
  have d: "GPIO8 \<noteq> GPIO7" "GPIO7 \<noteq> GPIO8" by (simp_all add: GPIO7_def GPIO8_def)
  note s = i2cSoftwarePinWrite_def i2cSoftwarePinInit_def i2cSoftwarePinRead_def pin_names block.simps bind_assoc bind_ret d
    if_True if_False refl simp_thms gpioInit_t.distinct
  note r = vuelve_pines vuelve_leer vuelve_esperar vuelve_delay vuelve_anotar vuelve_ret vuelve_bind
  show
    "vuelve 0 (i2cSoftwarePinWrite I2C_SOFTWARE_SDA_OUT v)"
    "vuelve 0 (i2cSoftwarePinWrite I2C_SOFTWARE_SCL_OUT False)"
    "vuelve 1 (i2cSoftwarePinWrite I2C_SOFTWARE_SCL_OUT True)"
    "vuelve 0 (i2cSoftwarePinInit I2C_SOFTWARE_SDA_DIR GPIO_OUTPUT)"
    "vuelve 0 (i2cSoftwarePinInit I2C_SOFTWARE_SDA_DIR GPIO_INPUT_PULLUP)"
    "vuelve 1 (i2cSoftwarePinRead I2C_SOFTWARE_SDA_IN)"
    by (simp only: s, rule vuelve_es, (rule r)+, simp?)+
qed

lemmas vuelve_pasos = vuelve_pin vuelve_delay vuelve_ret vuelve_bind

lemma vuelve_start: "vuelve 1 i2cSoftwareMasterWriteStart"
  unfolding i2cSoftwareMasterWriteStart_def block.simps
  by (rule vuelve_es, (rule vuelve_pasos)+, simp)

lemma vuelve_stop: "vuelve 1 i2cSoftwareMasterWriteStop"
  unfolding i2cSoftwareMasterWriteStop_def block.simps
  by (rule vuelve_es, (rule vuelve_pasos)+, simp)

lemma vuelve_enviar: "vuelve n (enviar_bits n b)"
proof (induction n arbitrary: b)
  case (Suc n)
  show ?case
    unfolding enviar_bits.simps block.simps
    by (rule vuelve_es, (rule Suc.IH vuelve_pasos)+, simp)
qed (simp add: vuelve_ret)

lemma vuelve_byte: "vuelve 10 (i2cSoftwareMasterWriteByte b)"
  unfolding i2cSoftwareMasterWriteByte_def block.simps
  by (rule vuelve_es, (rule vuelve_enviar vuelve_pasos)+, simp)

lemma vuelve_recibir_bits: "vuelve (2 * n) (recibir_bits n d)"
proof (induction n arbitrary: d)
  case (Suc n)
  show ?case
    unfolding recibir_bits.simps block.simps
    by (rule vuelve_es, (rule Suc.IH vuelve_pasos)+, simp)
qed (simp add: vuelve_ret)

lemma vuelve_leida: "vuelve 17 (i2cSoftwareMasterReadByte True)"
  unfolding i2cSoftwareMasterReadByte_def block.simps if_True
  by (rule vuelve_es, (rule vuelve_recibir_bits vuelve_pasos)+, simp)

lemma vuelve_dir: "vuelve 10 (i2cSoftwareMasterWriteAddress a rw)"
  unfolding i2cSoftwareMasterWriteAddress_def by (cases rw) (simp_all add: vuelve_byte)

lemma vuelve_tramas: "vuelve (10 * length bs) (for_each bs (\<lambda>b. void (i2cSoftwareMasterWriteByte b)))"
proof (induction bs)
  case (Cons b bs)
  show ?case by (simp, rule vuelve_bind [OF vuelve_void [OF vuelve_byte] Cons.IH])
qed (simp add: vuelve_ret)

lemma vuelve_recibir: "vuelve (17 * n) (recibir n)"
proof (induction n)
  case (Suc n)
  show ?case
    unfolding recibir.simps by (rule vuelve_es, (rule Suc.IH vuelve_leida vuelve_ret vuelve_bind)+, simp)
qed (simp add: vuelve_ret)

lemma vuelve_fin_de: "vuelve (of_bool p) (if p then i2cSoftwareMasterWriteStop else ret ())"
  by (simp add: vuelve_stop [simplified] vuelve_ret)

lemma vuelve_escritura:
  assumes "bs \<noteq> []"
  shows "vuelve (11 + 10 * length bs + of_bool p) (i2cSoftwareWrite a (Some bs) p)"
  unfolding escribe_eq [OF assms]
  by (rule vuelve_es, (rule vuelve_start vuelve_dir vuelve_tramas vuelve_fin_de vuelve_ret vuelve_bind)+, simp)

lemma vuelve_lectura:
  assumes "n \<noteq> 0"
  shows "vuelve (11 + 17 * unat n + of_bool p) (i2cSoftwareRead a True n p)"
  unfolding lee_eq [OF assms]
  by (rule vuelve_es, (rule vuelve_start vuelve_dir vuelve_recibir vuelve_fin_de vuelve_ret vuelve_bind)+, simp)

lemma escribe_lee_eq:
  "bs \<noteq> [] \<Longrightarrow> n \<noteq> 0 \<Longrightarrow> i2cSoftwareWriteRead a (Some bs) p True n q =
     bind (i2cSoftwareWrite a (Some bs) p) (\<lambda>w. bind (i2cSoftwareRead a True n q) (\<lambda>x. ret (w \<and> fst x, snd x)))"
  by (simp add: i2cSoftwareWriteRead_def case_prod_unfold)

lemma vuelve_escritura_lectura:
  assumes "bs \<noteq> []" and "n \<noteq> 0"
  shows "vuelve (22 + 10 * length bs + of_bool p + 17 * unat n + of_bool q)
    (i2cSoftwareWriteRead a (Some bs) p True n q)"
  unfolding escribe_lee_eq [OF assms]
  by (rule vuelve_es, (rule vuelve_escritura [OF assms(1)] vuelve_lectura [OF assms(2)] vuelve_ret vuelve_bind)+, simp)

section \<open>Properties\<close>

text \<open>C36: From an idle bus, \<^verbatim>\<open>i2cSoftwareWriteRead\<close> puts exactly one write transfer and one
  read transfer on the bus: start, the address with the direction bit and every data byte of
  the caller, highest bit first, each with a ninth slot left to the slave; then a stop, a
  start, the address again and as many bytes of the slave as asked for, each acknowledged by
  the master (the last one too), and a stop if asked for. It answers true whatever the slave
  acknowledges. The events do not depend on \<^verbatim>\<open>sendWriteStop\<close>: without it the stop is made by
  the start that follows. This holds for every behaviour of the pins; when the slave does not
  hold the clock, the call returns after a bounded number of looks at them.\<close>

theorem i2c_transferencias:
  assumes "bs \<noteq> []" and "n \<noteq> 0" and "en_bus es libre w"
  shows "sat {} (\<lambda>x w'. fst x \<and> length (snd x) = unat n \<and>
        en_bus (es @ escritura a bs @ [Stop] @ lectura a (unat n) @ (if sendReadStop then [Stop] else []))
          (if sendReadStop then libre else tomado) w') (\<lambda>_. True)
      (i2cSoftwareWriteRead a (Some bs) sendWriteStop True n sendReadStop w) \<and>
    (reloj_libre w \<and> 24 + 10 * length bs + 17 * unat n \<le> length (script w) \<longrightarrow>
      (\<exists>x w'. i2cSoftwareWriteRead a (Some bs) sendWriteStop True n sendReadStop w = Ret x w'))"
proof (intro conjI impI, goal_cases)
  case 1
  show ?case
    by (rule sat_weaken [OF emiteD [OF emite_escritura_lectura [OF assms(1,2)] assms(3)]]) auto
next
  case 2
  have "22 + 10 * length bs + of_bool sendWriteStop + 17 * unat n + of_bool sendReadStop \<le> length (script w)"
    using 2 by (auto simp: of_bool_def)
  with 2 vuelveD [OF vuelve_escritura_lectura [OF assms(1,2)]] show ?case by blast
qed

definition bus_libre0 :: "i2csw" where
  "bus_libre0 = (hw0 (replicate 51 []) \<lparr>traza = [(True, Some True)]\<rparr>)
     \<lparr>pinDir := (\<lambda>p. p = SDA), pinOut := (\<lambda>p. p = SDA)\<rparr>"

theorem i2c_transferencias_witness:
  "\<exists>xs w'. i2cSoftwareWriteRead 0x50 (Some [0x0F]) False True 1 True bus_libre0 = Ret (True, xs) w' \<and>
     fst (decodifica_bus (traza w')) =
       [Start] @ map (\<lambda>b. Bit (Some b)) [True, False, True, False, False, False, False, False] @ [Bit None] @
       map (\<lambda>b. Bit (Some b)) [False, False, False, False, True, True, True, True] @ [Bit None] @
       [Stop, Start] @ map (\<lambda>b. Bit (Some b)) [True, False, True, False, False, False, False, True] @ [Bit None] @
       replicate 8 (Bit None) @ [Bit (Some False), Stop]"
proof -
  have e: "en_bus [] libre bus_libre0"
    by (simp add: en_bus_def libre_def niveles_def bus_libre0_def SDA_def SCL_def alto_def hw0_def)
  have q: "reloj_libre bus_libre0 \<and> 24 + 10 * length [0x0F :: u8] + 17 * unat (1 :: u16) \<le> length (script bus_libre0)"
    by (simp add: reloj_libre_def bus_libre0_def hw0_def)
  note t = i2c_transferencias [OF _ _ e, where bs = "[0x0F]" and n = 1 and a = "0x50" and sendWriteStop = False and sendReadStop = True]
  from t q obtain x w' where r: "i2cSoftwareWriteRead 0x50 (Some [0x0F]) False True 1 True bus_libre0 = Ret x w'"
    by auto
  with t have "fst x" "fst (decodifica_bus (traza w')) = escritura 0x50 [0x0F] @ [Stop] @ lectura 0x50 1 @ [Stop]"
    by (simp_all add: en_bus_def)
  moreover have "bits_de 0xA0 = [True, False, True, False, False, False, False, False]"
    "bits_de 0xA1 = [True, False, True, False, False, False, False, True]"
    "bits_de 0x0F = [False, False, False, False, True, True, True, True]"
    by code_simp+
  ultimately show ?thesis
    using r by (cases x) (simp add: escritura_def lectura_def octeto_dir_def trama_def trama_leida_def)
qed

end
