(* ===== verification/Sapi_Eeprom.thy ===== *)
theory Sapi_Eeprom
  imports Sapi "HOL-Library.Signed_Division"
begin

text \<open>
  The EEPROM driver of sAPI (\<^verbatim>\<open>sapi_eeprom24xx1025.c\<close>), which the lock does not call,
  with \<^verbatim>\<open>i2cRead\<close> and \<^verbatim>\<open>i2cWriteRead\<close> of \<^verbatim>\<open>sapi_i2c.c\<close>.

  The memory chip is the one the header of the driver describes: a control byte with
  the block and the chip select, two bytes of address, pages of 128 bytes, two halves
  of 64 KiB. Its contents are a function of the writes on the bus, and the driver is
  shown to implement an array of 131072 bytes, except for its pages from 512 on. The
  messages of the self tests on the console are left out.
\<close>

section \<open>Reading from the I2C bus\<close>

text \<open>
  \<open>responde\<close> is the circuit on the bus: what it answers to a read of so many bytes at an
  address, given the writes so far (\<open>i2cLog\<close>). A released bus reads as ones.
\<close>

record i2cbus = hw +
  responde :: "(u8 \<times> u8 list) list \<Rightarrow> u8 \<Rightarrow> nat \<Rightarrow> u8 list"

type_synonym ('a, 'z) bprog = "('a, 'z i2cbus_scheme) prog"

definition recibidos :: "u8 \<Rightarrow> u16 \<Rightarrow> 'z i2cbus_scheme \<Rightarrow> bool \<times> u8 list" where
  "recibidos a n w =
     (if i2cAck w then (True, take (unat n) (responde w (i2cLog w) a (unat n) @ replicate (unat n) 0xFF))
      else (False, []))"

definition i2cRead :: "nat \<Rightarrow> u8 \<Rightarrow> u16 \<Rightarrow> (bool \<times> u8 list, 'z) bprog" where
  "i2cRead i2cNumber i2cSlaveAddress receiveDataBufferSize =
     (if i2cNumber \<noteq> I2C0 then ret (False, []) else gets (recibidos i2cSlaveAddress receiveDataBufferSize))"

definition i2cWriteRead :: "nat \<Rightarrow> u8 \<Rightarrow> u8 list \<Rightarrow> u16 \<Rightarrow> (bool \<times> u8 list, 'z) bprog" where
  "i2cWriteRead i2cNumber i2cSlaveAddress dataToReadBuffer receiveDataBufferSize =
     (if i2cNumber \<noteq> I2C0 then ret (False, [])
      else
        bind (modify (\<lambda>w. w\<lparr>i2cLog := (i2cSlaveAddress, dataToReadBuffer) # i2cLog w\<rparr>)) (\<lambda>_.
        gets (recibidos i2cSlaveAddress receiveDataBufferSize)))"

section \<open>The driver\<close>

record Eeprom24xx1025_t =
  ep_i2c :: nat
  ep_A0 :: bool
  ep_A1 :: bool
  ep_gpioA0 :: gpioMap_t
  ep_gpioA1 :: gpioMap_t
  ep_gpioPower :: gpioMap_t
  ep_gpioWP :: gpioMap_t
  ep_pageSize :: u32
  ep_memorySize :: u32

definition EEPROM_1024_K_BIT :: u32 where "EEPROM_1024_K_BIT = 1024 * 1024 div 8"
definition EEPROM24xx1025_PAGE_SIZE :: u32 where "EEPROM24xx1025_PAGE_SIZE = 128"
definition EEPROM24xx1025_CTRL_CODE :: u8 where "EEPROM24xx1025_CTRL_CODE = 0xA"

definition EEPROM_ADDRESS_HIGH :: "u32 \<Rightarrow> u8" where
  "EEPROM_ADDRESS_HIGH address = ucast (drop_bit 8 (address AND 0xFFFFFF00))"

definition EEPROM_ADDRESS_LOW :: "u32 \<Rightarrow> u8" where
  "EEPROM_ADDRESS_LOW address = ucast (address AND 0x000000FF)"

text \<open>The division of two \<^verbatim>\<open>int32_t\<close>.\<close>

definition div_int32 :: "u32 \<Rightarrow> u32 \<Rightarrow> u32" where
  "div_int32 a b = word_of_int (sint a sdiv sint b)"

definition eeprom24xx1025I2cAddress :: "Eeprom24xx1025_t \<Rightarrow> u32 \<Rightarrow> (u8, 'z) hwprog" where
  "eeprom24xx1025I2cAddress eeprom address =
     bind (if 0 \<le> ep_gpioA0 eeprom then gpioRead (ep_gpioA0 eeprom) else ret (ep_A0 eeprom)) (\<lambda>a0.
     bind (if 0 \<le> ep_gpioA1 eeprom then gpioRead (ep_gpioA1 eeprom) else ret (ep_A1 eeprom)) (\<lambda>a1.
     ret (push_bit 3 EEPROM24xx1025_CTRL_CODE OR
       push_bit 2 (if div_int32 (ep_memorySize eeprom) 2 \<le> address then 1 else 0) OR
       push_bit 1 (of_bool a1) OR push_bit 0 (of_bool a0))))"

definition eeprom24xx1025PowerSet :: "Eeprom24xx1025_t \<Rightarrow> bool \<Rightarrow> (bool, 'z) hwprog" where
  "eeprom24xx1025PowerSet eeprom pwr =
     bind (if 0 \<le> ep_gpioPower eeprom then
             if pwr then void (gpioWrite (ep_gpioPower eeprom) True)
             else void (gpioWrite (ep_gpioPower eeprom) False)
           else ret ()) (\<lambda>_. ret True)"

definition eeprom24xx1025DataReady :: bool where
  "eeprom24xx1025DataReady = True"

definition eeprom24xx1025AmountOfPagesGet :: "Eeprom24xx1025_t \<Rightarrow> (u32, 'z) hwprog" where
  "eeprom24xx1025AmountOfPagesGet eeprom =
     (if ep_pageSize eeprom = 0 then fault DivByZero
      else ret (div_int32 (ep_memorySize eeprom) (ep_pageSize eeprom)))"

definition eeprom24xx1025Init ::
  "nat \<Rightarrow> bool \<Rightarrow> bool \<Rightarrow> gpioMap_t \<Rightarrow> gpioMap_t \<Rightarrow> gpioMap_t \<Rightarrow> gpioMap_t \<Rightarrow> u32 \<Rightarrow> u32 \<Rightarrow>
     (bool \<times> Eeprom24xx1025_t, 'z) hwprog" where
  "eeprom24xx1025Init i2c A0 A1 gpioA0 gpioA1 gpioPower gpioWP pageSize memorySize =
     bind (block (map (\<lambda>p. if 0 \<le> p then void (gpioInit p GPIO_OUTPUT) else ret ())
         [gpioA0, gpioA1, gpioPower, gpioWP])) (\<lambda>_.
     ret (True, \<lparr>ep_i2c = i2c, ep_A0 = A0, ep_A1 = A1, ep_gpioA0 = gpioA0, ep_gpioA1 = gpioA1,
       ep_gpioPower = gpioPower, ep_gpioWP = gpioWP, ep_pageSize = pageSize, ep_memorySize = memorySize\<rparr>))"

definition eeprom24xx1025WriteByte :: "Eeprom24xx1025_t \<Rightarrow> u32 \<Rightarrow> u8 \<Rightarrow> (bool, 'z) hwprog" where
  "eeprom24xx1025WriteByte eeprom memoryAddress byteToWrite =
     (if memoryAddress > ep_memorySize eeprom then ret False
      else
        bind (eeprom24xx1025I2cAddress eeprom memoryAddress) (\<lambda>a.
        bind (i2cWrite (ep_i2c eeprom) a
                [EEPROM_ADDRESS_HIGH memoryAddress, EEPROM_ADDRESS_LOW memoryAddress, byteToWrite]) (\<lambda>retVal.
        bind (delayInaccurateMs 5) (\<lambda>_. ret retVal))))"

text \<open>
  The size of a buffer is its length. The counter of the copy has 16 bits and is compared with one of 32; the
  size that reaches \<^verbatim>\<open>i2cWrite\<close> has 16.
\<close>

definition eeprom24xx1025WritePage :: "Eeprom24xx1025_t \<Rightarrow> u32 \<Rightarrow> u8 list \<Rightarrow> (bool, 'z) hwprog" where
  "eeprom24xx1025WritePage eeprom page byteBuffer =
     (let byteBufferSize = of_nat (length byteBuffer) :: u32 in
      if byteBufferSize \<noteq> ep_pageSize eeprom then ret False
      else
        bind (eeprom24xx1025AmountOfPagesGet eeprom) (\<lambda>n.
        if page \<ge> n then ret False
        else if byteBufferSize > 0xFFFF then (\<lambda>w. Hang w)
        else
          let memoryAddress = ucast (page * ep_pageSize eeprom) :: u16;
              dataToWrite = EEPROM_ADDRESS_HIGH (ucast memoryAddress) # EEPROM_ADDRESS_LOW (ucast memoryAddress) #
                byteBuffer
          in
            bind (eeprom24xx1025I2cAddress eeprom (ucast memoryAddress)) (\<lambda>a.
            bind (i2cWrite (ep_i2c eeprom) a (take (unat (ucast (byteBufferSize + 2) :: u16)) dataToWrite)) (\<lambda>retVal.
            bind (delayInaccurateMs 5) (\<lambda>_. ret retVal)))))"

definition eeprom24xx1025ReadCurrentAddress :: "Eeprom24xx1025_t \<Rightarrow> u32 \<Rightarrow> (bool \<times> u8 list, 'z) bprog" where
  "eeprom24xx1025ReadCurrentAddress eeprom memoryAddress =
     bind (eeprom24xx1025I2cAddress eeprom memoryAddress) (\<lambda>a. i2cRead (ep_i2c eeprom) a 1)"

definition eeprom24xx1025ReadRandom :: "Eeprom24xx1025_t \<Rightarrow> u32 \<Rightarrow> (bool \<times> u8 list, 'z) bprog" where
  "eeprom24xx1025ReadRandom eeprom memoryAddress =
     (if memoryAddress > ep_memorySize eeprom then ret (False, [])
      else
        bind (eeprom24xx1025I2cAddress eeprom memoryAddress) (\<lambda>a.
        i2cWriteRead (ep_i2c eeprom) a [EEPROM_ADDRESS_HIGH memoryAddress, EEPROM_ADDRESS_LOW memoryAddress] 1))"

definition eeprom24xx1025ReadSequential :: "Eeprom24xx1025_t \<Rightarrow> u32 \<Rightarrow> u32 \<Rightarrow> (bool \<times> u8 list, 'z) bprog" where
  "eeprom24xx1025ReadSequential eeprom address byteBufferSize =
     (if byteBufferSize > div_int32 (ep_memorySize eeprom) 2 then ret (False, [])
      else
        bind (eeprom24xx1025I2cAddress eeprom address) (\<lambda>a.
        i2cWriteRead (ep_i2c eeprom) a [EEPROM_ADDRESS_HIGH address, EEPROM_ADDRESS_LOW address]
          (ucast byteBufferSize)))"

definition eeprom24xx1025WriteProtectionSet :: "bool \<Rightarrow> (unit, 'z) hwprog" where
  "eeprom24xx1025WriteProtectionSet state = ret ()"

definition eeprom24xx1025WriteProtectionGet :: bool where
  "eeprom24xx1025WriteProtectionGet = False"

section \<open>The self tests\<close>

text \<open>How every self test begins: the board, the bus, and a driver for the chip with its pins fixed.\<close>

definition preparar :: "(Eeprom24xx1025_t, 'z) hwprog" where
  "preparar =
     bind boardInit (\<lambda>_.
     bind (i2cInit I2C0 100000) (\<lambda>_.
     bind (eeprom24xx1025Init I2C0 False False (-1) (-1) (-1) (-1) EEPROM24xx1025_PAGE_SIZE EEPROM_1024_K_BIT) (\<lambda>(_, e).
     ret e)))"

primrec escribir_bytes :: "Eeprom24xx1025_t \<Rightarrow> u32 \<Rightarrow> u8 list \<Rightarrow> (bool, 'z) hwprog" where
  "escribir_bytes e address [] = ret True"
| "escribir_bytes e address (b # bs) =
     bind (eeprom24xx1025WriteByte e address b) (\<lambda>r. if r then escribir_bytes e (address + 1) bs else ret False)"

primrec comprobar_bytes :: "Eeprom24xx1025_t \<Rightarrow> u32 \<Rightarrow> u8 list \<Rightarrow> (bool, 'z) bprog" where
  "comprobar_bytes e address [] = ret True"
| "comprobar_bytes e address (b # bs) =
     bind (eeprom24xx1025ReadRandom e address) (\<lambda>(r, xs).
     if r then
       if xs ! 0 = b then comprobar_bytes e (address + 1) bs
       else bind (eeprom24xx1025PowerSet e False) (\<lambda>_. ret False)
     else bind (eeprom24xx1025PowerSet e False) (\<lambda>_. ret False))"

definition eeprom24xx1025TestWriteBytes :: "u32 \<Rightarrow> u8 list \<Rightarrow> (bool, 'z) bprog" where
  "eeprom24xx1025TestWriteBytes startingPage buff =
     bind preparar (\<lambda>e.
     if of_nat (length buff) > ep_pageSize e then ret False
     else
       bind (eeprom24xx1025PowerSet e True) (\<lambda>_.
       let startingAddress = startingPage * ep_pageSize e in
       bind (escribir_bytes e startingAddress buff) (\<lambda>r.
       if \<not> r then ret False
       else
         bind (comprobar_bytes e startingAddress buff) (\<lambda>r.
         if \<not> r then ret False
         else bind (eeprom24xx1025PowerSet e False) (\<lambda>_. ret True)))))"

definition eeprom24xx1025TestWritePage :: "u32 \<Rightarrow> u8 list \<Rightarrow> (bool, 'z) bprog" where
  "eeprom24xx1025TestWritePage page buff =
     bind preparar (\<lambda>e.
     if of_nat (length buff) \<noteq> ep_pageSize e then ret False
     else
       bind (eeprom24xx1025PowerSet e True) (\<lambda>_.
       bind (eeprom24xx1025WritePage e page buff) (\<lambda>r.
       if \<not> r then ret False
       else
         bind (comprobar_bytes e (page * ep_pageSize e) buff) (\<lambda>r.
         if \<not> r then ret False
         else bind (eeprom24xx1025PowerSet e False) (\<lambda>_. ret True)))))"

definition eeprom24xx1025TestReadSequential :: "u32 \<Rightarrow> u32 \<Rightarrow> (bool \<times> u8 list, 'z) bprog" where
  "eeprom24xx1025TestReadSequential address byteBufferSize =
     bind preparar (\<lambda>e.
     if byteBufferSize > div_int32 (ep_memorySize e) 2 then ret (False, [])
     else
       bind (eeprom24xx1025PowerSet e True) (\<lambda>_.
       bind (eeprom24xx1025ReadSequential e address byteBufferSize) (\<lambda>r.
       bind (eeprom24xx1025PowerSet e False) (\<lambda>_. ret r))))"

primrec leer_actual :: "Eeprom24xx1025_t \<Rightarrow> u32 \<Rightarrow> nat \<Rightarrow> (bool, 'z) bprog" where
  "leer_actual e address 0 = ret True"
| "leer_actual e address (Suc n) =
     bind (eeprom24xx1025ReadCurrentAddress e address) (\<lambda>(r, _).
     if r then leer_actual e (address + 1) n
     else bind (eeprom24xx1025PowerSet e False) (\<lambda>_. ret False))"

definition eeprom24xx1025TestReadCurrentAddress :: "u32 \<Rightarrow> (bool, 'z) bprog" where
  "eeprom24xx1025TestReadCurrentAddress dummyReadAddress =
     bind preparar (\<lambda>e.
     bind (eeprom24xx1025PowerSet e True) (\<lambda>_.
     bind (eeprom24xx1025ReadRandom e dummyReadAddress) (\<lambda>(r, _).
     if \<not> r then bind (eeprom24xx1025PowerSet e False) (\<lambda>_. ret False)
     else
       bind (leer_actual e dummyReadAddress 10) (\<lambda>r.
       if \<not> r then ret False
       else bind (eeprom24xx1025PowerSet e False) (\<lambda>_. ret True)))))"

section \<open>The chip\<close>

text \<open>
  The chip with its select pins at \<open>a1\<close> and \<open>a0\<close>. The control byte (without the direction bit) is \<open>1010 B0 A1 A0\<close>;
  \<open>B0\<close> chooses the half. A write of more than the two address bytes stores the rest within one page, going
  around at its end; a read goes around at the end of the half.
\<close>

type_synonym mem = "nat \<Rightarrow> u8"

definition selecciona :: "bool \<Rightarrow> bool \<Rightarrow> u8 \<Rightarrow> bool" where
  "selecciona a1 a0 ctl \<longleftrightarrow> ctl AND 0x7B = 0x50 OR push_bit 1 (of_bool a1) OR of_bool a0"

definition bloque :: "u8 \<Rightarrow> nat" where
  "bloque ctl = (if bit ctl 2 then 65536 else 0)"

definition palabra :: "u8 \<Rightarrow> u8 \<Rightarrow> nat" where
  "palabra hi lo = unat hi * 256 + unat lo"

primrec grabar :: "nat \<Rightarrow> nat \<Rightarrow> u8 list \<Rightarrow> mem \<Rightarrow> mem" where
  "grabar blk a [] m = m"
| "grabar blk a (b # bs) m = grabar blk (a div 128 * 128 + (a + 1) mod 128) bs (m(blk + a := b))"

fun chip_escribe :: "bool \<Rightarrow> bool \<Rightarrow> u8 \<times> u8 list \<Rightarrow> mem \<Rightarrow> mem" where
  "chip_escribe a1 a0 (ctl, hi # lo # bs) m =
     (if selecciona a1 a0 ctl then grabar (bloque ctl) (palabra hi lo) bs m else m)"
| "chip_escribe a1 a0 _ m = m"

definition memoria :: "bool \<Rightarrow> bool \<Rightarrow> mem \<Rightarrow> (u8 \<times> u8 list) list \<Rightarrow> mem" where
  "memoria a1 a0 m0 log = foldr (chip_escribe a1 a0) log m0"

text \<open>A read starts at the address of the last write to the chip, after its data.\<close>

fun chip_responde :: "bool \<Rightarrow> bool \<Rightarrow> mem \<Rightarrow> (u8 \<times> u8 list) list \<Rightarrow> u8 \<Rightarrow> nat \<Rightarrow> u8 list" where
  "chip_responde a1 a0 m0 [] ctl n = []"
| "chip_responde a1 a0 m0 ((ctl', bs) # log) ctl n =
     (if \<not> selecciona a1 a0 ctl then []
      else if \<not> selecciona a1 a0 ctl' then chip_responde a1 a0 m0 log ctl n
      else case bs of hi # lo # ds \<Rightarrow>
          let a = palabra hi lo; p = a div 128 * 128 + (a + length ds) mod 128
          in map (\<lambda>i. memoria a1 a0 m0 ((ctl', bs) # log) (bloque ctl + (p + i) mod 65536)) [0..<n]
        | _ \<Rightarrow> [])"

section \<open>Addresses\<close>

text \<open>The three parts of an address on the bus.\<close>

definition control :: "bool \<Rightarrow> bool \<Rightarrow> u32 \<Rightarrow> u8" where
  "control a1 a0 v = 0x50 OR (if 65536 \<le> v then 4 else 0) OR push_bit 1 (of_bool a1) OR of_bool a0"

lemma selecciona_control: "selecciona a1 a0 (control a1 a0 v)"
  by (cases a1; cases a0) (simp_all add: selecciona_def control_def)

lemma bloque_control: "bloque (control a1 a0 v) = (if 65536 \<le> v then 65536 else 0)"
proof -
  have "bit (control a1 a0 v) 2 \<longleftrightarrow> 65536 \<le> v"
    by (cases a1; cases a0) (simp_all add: control_def bit_simps)
  then show ?thesis by (simp add: bloque_def)
qed

lemma unat_low: "unat (EEPROM_ADDRESS_LOW v) = unat v mod 256"
proof -
  have "(0x000000FF :: u32) = mask 8" by (simp add: mask_eq_exp_minus_1)
  then have "v AND 0x000000FF = take_bit 8 v" by (simp only: take_bit_eq_mask)
  then show ?thesis
    unfolding EEPROM_ADDRESS_LOW_def
    by (simp only: unsigned_ucast_eq unsigned_take_bit_eq) (simp add: take_bit_eq_mod)
qed

lemma unat_high: "unat (EEPROM_ADDRESS_HIGH v) = unat v div 256 mod 256"
proof -
  have l: "unat v < 2 ^ LENGTH(32)" by (rule unsigned_less)
  have m: "(0xFFFFFF00 :: u32) = push_bit 8 (mask 24)" by (simp add: mask_eq_exp_minus_1 push_bit_eq_mult)
  have "drop_bit 8 (v AND 0xFFFFFF00) = drop_bit 8 v"
    unfolding m by (rule bit_eqI) (auto simp: bit_simps dest: bit_imp_le_length)
  then show ?thesis
    unfolding EEPROM_ADDRESS_HIGH_def
    using l
    by (simp only: unsigned_ucast_eq unsigned_drop_bit_eq) (simp add: take_bit_eq_mod drop_bit_eq_div)
qed

lemma palabra_dir: "palabra (EEPROM_ADDRESS_HIGH v) (EEPROM_ADDRESS_LOW v) = unat v mod 65536"
  unfolding palabra_def unat_low unat_high
  using mod_mult2_eq [of "unat v" 256 256] by simp

text \<open>The driver with the chip's sizes and fixed select pins, and the bus with the chip.\<close>

definition fija :: "bool \<Rightarrow> bool \<Rightarrow> Eeprom24xx1025_t \<Rightarrow> bool" where
  "fija a1 a0 e \<longleftrightarrow> ep_i2c e = I2C0 \<and> ep_A1 e = a1 \<and> ep_A0 e = a0 \<and> ep_gpioA1 e < 0 \<and> ep_gpioA0 e < 0 \<and>
     ep_gpioPower e < 0 \<and> ep_pageSize e = EEPROM24xx1025_PAGE_SIZE \<and> ep_memorySize e = EEPROM_1024_K_BIT"

definition conectada :: "bool \<Rightarrow> bool \<Rightarrow> mem \<Rightarrow> 'z i2cbus_scheme \<Rightarrow> bool" where
  "conectada a1 a0 m0 w \<longleftrightarrow> i2cAck w \<and> responde w = chip_responde a1 a0 m0"

definition contenido :: "bool \<Rightarrow> bool \<Rightarrow> mem \<Rightarrow> 'z i2cbus_scheme \<Rightarrow> mem" where
  "contenido a1 a0 m0 w = memoria a1 a0 m0 (i2cLog w)"

lemma tamanos: "EEPROM_1024_K_BIT = 131072" "div_int32 131072 2 = 65536" "div_int32 131072 128 = 1024"
  "EEPROM24xx1025_PAGE_SIZE = 128"
  by (simp_all add: EEPROM_1024_K_BIT_def EEPROM24xx1025_PAGE_SIZE_def) (code_simp+)

lemma direccion: "fija a1 a0 e \<Longrightarrow> eeprom24xx1025I2cAddress e v = ret (control a1 a0 v)"
  by (cases a1; cases a0)
    (auto simp: eeprom24xx1025I2cAddress_def fija_def tamanos control_def EEPROM24xx1025_CTRL_CODE_def)

lemma encendido: "fija a1 a0 e \<Longrightarrow> eeprom24xx1025PowerSet e p = ret True"
  by (simp add: eeprom24xx1025PowerSet_def fija_def)

lemma paginas: "fija a1 a0 e \<Longrightarrow> eeprom24xx1025AmountOfPagesGet e = ret 1024"
  by (simp add: eeprom24xx1025AmountOfPagesGet_def fija_def tamanos)

lemma lugar: "v < 131072 \<Longrightarrow> bloque (control a1 a0 v) + unat v mod 65536 = unat v"
  unfolding bloque_control word_le_nat_alt word_less_nat_alt
  by (simp add: mod_if) arith

text \<open>One operation at a time.\<close>

lemma escribe_byte:
  assumes "fija a1 a0 e" and "conectada a1 a0 m0 w" and "v < 131072"
  shows "\<exists>w'. eeprom24xx1025WriteByte e v b w = Ret True w' \<and> conectada a1 a0 m0 w' \<and>
     contenido a1 a0 m0 w' = (contenido a1 a0 m0 w)(unat v := b)"
proof -
  have "\<not> v > ep_memorySize e" using assms(1,3) by (simp add: fija_def tamanos)
  then show ?thesis
    using assms lugar [OF assms(3)]
    by (simp add: eeprom24xx1025WriteByte_def direccion [OF assms(1)] i2cWrite_def fija_def delayInaccurateMs_def busy_def
        bind_apply conectada_def contenido_def memoria_def selecciona_control palabra_dir)
qed

lemma lee_byte:
  assumes "fija a1 a0 e" and "conectada a1 a0 m0 w" and "v < 131072"
  shows "\<exists>w'. eeprom24xx1025ReadRandom e v w = Ret (True, [contenido a1 a0 m0 w (unat v)]) w' \<and>
     conectada a1 a0 m0 w' \<and> contenido a1 a0 m0 w' = contenido a1 a0 m0 w"
proof -
  have "\<not> v > ep_memorySize e" using assms(1,3) by (simp add: fija_def tamanos)
  then show ?thesis
    using assms lugar [OF assms(3)]
    by (simp add: eeprom24xx1025ReadRandom_def direccion [OF assms(1)] i2cWriteRead_def fija_def recibidos_def
        bind_apply conectada_def contenido_def memoria_def selecciona_control palabra_dir)
qed

text \<open>A block of bytes written at \<open>a\<close>.\<close>

definition pisar :: "nat \<Rightarrow> u8 list \<Rightarrow> mem \<Rightarrow> mem" where
  "pisar a bs m = (\<lambda>l. if a \<le> l \<and> l < a + length bs then bs ! (l - a) else m l)"

lemma pisar_Nil [simp]: "pisar a [] m = m"
  by (rule ext) (auto simp: pisar_def)

lemma pisar_Cons: "pisar (Suc a) bs (m(a := b)) = pisar a (b # bs) m"
  by (rule ext) (auto simp: pisar_def nth_Cons')

lemma grabar_pagina:
  "128 dvd a \<Longrightarrow> k + length bs \<le> 128 \<Longrightarrow> grabar blk (a + k) bs m = pisar (blk + a + k) bs m"
proof (induction bs arbitrary: k m)
  case (Cons b bs)
  from Cons.prems(1) obtain q where q: "a = 128 * q" by (auto elim: dvdE)
  show ?case
  proof (cases "k + 1 < 128")
    case True
    then have "(a + k) div 128 * 128 + (a + k + 1) mod 128 = a + (k + 1)" by (simp add: q)
    then show ?thesis
      using Cons.IH [OF Cons.prems(1), of "k + 1"] Cons.prems(2)
      by (simp add: pisar_Cons add.assoc)
  next
    case False
    then have "bs = []" using Cons.prems(2) by (cases bs) auto
    then show ?thesis by (simp add: pisar_Cons [symmetric] add.assoc)
  qed
qed simp

lemma unat_pagina:
  assumes "p < 1024"
  shows "unat (ucast (ucast (p * 128 :: u32) :: u16) :: u32) = unat p * 128 mod 65536"
proof -
  have p: "unat p < 1024" using assms by (simp add: word_less_nat_alt)
  then have m: "unat (p * 128) = unat p * 128" by (simp add: unat_word_ariths)
  show ?thesis using p by (simp only: unsigned_ucast_eq unsigned_take_bit_eq m) (simp add: take_bit_eq_mod)
qed

lemma escribe_pagina:
  assumes e: "fija a1 a0 e" and w: "conectada a1 a0 m0 w" and p: "p < 1024" and n: "length bs = 128"
  shows "\<exists>w'. eeprom24xx1025WritePage e p bs w = Ret True w' \<and> conectada a1 a0 m0 w' \<and>
     contenido a1 a0 m0 w' = pisar (unat p * 128 mod 65536) bs (contenido a1 a0 m0 w)"
proof -
  define v where "v = (ucast (ucast (p * 128 :: u32) :: u16) :: u32)"
  have v: "unat v = unat p * 128 mod 65536" unfolding v_def by (rule unat_pagina [OF p])
  then have b: "bloque (control a1 a0 v) = 0"
    by (simp add: bloque_control word_le_nat_alt)
  have g: "grabar 0 (unat v) bs m = pisar (unat v) bs m" for m
  proof -
    have "128 dvd unat v" unfolding v by (simp add: dvd_mod)
    from grabar_pagina [OF this, of 0 bs 0] n show ?thesis by simp
  qed
  have t: "take (unat (ucast (of_nat (length bs) + 2 :: u32) :: u16)) (x # y # bs) = x # y # bs" for x y
    using n by simp
  have "eeprom24xx1025WritePage e p bs w = bind (i2cWrite I2C0 (control a1 a0 v)
      (EEPROM_ADDRESS_HIGH v # EEPROM_ADDRESS_LOW v # bs)) (\<lambda>r. bind (delayInaccurateMs 5) (\<lambda>_. ret r)) w"
    using p n e unfolding eeprom24xx1025WritePage_def Let_def paginas [OF e] bind_ret direccion [OF e] t
    by (simp add: fija_def tamanos v_def not_le [symmetric])
  then show ?thesis
    using w v by (simp add: i2cWrite_def delayInaccurateMs_def busy_def bind_apply conectada_def contenido_def memoria_def
        selecciona_control palabra_dir b g [unfolded v])
qed

lemma lee_varios:
  assumes e: "fija a1 a0 e" and w: "conectada a1 a0 m0 w" and n: "n < 65536" and v: "v < 131072"
    and d: "unat v mod 65536 + unat n \<le> 65536"
  shows "\<exists>w'. eeprom24xx1025ReadSequential e v n w = Ret (True, map (contenido a1 a0 m0 w) [unat v..<unat v + unat n]) w' \<and>
     conectada a1 a0 m0 w' \<and> contenido a1 a0 m0 w' = contenido a1 a0 m0 w"
proof -
  have u: "unat (ucast n :: u16) = unat n"
    using n by (simp add: unsigned_ucast_eq take_bit_eq_mod word_less_nat_alt)
  have i: "bloque (control a1 a0 v) + (unat v + i) mod 65536 = unat v + i" if "i < unat n" for i
  proof -
    have "(unat v + i) mod 65536 = (unat v mod 65536 + i) mod 65536" by (simp add: mod_add_left_eq)
    also have "\<dots> = unat v mod 65536 + i" using that d by simp
    finally show ?thesis using lugar [OF v, of a1 a0] by simp
  qed
  have l: "map (\<lambda>i. m (bloque (control a1 a0 v) + (unat v + i) mod 65536)) [0..<unat n] =
      map m [unat v..<unat v + unat n]" for m :: mem
    by (rule nth_equalityI) (simp_all add: i)
  have "\<not> n > div_int32 (ep_memorySize e) 2" using e n by (simp add: fija_def tamanos)
  then show ?thesis
    using e w
    by (simp add: eeprom24xx1025ReadSequential_def direccion [OF e] i2cWriteRead_def fija_def recibidos_def
        bind_apply conectada_def contenido_def memoria_def selecciona_control palabra_dir u l mod_add_left_eq)
qed

section \<open>The driver is an array\<close>

datatype ep_op = Escribe_byte u32 u8 | Escribe_pagina u32 "u8 list" | Lee_byte u32 | Lee_varios u32 u32

primrec ejecuta :: "Eeprom24xx1025_t \<Rightarrow> ep_op \<Rightarrow> (bool \<times> u8 list, 'z) bprog" where
  "ejecuta e (Escribe_byte v b) = bind (eeprom24xx1025WriteByte e v b) (\<lambda>r. ret (r, []))"
| "ejecuta e (Escribe_pagina p bs) = bind (eeprom24xx1025WritePage e p bs) (\<lambda>r. ret (r, []))"
| "ejecuta e (Lee_byte v) = eeprom24xx1025ReadRandom e v"
| "ejecuta e (Lee_varios v n) = eeprom24xx1025ReadSequential e v n"

primrec ejecuta_todas :: "Eeprom24xx1025_t \<Rightarrow> ep_op list \<Rightarrow> ((bool \<times> u8 list) list, 'z) bprog" where
  "ejecuta_todas e [] = ret []"
| "ejecuta_todas e (p # ps) = bind (ejecuta e p) (\<lambda>r. bind (ejecuta_todas e ps) (\<lambda>rs. ret (r # rs)))"

text \<open>What is promised of an operation: inside the array, pages below 512, sequential reads within a half.\<close>

primrec ep_valida :: "ep_op \<Rightarrow> bool" where
  "ep_valida (Escribe_byte v b) \<longleftrightarrow> v < 131072"
| "ep_valida (Escribe_pagina p bs) \<longleftrightarrow> p < 512 \<and> length bs = 128"
| "ep_valida (Lee_byte v) \<longleftrightarrow> v < 131072"
| "ep_valida (Lee_varios v n) \<longleftrightarrow> v < 131072 \<and> n < 65536 \<and> unat v mod 65536 + unat n \<le> 65536"

primrec ep_memoria :: "ep_op \<Rightarrow> mem \<Rightarrow> mem" where
  "ep_memoria (Escribe_byte v b) m = m(unat v := b)"
| "ep_memoria (Escribe_pagina p bs) m = pisar (unat p * 128) bs m"
| "ep_memoria (Lee_byte v) m = m"
| "ep_memoria (Lee_varios v n) m = m"

primrec ep_leido :: "ep_op \<Rightarrow> mem \<Rightarrow> u8 list" where
  "ep_leido (Escribe_byte v b) m = []"
| "ep_leido (Escribe_pagina p bs) m = []"
| "ep_leido (Lee_byte v) m = [m (unat v)]"
| "ep_leido (Lee_varios v n) m = map m [unat v..<unat v + unat n]"

primrec ep_espec :: "ep_op list \<Rightarrow> mem \<Rightarrow> (bool \<times> u8 list) list" where
  "ep_espec [] m = []"
| "ep_espec (p # ps) m = (True, ep_leido p m) # ep_espec ps (ep_memoria p m)"

lemma ejecuta_espec:
  assumes "fija a1 a0 e" and "conectada a1 a0 m0 w" and "ep_valida p"
  shows "\<exists>w'. ejecuta e p w = Ret (True, ep_leido p (contenido a1 a0 m0 w)) w' \<and> conectada a1 a0 m0 w' \<and>
     contenido a1 a0 m0 w' = ep_memoria p (contenido a1 a0 m0 w)"
proof (cases p)
  case (Escribe_byte v b)
  then show ?thesis using escribe_byte [OF assms(1,2), of v b] assms(3) by (auto simp: bind_apply)
next
  case (Escribe_pagina q bs)
  with assms(3) have q: "q < 512" "length bs = 128" by simp_all
  then have "unat q * 128 mod 65536 = unat q * 128" "q < 1024"
    by (simp_all add: word_less_nat_alt)
  with escribe_pagina [OF assms(1,2) _ q(2), of q] show ?thesis by (auto simp: Escribe_pagina bind_apply)
next
  case (Lee_byte v)
  then show ?thesis using lee_byte [OF assms(1,2), of v] assms(3) by simp
next
  case (Lee_varios v n)
  then show ?thesis using lee_varios [OF assms(1,2), of n v] assms(3) by simp
qed

text \<open>C35: The driver makes an array of 131072 bytes out of the chip. Over every sequence of byte writes, page
  writes below page 512, single reads and sequential reads within a half, every call answers true, every
  read returns what the array holds (the last bytes written, or the initial contents), and the chip
  ends with the contents of the array.\<close>

theorem eeprom_es_un_arreglo:
  assumes "fija a1 a0 e" and "conectada a1 a0 m0 w" and "list_all ep_valida ps"
  shows "\<exists>w'. ejecuta_todas e ps w = Ret (ep_espec ps (contenido a1 a0 m0 w)) w' \<and>
     contenido a1 a0 m0 w' = fold ep_memoria ps (contenido a1 a0 m0 w)"
  using assms(2,3)
proof (induction ps arbitrary: w)
  case (Cons p ps)
  from ejecuta_espec [OF assms(1) Cons.prems(1), of p] Cons.prems(2) obtain w1 where w1:
    "ejecuta e p w = Ret (True, ep_leido p (contenido a1 a0 m0 w)) w1" "conectada a1 a0 m0 w1"
    "contenido a1 a0 m0 w1 = ep_memoria p (contenido a1 a0 m0 w)" by auto
  from Cons.IH [OF w1(2)] Cons.prems(2) w1 show ?case by (auto simp: bind_apply)
qed simp

definition bus_eeprom0 :: i2cbus where
  "bus_eeprom0 = (hw0 [] \<lparr>responde = chip_responde False False (\<lambda>_. 0xFF)\<rparr>)\<lparr>i2cAck := True\<rparr>"

definition eeprom0 :: Eeprom24xx1025_t where
  "eeprom0 = \<lparr>ep_i2c = I2C0, ep_A0 = False, ep_A1 = False, ep_gpioA0 = -1, ep_gpioA1 = -1, ep_gpioPower = -1,
     ep_gpioWP = -1, ep_pageSize = EEPROM24xx1025_PAGE_SIZE, ep_memorySize = EEPROM_1024_K_BIT\<rparr>"

lemma fija_eeprom0: "fija False False eeprom0"
  by (simp add: fija_def eeprom0_def)

lemma bus_eeprom0: "conectada False False (\<lambda>_. 0xFF) bus_eeprom0" "contenido False False (\<lambda>_. 0xFF) bus_eeprom0 = (\<lambda>_. 0xFF)"
  by (simp_all add: conectada_def contenido_def bus_eeprom0_def hw0_def memoria_def)

theorem eeprom_es_un_arreglo_witness:
  "\<exists>w'. ejecuta_todas eeprom0
       [Escribe_byte 70000 7, Escribe_pagina 3 (replicate 128 9), Lee_byte 70000, Lee_varios 510 4] bus_eeprom0 =
     Ret [(True, []), (True, []), (True, [7]), (True, [9, 9, 0xFF, 0xFF])] w'"
  using eeprom_es_un_arreglo [OF fija_eeprom0 bus_eeprom0(1),
      of "[Escribe_byte 70000 7, Escribe_pagina 3 (replicate 128 9), Lee_byte 70000, Lee_varios 510 4]"]
  by (auto simp: bus_eeprom0(2) pisar_def upt_conv_Cons)

section \<open>The self tests\<close>

lemma comprueba:
  assumes "fija a1 a0 e" and "conectada a1 a0 m0 w" and "unat v + length bs \<le> 131072"
  shows "\<exists>w'. comprobar_bytes e v bs w =
       Ret (\<forall>i < length bs. contenido a1 a0 m0 w (unat v + i) = bs ! i) w' \<and>
     conectada a1 a0 m0 w' \<and> contenido a1 a0 m0 w' = contenido a1 a0 m0 w"
  using assms(2,3)
proof (induction bs arbitrary: v w)
  case (Cons b bs)
  have v: "v < 131072" using Cons.prems(2) by (simp add: word_less_nat_alt)
  from lee_byte [OF assms(1) Cons.prems(1) v] obtain w1 where w1:
    "eeprom24xx1025ReadRandom e v w = Ret (True, [contenido a1 a0 m0 w (unat v)]) w1" "conectada a1 a0 m0 w1"
    "contenido a1 a0 m0 w1 = contenido a1 a0 m0 w" by blast
  have u: "unat (v + 1) = Suc (unat v)"
    using v by (simp add: unat_word_ariths word_less_nat_alt)
  from Cons.IH [OF w1(2), of "v + 1"] Cons.prems(2) obtain w2 where w2:
    "comprobar_bytes e (v + 1) bs w1 = Ret (\<forall>i < length bs. contenido a1 a0 m0 w (Suc (unat v) + i) = bs ! i) w2"
    "conectada a1 a0 m0 w2" "contenido a1 a0 m0 w2 = contenido a1 a0 m0 w"
    unfolding u w1(3) by auto
  show ?case
  proof (cases "contenido a1 a0 m0 w (unat v) = b")
    case True
    then have "(\<forall>i < length (b # bs). contenido a1 a0 m0 w (unat v + i) = (b # bs) ! i) \<longleftrightarrow>
        (\<forall>i < length bs. contenido a1 a0 m0 w (Suc (unat v) + i) = bs ! i)"
      by (auto simp: nth_Cons' less_Suc_eq_0_disj)
    with True w1 w2 show ?thesis by (simp add: bind_apply)
  next
    case False
    then have "\<not> (\<forall>i < length (b # bs). contenido a1 a0 m0 w (unat v + i) = (b # bs) ! i)" by auto
    with False w1 show ?thesis by (simp add: bind_apply encendido [OF assms(1)])
  qed
qed simp

text \<open>What the start of the tests leaves alone.\<close>

definition callado :: "('a, 'z) hwprog \<Rightarrow> bool" where
  "callado m \<longleftrightarrow> (\<forall>w. \<exists>x w'. m w = Ret x w' \<and> i2cAck w' = i2cAck w \<and> i2cLog w' = i2cLog w \<and> hw.more w' = hw.more w)"

lemma callado_bind:
  assumes "callado (m :: ('a, 'z) hwprog)" and "\<And>x. callado (f x :: ('b, 'z) hwprog)"
  shows "callado (bind m f)"
  unfolding callado_def
proof
  fix w :: "'z hw_scheme"
  obtain x w1 where 1: "m w = Ret x w1" "i2cAck w1 = i2cAck w" "i2cLog w1 = i2cLog w" "hw.more w1 = hw.more w"
    using assms(1) unfolding callado_def by blast
  obtain y w2 where "f x w1 = Ret y w2" "i2cAck w2 = i2cAck w1" "i2cLog w2 = i2cLog w1" "hw.more w2 = hw.more w1"
    using assms(2) [of x] unfolding callado_def by blast
  with 1 show "\<exists>y w'. bind m f w = Ret y w' \<and> i2cAck w' = i2cAck w \<and> i2cLog w' = i2cLog w \<and> hw.more w' = hw.more w"
    by (simp add: bind_apply)
qed

lemma callado_ret: "callado (ret x)"
  by (simp add: callado_def)

lemma callado_modify:
  "(\<And>w. i2cAck (f w) = i2cAck w \<and> i2cLog (f w) = i2cLog w \<and> hw.more (f w) = hw.more w) \<Longrightarrow> callado (modify f)"
  by (simp add: callado_def)

lemma callado_void: "callado m \<Longrightarrow> callado (void m)"
  unfolding void_def by (intro callado_bind callado_ret)

lemma callado_for_each: "(\<And>x. x \<in> set xs \<Longrightarrow> callado (f x)) \<Longrightarrow> callado (for_each xs f)"
  by (induction xs) (auto intro: callado_ret callado_bind)

lemma callado_gpioInit:
  assumes "0 \<le> p" and "p < 46"
  shows "callado (gpioInit p c)"
proof -
  obtain a b f g h where "gpioObtainPinInit p = Some ((a, b), f, g, h)"
  proof -
    have "length gpioPinsInit = 46" by (simp add: gpioPinsInit_def)
    then have "gpioObtainPinInit p = Some (gpioPinsInit ! nat p)" using assms by (simp add: gpioObtainPinInit_def)
    with that show thesis by (metis prod.collapse)
  qed
  then show ?thesis
    using assms unfolding gpioInit_def gpioInit_in_def Chip_SCU_PinMux_def Chip_GPIO_SetDir_def Chip_GPIO_SetPinState_def
    by (auto simp: VCC_def GND_def split: gpioInit_t.splits intro!: callado_bind callado_ret callado_modify)
qed

lemma callado_boardInit: "callado boardInit"
  unfolding boardInit_def block.simps tickInit_def tickPowerSet_def
  by (auto intro!: callado_bind callado_ret callado_modify callado_void callado_for_each callado_gpioInit)

lemma preparado:
  assumes "conectada a1 a0 m0 w"
  shows "\<exists>w'. preparar w = Ret eeprom0 w' \<and> conectada a1 a0 m0 w' \<and> contenido a1 a0 m0 w' = contenido a1 a0 m0 w"
proof -
  obtain x w1 where w1: "boardInit w = Ret x w1" "i2cAck w1 = i2cAck w" "i2cLog w1 = i2cLog w" "hw.more w1 = hw.more w"
    using callado_boardInit unfolding callado_def by blast
  have "responde w1 = responde w" using w1(4) by (cases w, cases w1) simp
  with w1 assms show ?thesis
    by (simp add: preparar_def bind_apply i2cInit_def eeprom24xx1025Init_def eeprom0_def conectada_def contenido_def)
qed

lemma escribe_varios:
  assumes "fija a1 a0 e" and "conectada a1 a0 m0 w" and "unat v + length bs \<le> 131072"
  shows "\<exists>w'. escribir_bytes e v bs w = Ret True w' \<and> conectada a1 a0 m0 w' \<and>
     contenido a1 a0 m0 w' = pisar (unat v) bs (contenido a1 a0 m0 w)"
  using assms(2,3)
proof (induction bs arbitrary: v w)
  case (Cons b bs)
  have v: "v < 131072" using Cons.prems(2) by (simp add: word_less_nat_alt)
  from escribe_byte [OF assms(1) Cons.prems(1) v] obtain w1 where w1:
    "eeprom24xx1025WriteByte e v b w = Ret True w1" "conectada a1 a0 m0 w1"
    "contenido a1 a0 m0 w1 = (contenido a1 a0 m0 w)(unat v := b)" by blast
  have u: "unat (v + 1) = Suc (unat v)"
    using v by (simp add: unat_word_ariths word_less_nat_alt)
  from Cons.IH [OF w1(2), of "v + 1"] Cons.prems(2) w1(1) show ?case
    unfolding u w1(3) pisar_Cons by (auto simp: bind_apply)
qed simp

lemma pisar_leido:
  "(\<forall>i < length bs. pisar a bs m (a + i) = bs ! i)"
  by (simp add: pisar_def)

text \<open>The test of single bytes passes on every page.\<close>

lemma autoprueba_bytes:
  assumes w: "conectada False False m0 w" and p: "p < 1024" and n: "length bs \<le> 128"
  shows "\<exists>w'. eeprom24xx1025TestWriteBytes p bs w = Ret True w' \<and>
     contenido False False m0 w' = pisar (unat p * 128) bs (contenido False False m0 w)"
proof -
  have u: "unat (p * 128) = unat p * 128" using p by (simp add: unat_word_ariths word_less_nat_alt)
  have d: "unat (p * 128) + length bs \<le> 131072" using p n unfolding u by (simp add: word_less_nat_alt)
  obtain w1 where w1: "preparar w = Ret eeprom0 w1" "conectada False False m0 w1"
    "contenido False False m0 w1 = contenido False False m0 w" using preparado [OF w] by blast
  obtain w2 where w2: "escribir_bytes eeprom0 (p * 128) bs w1 = Ret True w2" "conectada False False m0 w2"
    "contenido False False m0 w2 = pisar (unat p * 128) bs (contenido False False m0 w)"
    using escribe_varios [OF fija_eeprom0 w1(2) d] unfolding w1(3) u by blast
  obtain w3 where w3: "comprobar_bytes eeprom0 (p * 128) bs w2 = Ret True w3"
    "contenido False False m0 w3 = contenido False False m0 w2"
    using comprueba [OF fija_eeprom0 w2(2) d] by (auto simp: u w2(3) pisar_leido)
  have "\<not> of_nat (length bs) > ep_pageSize eeprom0"
    using n by (simp add: eeprom0_def tamanos not_less word_le_nat_alt unat_of_nat)
  moreover have "ep_pageSize eeprom0 = 128" by (simp add: eeprom0_def tamanos)
  ultimately show ?thesis
    using w1 w2 w3 by (simp add: eeprom24xx1025TestWriteBytes_def Let_def bind_apply encendido [OF fija_eeprom0])
qed

text \<open>C39: The address of a page is computed with 16 bits. \<^verbatim>\<open>eeprom24xx1025WritePage\<close> accepts the pages from 512 to
  1023 and answers true, but stores them in the lower half, over page \<open>p - 512\<close>. So the self test of a
  page passes below 512, and from 512 on exactly when the chip already held the data.\<close>

theorem pagina_alta_perdida:
  assumes w: "conectada False False m0 w" and p: "p < 1024" and n: "length bs = 128"
  shows "\<exists>w'. eeprom24xx1025TestWritePage p bs w =
       Ret (p < 512 \<or> (\<forall>i < 128. contenido False False m0 w (unat p * 128 + i) = bs ! i)) w' \<and>
     contenido False False m0 w' = pisar (unat p * 128 mod 65536) bs (contenido False False m0 w)"
proof -
  have u: "unat (p * 128) = unat p * 128" using p by (simp add: unat_word_ariths word_less_nat_alt)
  have d: "unat (p * 128) + length bs \<le> 131072" using p n unfolding u by (simp add: word_less_nat_alt)
  obtain w1 where w1: "preparar w = Ret eeprom0 w1" "conectada False False m0 w1"
    "contenido False False m0 w1 = contenido False False m0 w" using preparado [OF w] by blast
  obtain w2 where w2: "eeprom24xx1025WritePage eeprom0 p bs w1 = Ret True w2" "conectada False False m0 w2"
    "contenido False False m0 w2 = pisar (unat p * 128 mod 65536) bs (contenido False False m0 w)"
    using escribe_pagina [OF fija_eeprom0 w1(2) p n] unfolding w1(3) by blast
  have r: "(\<forall>i < length bs. contenido False False m0 w2 (unat p * 128 + i) = bs ! i) \<longleftrightarrow>
      p < 512 \<or> (\<forall>i < 128. contenido False False m0 w (unat p * 128 + i) = bs ! i)"
  proof (cases "p < 512")
    case True
    then have "unat p * 128 mod 65536 = unat p * 128" by (simp add: word_less_nat_alt)
    with True show ?thesis by (simp add: w2(3) pisar_leido)
  next
    case False
    then have "512 \<le> unat p" "unat p < 1024" using p by (simp_all add: word_less_nat_alt)
    then have "unat p * 128 mod 65536 + 128 \<le> 65536" "65536 \<le> unat p * 128"
      by (simp_all add: mod_if) arith
    with False show ?thesis by (simp add: w2(3) pisar_def n)
  qed
  obtain w3 where w3: "comprobar_bytes eeprom0 (p * 128) bs w2 =
      Ret (p < 512 \<or> (\<forall>i < 128. contenido False False m0 w (unat p * 128 + i) = bs ! i)) w3"
    "contenido False False m0 w3 = contenido False False m0 w2"
    using comprueba [OF fija_eeprom0 w2(2) d] unfolding u r by blast
  moreover have "ep_pageSize eeprom0 = 128" by (simp add: eeprom0_def tamanos)
  ultimately show ?thesis
    using w1 w2 n by (auto simp: eeprom24xx1025TestWritePage_def bind_apply encendido [OF fija_eeprom0])
qed

theorem pagina_alta_perdida_witness:
  "\<exists>w'. eeprom24xx1025TestWritePage 600 (replicate 128 1) bus_eeprom0 = Ret False w' \<and>
     contenido False False (\<lambda>_. 0xFF) w' (600 * 128) = 0xFF \<and> contenido False False (\<lambda>_. 0xFF) w' (88 * 128) = 1"
proof -
  have f: "\<not> ((600 :: u32) < 512 \<or> (\<forall>i < 128. (0xFF :: u8) = replicate 128 1 ! i))"
  proof -
    have "\<exists>i :: nat. i < 128" by (rule exI [of _ 0]) simp
    then show ?thesis by auto
  qed
  show ?thesis
    using pagina_alta_perdida [OF bus_eeprom0(1), of 600 "replicate 128 1"] f
    unfolding bus_eeprom0(2) by (auto simp: pisar_def)
qed

text \<open>The ends of the ranges that the driver accepts.\<close>

lemma byte_fuera_de_rango:
  assumes "fija a1 a0 e" and "conectada a1 a0 m0 w"
  shows "\<exists>w'. eeprom24xx1025WriteByte e 131072 b w = Ret True w' \<and>
     contenido a1 a0 m0 w' = (contenido a1 a0 m0 w)(65536 := b)"
proof -
  have "\<not> 131072 > ep_memorySize e" using assms(1) by (simp add: fija_def tamanos)
  then show ?thesis
    using assms
    by (simp add: eeprom24xx1025WriteByte_def direccion [OF assms(1)] i2cWrite_def fija_def delayInaccurateMs_def busy_def
        bind_apply conectada_def contenido_def memoria_def selecciona_control palabra_dir bloque_control)
qed

lemma lectura_de_media_memoria:
  assumes "fija a1 a0 e" and "conectada a1 a0 m0 w"
  shows "\<exists>w'. eeprom24xx1025ReadSequential e v 65536 w = Ret (True, []) w'"
proof -
  have "\<not> 65536 > div_int32 (ep_memorySize e) 2" using assms(1) by (simp add: fija_def tamanos)
  then show ?thesis
    using assms
    by (simp add: eeprom24xx1025ReadSequential_def direccion [OF assms(1)] i2cWriteRead_def fija_def recibidos_def
        bind_apply conectada_def)
qed

end
