(* ===== verification/Sapi_Dht11.thy ===== *)
theory Sapi_Dht11
  imports Sapi
begin

text \<open>
  The driver of the DHT11 humidity and temperature sensor of sAPI (\<^verbatim>\<open>sapi_dht11.c\<close>), which
  the lock does not call. The sensor answers on one wire with 82 intervals: two that
  announce the answer and a low and a high one for every bit of five bytes. The driver measures
  each interval in samples of the pin and compares them.

  The conversion of the bytes to \<^verbatim>\<open>float\<close> at the end of \<^verbatim>\<open>dht11Read\<close> and \<^verbatim>\<open>format\<close>, which nobody calls,
  are left out: a successful reading is the list of its bytes.
\<close>

section \<open>The driver\<close>

record dht = hw +
  dht11Pin :: gpioMap_t
  dht11_ticks_array :: "u32 list"
  dht11_byte :: "u8 list"
  dht11_timeout :: u32
  dht11_timeout_max :: u32

type_synonym ('a, 'z) dhtprog = "('a, 'z dht_scheme) prog"

definition DHT11_TIMEOUT_MAX :: u32 where "DHT11_TIMEOUT_MAX = 1000"
definition DHT11_LEN_dht11_ticks_array :: nat where "DHT11_LEN_dht11_ticks_array = 82"
definition DHT11_LEN_dht11_byte :: nat where "DHT11_LEN_dht11_byte = 5"

datatype dht11_state_e = Dht_start | Dht_low | Dht_high | Dht_timeout | Dht_error | Dht_end

definition dht11_GPIO_Low :: "(unit, 'z) dhtprog" where
  "dht11_GPIO_Low = bind (gets dht11Pin) (\<lambda>p. block [void (gpioInit p GPIO_OUTPUT), void (gpioWrite p False)])"

definition dht11_GPIO_High :: "(unit, 'z) dhtprog" where
  "dht11_GPIO_High = bind (gets dht11Pin) (\<lambda>p. void (gpioInit p GPIO_INPUT_PULLUP))"

definition dht11_GPIO_Read :: "(bool, 'z) dhtprog" where
  "dht11_GPIO_Read = bind (gets dht11Pin) gpioRead"

definition dht11_TimeOutReset :: "u32 \<Rightarrow> (unit, 'z) dhtprog" where
  "dht11_TimeOutReset mx = modify (\<lambda>w.
     let m = (if 0 < mx then mx else DHT11_TIMEOUT_MAX) in w\<lparr>dht11_timeout_max := m, dht11_timeout := m\<rparr>)"

definition dht11_TimeOutCheck :: "(bool, 'z) dhtprog" where
  "dht11_TimeOutCheck =
     bind (gets dht11_timeout) (\<lambda>t.
     if 0 < t then bind (modify (\<lambda>w. w\<lparr>dht11_timeout := t - 1\<rparr>)) (\<lambda>_. ret True)
     else bind (dht11_TimeOutReset 0) (\<lambda>_. ret False))"

text \<open>\<^verbatim>\<open>dht11_ticks_array[n_bit] = n_tick\<close>.\<close>

definition dht_store :: "nat \<Rightarrow> u32 \<Rightarrow> (unit, 'z) dhtprog" where
  "dht_store n_bit n_tick = bind (gets dht11_ticks_array) (\<lambda>a.
     if n_bit < length a then modify (\<lambda>w. w\<lparr>dht11_ticks_array := a[n_bit := n_tick]\<rparr>)
     else fault BufferOverflow)"

text \<open>The three inner loops. Each ends with the next state; the two that measure also with \<^verbatim>\<open>n_tick\<close> and \<^verbatim>\<open>n_bit\<close>.\<close>

definition dht_esperar_start :: "(dht11_state_e, 'z) dhtprog" where
  "dht_esperar_start = loop (\<lambda>_.
     bind dht11_GPIO_Read (\<lambda>v.
     let state = (if \<not> v then Dht_low else Dht_start) in
     bind dht11_TimeOutCheck (\<lambda>ok.
     let state = (if \<not> ok then Dht_timeout else state) in
     ret (if state = Dht_start then Inl () else Inr state)))) ()"

definition dht_medir ::
  "dht11_state_e \<Rightarrow> bool \<Rightarrow> dht11_state_e \<Rightarrow> u32 \<Rightarrow> nat \<Rightarrow> (dht11_state_e \<times> u32 \<times> nat, 'z) dhtprog" where
  "dht_medir actual nivel siguiente n_tick n_bit = loop (\<lambda>(n_tick, n_bit).
     let n_tick = n_tick + 1 in
     bind dht11_GPIO_Read (\<lambda>v.
     bind (if v = nivel then
             bind (dht_store n_bit n_tick) (\<lambda>_. ret (siguiente, 0, n_bit + 1))
           else ret (actual, n_tick, n_bit)) (\<lambda>(state, n_tick, n_bit).
     bind dht11_TimeOutCheck (\<lambda>ok.
     let state = (if \<not> ok then Dht_timeout else state) in
     ret (if state = actual then Inl (n_tick, n_bit) else Inr (state, n_tick, n_bit)))))) (n_tick, n_bit)"

text \<open>One round of the outer loop. The flags for an error and a time-out are written and not read.\<close>

definition dht_vuelta ::
  "dht11_state_e \<times> u32 \<times> nat \<Rightarrow> ((dht11_state_e \<times> u32 \<times> nat) + nat, 'z) dhtprog" where
  "dht_vuelta = (\<lambda>(state, n_tick, n_bit).
     bind (case state of
         Dht_start \<Rightarrow>
           bind (dht11_TimeOutReset DHT11_TIMEOUT_MAX) (\<lambda>_.
           bind dht_esperar_start (\<lambda>s. ret (False, s, n_tick, n_bit)))
       | Dht_low \<Rightarrow>
           bind (dht11_TimeOutReset 0) (\<lambda>_.
           bind (dht_medir Dht_low True Dht_high n_tick n_bit) (\<lambda>r. ret (False, r)))
       | Dht_high \<Rightarrow>
           bind (dht11_TimeOutReset 0) (\<lambda>_.
           bind (dht_medir Dht_high False Dht_low n_tick n_bit) (\<lambda>r. ret (False, r)))
       | Dht_timeout \<Rightarrow> ret (False, Dht_end, n_tick, n_bit)
       | Dht_end \<Rightarrow> ret (True, Dht_end, n_tick, n_bit)
       | Dht_error \<Rightarrow> ret (False, Dht_end, n_tick, n_bit)) (\<lambda>(flag_loop_end, state, n_tick, n_bit).
     let state = (if DHT11_LEN_dht11_ticks_array \<le> n_bit then Dht_end else state) in
     ret (if flag_loop_end then Inr n_bit else Inl (state, n_tick, n_bit))))"

text \<open>
  Every round looks at the pin but the last two, so the length of the script and three bounds the rounds
  (lemma \<open>safe_StartRead\<close>).
\<close>

definition dht11_StartRead :: "(bool, 'z) dhtprog" where
  "dht11_StartRead =
     bind (block [dht11_GPIO_Low, delayInaccurateMs 20, dht11_GPIO_High]) (\<lambda>_.
     bind (gets (\<lambda>w. length (script w))) (\<lambda>n.
     bind (iter (n + 3) dht_vuelta (Dht_start, 0, 0)) (\<lambda>n_bit.
     ret (n_bit = 82))))"

text \<open>The bits of one byte: pairs of intervals from index \<open>i\<close> on.\<close>

primrec dht_bits :: "nat \<Rightarrow> u32 list \<Rightarrow> nat \<Rightarrow> u8 \<Rightarrow> u8" where
  "dht_bits 0 a i b = b"
| "dht_bits (Suc n) a i b =
     dht_bits n a (i + 2) (if a ! (i + 1) < a ! i then push_bit 1 b else push_bit 1 b OR 0x01)"

definition dht11_ProcessData :: "(bool, 'z) dhtprog" where
  "dht11_ProcessData =
     bind (gets dht11_ticks_array) (\<lambda>a.
     if \<exists>i \<in> set [2..<81]. a ! 0 \<le> a ! i \<or> a ! 1 \<le> a ! i then ret False
     else
       let bs = map (\<lambda>j. dht_bits 8 a (2 + 16 * j) 0) [0..<DHT11_LEN_dht11_byte] in
       bind (modify (\<lambda>w. w\<lparr>dht11_byte := bs\<rparr>)) (\<lambda>_.
       ret (bs ! 0 + bs ! 1 + bs ! 2 + bs ! 3 = bs ! 4)))"

definition dht11Init :: "gpioMap_t \<Rightarrow> (unit, 'z) dhtprog" where
  "dht11Init gpio = block [modify (\<lambda>w. w\<lparr>dht11Pin := gpio\<rparr>), dht11_GPIO_High]"

definition dht11Read :: "(u8 list option, 'z) dhtprog" where
  "dht11Read =
     bind dht11_StartRead (\<lambda>r.
     if r then
       bind dht11_ProcessData (\<lambda>ok. if ok then bind (gets dht11_byte) (\<lambda>bs. ret (Some bs)) else ret None)
     else ret None)"

section \<open>Measuring\<close>

text \<open>What the wire shows at one look at the pin.\<close>

definition muestra :: "bool \<Rightarrow> ev list" where
  "muestra v = [Wire (\<lambda>_ _. v)]"

text \<open>The memory while the driver measures: the pin, the array and the clock of the time limit.\<close>

definition midiendo :: "u32 list \<Rightarrow> nat \<Rightarrow> ev list list \<Rightarrow> 'z dht_scheme \<Rightarrow> bool" where
  "midiendo a t sc w \<longleftrightarrow> 0 \<le> dht11Pin w \<and> dht11Pin w < 46 \<and> dht11_ticks_array w = a \<and>
     unat (dht11_timeout w) = t \<and> script w = sc"

lemma lee_muestra:
  assumes "midiendo a t (muestra v # sc) w"
  shows "\<exists>w'. dht11_GPIO_Read w = Ret v w' \<and> midiendo a t sc w'"
proof -
  have "length gpioPinsInit = 46" by (simp add: gpioPinsInit_def)
  then have "gpioObtainPinInit (dht11Pin w) = Some (gpioPinsInit ! nat (dht11Pin w))"
    using assms by (auto simp: midiendo_def gpioObtainPinInit_def)
  then obtain x y g h where "gpioObtainPinInit (dht11Pin w) = Some (x, y, g, h)"
    by (metis prod.collapse)
  then show ?thesis
    using assms by (simp add: dht11_GPIO_Read_def gpioRead_def midiendo_def VCC_def GND_def Chip_GPIO_GetPinState_def
        bind_apply poll_def muestra_def)
qed

lemma revisa_plazo:
  "midiendo a (Suc t) sc w \<Longrightarrow> \<exists>w'. dht11_TimeOutCheck w = Ret True w' \<and> midiendo a t sc w'"
  by (auto simp: dht11_TimeOutCheck_def midiendo_def bind_apply word_less_nat_alt unat_sub_if')

lemma guarda_intervalo:
  "midiendo a t sc w \<Longrightarrow> n < length a \<Longrightarrow>
     \<exists>w'. dht_store n x w = Ret () w' \<and> midiendo (a[n := x]) t sc w'"
  by (simp add: dht_store_def midiendo_def bind_apply)

lemma espera:
  assumes "midiendo a t (replicate n (muestra True) @ muestra False # sc) w" and "n < t"
  shows "\<exists>w' t'. dht_esperar_start w = Ret Dht_low w' \<and> midiendo a t' sc w'"
proof -
  let ?body = "\<lambda>_. bind dht11_GPIO_Read (\<lambda>v.
     let state = (if \<not> v then Dht_low else Dht_start) in
     bind dht11_TimeOutCheck (\<lambda>ok.
     let state = (if \<not> ok then Dht_timeout else state) in
     ret (if state = Dht_start then Inl () else Inr state)))"
  have "\<exists>w' t'. iter m ?body () w = Ret Dht_low w' \<and> midiendo a t' sc w'" if "n < m" for m
    using assms that
  proof (induction n arbitrary: m t w)
    case 0
    then obtain t' m' where tm: "t = Suc t'" "m = Suc m'" by (metis gr0_implies_Suc)
    obtain w1 where w1: "dht11_GPIO_Read w = Ret False w1" "midiendo a (Suc t') sc w1"
      using lee_muestra 0(1) unfolding tm by force
    obtain w2 where "dht11_TimeOutCheck w1 = Ret True w2" "midiendo a t' sc w2"
      using revisa_plazo [OF w1(2)] by blast
    with w1 show ?case by (auto simp: tm iter.simps bind_apply Let_def)
  next
    case (Suc n)
    then obtain t' m' where tm: "t = Suc t'" "m = Suc m'" by (cases t; cases m) auto
    obtain w1 where w1: "dht11_GPIO_Read w = Ret True w1"
      "midiendo a (Suc t') (replicate n (muestra True) @ muestra False # sc) w1"
      using lee_muestra Suc.prems(1) unfolding tm by force
    obtain w2 where w2: "dht11_TimeOutCheck w1 = Ret True w2"
      "midiendo a t' (replicate n (muestra True) @ muestra False # sc) w2"
      using revisa_plazo [OF w1(2)] by blast
    from Suc.IH [OF w2(2), of m'] Suc.prems(2,3) w1(1) w2(1) show ?case
      by (auto simp: tm iter.simps bind_apply Let_def)
  qed
  moreover have "n < Suc (length (script w))" using assms(1) by (simp add: midiendo_def)
  ultimately show ?thesis unfolding dht_esperar_start_def loop_def by blast
qed

lemma mide:
  assumes "midiendo a t (replicate n (muestra (\<not> v)) @ muestra v # sc) w" and "n < t" and "nb < length a"
    and "sig \<noteq> act"
  shows "\<exists>w' t'. dht_medir act v sig nt nb w = Ret (sig, 0, Suc nb) w' \<and>
     midiendo (a[nb := nt + of_nat (Suc n)]) t' sc w'"
proof -
  let ?body = "\<lambda>(n_tick, n_bit).
     let n_tick = n_tick + 1 in
     bind dht11_GPIO_Read (\<lambda>x.
     bind (if x = v then
             bind (dht_store n_bit n_tick) (\<lambda>_. ret (sig, 0, n_bit + 1))
           else ret (act, n_tick, n_bit)) (\<lambda>(state, n_tick, n_bit).
     bind dht11_TimeOutCheck (\<lambda>ok.
     let state = (if \<not> ok then Dht_timeout else state) in
     ret (if state = act then Inl (n_tick, n_bit) else Inr (state, n_tick, n_bit)))))"
  have "\<exists>w' t'. iter m ?body (nt, nb) w = Ret (sig, 0, Suc nb) w' \<and> midiendo (a[nb := nt + of_nat (Suc n)]) t' sc w'"
    if "n < m" for m
    using assms(1,2) that
  proof (induction n arbitrary: m t w nt)
    case 0
    then obtain t' m' where tm: "t = Suc t'" "m = Suc m'" by (metis gr0_implies_Suc)
    obtain w1 where w1: "dht11_GPIO_Read w = Ret v w1" "midiendo a (Suc t') sc w1"
      using lee_muestra 0(1) unfolding tm by force
    obtain w2 where w2: "dht_store nb (nt + 1) w1 = Ret () w2" "midiendo (a[nb := nt + 1]) (Suc t') sc w2"
      using guarda_intervalo [OF w1(2) assms(3)] by blast
    obtain w3 where "dht11_TimeOutCheck w2 = Ret True w3" "midiendo (a[nb := nt + 1]) t' sc w3"
      using revisa_plazo [OF w2(2)] by blast
    with w1 w2 assms(4) show ?case by (auto simp: tm iter.simps bind_apply Let_def)
  next
    case (Suc n)
    then obtain t' m' where tm: "t = Suc t'" "m = Suc m'" by (cases t; cases m) auto
    obtain w1 where w1: "dht11_GPIO_Read w = Ret (\<not> v) w1"
      "midiendo a (Suc t') (replicate n (muestra (\<not> v)) @ muestra v # sc) w1"
      using lee_muestra Suc.prems(1) unfolding tm by force
    obtain w2 where w2: "dht11_TimeOutCheck w1 = Ret True w2"
      "midiendo a t' (replicate n (muestra (\<not> v)) @ muestra v # sc) w2"
      using revisa_plazo [OF w1(2)] by blast
    from Suc.IH [OF w2(2), of m' "nt + 1"] Suc.prems(2,3) w1(1) w2(1) show ?case
      by (auto simp: tm iter.simps bind_apply Let_def add.assoc)
  qed
  moreover have "n < Suc (length (script w))" using assms(1) by (simp add: midiendo_def)
  ultimately show ?thesis unfolding dht_medir_def loop_def by blast
qed

text \<open>A signal: intervals of so many samples, alternating from level \<open>v\<close>, and one sample of the next level.\<close>

primrec senal :: "bool \<Rightarrow> nat list \<Rightarrow> ev list list" where
  "senal v [] = [muestra v]"
| "senal v (n # ns) = replicate n (muestra v) @ senal (\<not> v) ns"

definition estado_nivel :: "bool \<Rightarrow> dht11_state_e" where
  "estado_nivel v = (if v then Dht_high else Dht_low)"

lemma plazo_nuevo: "\<exists>w'. dht11_TimeOutReset 0 w = Ret () w' \<and> (midiendo a t sc w \<longrightarrow> midiendo a 1000 sc w')"
  by (simp add: dht11_TimeOutReset_def midiendo_def DHT11_TIMEOUT_MAX_def)

lemma plazo_inicial:
  "\<exists>w'. dht11_TimeOutReset DHT11_TIMEOUT_MAX w = Ret () w' \<and> (midiendo a t sc w \<longrightarrow> midiendo a 1000 sc w')"
  by (simp add: dht11_TimeOutReset_def midiendo_def DHT11_TIMEOUT_MAX_def)

lemma vuelta_mide:
  assumes "midiendo a t (replicate n (muestra v) @ muestra (\<not> v) # sc) w" and "n < 1000" and "nb < length a"
  shows "\<exists>w' t'. dht_vuelta (estado_nivel v, nt, nb) w =
       Ret (Inl (if 82 \<le> Suc nb then Dht_end else estado_nivel (\<not> v), 0, Suc nb)) w' \<and>
     midiendo (a[nb := nt + of_nat (Suc n)]) t' sc w'"
proof -
  obtain w1 where w1: "dht11_TimeOutReset 0 w = Ret () w1"
    "midiendo a 1000 (replicate n (muestra (\<not> \<not> v)) @ muestra (\<not> v) # sc) w1"
    using plazo_nuevo assms(1) by fastforce
  have "estado_nivel (\<not> v) \<noteq> estado_nivel v" by (simp add: estado_nivel_def)
  from mide [OF w1(2) assms(2,3) this, of nt] w1(1) show ?thesis
    by (cases v) (auto simp: dht_vuelta_def estado_nivel_def bind_apply DHT11_LEN_dht11_ticks_array_def)
qed

lemma vueltas:
  assumes "list_all (\<lambda>n. 0 < n \<and> n \<le> 1000) r" and "r \<noteq> []" and "nb + length r = 82" and "length a = 82"
    and "midiendo a t (tl (senal v r) @ sc) w" and "length r < m"
  shows "\<exists>w' t'. iter m dht_vuelta (estado_nivel v, 0, nb) w = Ret 82 w' \<and>
     midiendo (take nb a @ map of_nat r) t' sc w'"
  using assms
proof (induction r arbitrary: nb a t v w m)
  case (Cons n r)
  obtain k where k: "n = Suc k" using Cons.prems(1) by (cases n) auto
  obtain m' where m: "m = Suc m'" using Cons.prems(6) by (cases m) auto
  obtain sc' where sc': "senal (\<not> v) r = muestra (\<not> v) # sc'" "tl (senal (\<not> v) r) = sc'"
  proof (cases r)
    case (Cons n' r')
    then show thesis using that Cons.prems(1) by (cases n') auto
  qed (use that in simp)
  have w: "midiendo a t (replicate k (muestra v) @ muestra (\<not> v) # (sc' @ sc)) w"
    using Cons.prems(5) by (simp add: k sc')
  obtain w1 t1 where w1: "dht_vuelta (estado_nivel v, 0, nb) w =
      Ret (Inl (if 82 \<le> Suc nb then Dht_end else estado_nivel (\<not> v), 0, Suc nb)) w1"
    "midiendo (a[nb := of_nat n]) t1 (sc' @ sc) w1"
    using vuelta_mide [OF w, of nb 0] Cons.prems(1,3,4) by (auto simp: k)
  have tk: "take (Suc nb) (a[nb := x]) = take nb a @ [x]" for x
    using Cons.prems(3,4) by (simp add: take_Suc_conv_app_nth)
  show ?case
  proof (cases "r = []")
    case True
    then obtain m'' where "m' = Suc m''" using Cons.prems(6) m by (cases m') auto
    moreover have "nb = 81" using Cons.prems(3) True by simp
    moreover have "a[81 := x] = take 81 a @ [x]" for x
      using tk [of x] Cons.prems(4) \<open>nb = 81\<close> by simp
    moreover have "sc' = []" using sc'(1) True by simp
    ultimately show ?thesis
      using w1 True by (auto simp: m iter.simps bind_apply dht_vuelta_def DHT11_LEN_dht11_ticks_array_def)
  next
    case False
    then have n: "\<not> 82 \<le> Suc nb" using Cons.prems(3) by (cases r) auto
    have "\<exists>w' t'. iter m' dht_vuelta (estado_nivel (\<not> v), 0, Suc nb) w1 = Ret 82 w' \<and>
        midiendo (take (Suc nb) (a[nb := of_nat n]) @ map of_nat r) t' sc w'"
      by (rule Cons.IH) (use Cons.prems False w1(2) sc'(2) m in auto)
    with w1(1) n show ?thesis by (simp add: tk m iter.simps bind_apply)
  qed
qed simp

section \<open>The whole reading\<close>

lemma pin_dht:
  assumes "0 \<le> p" and "p < 46"
  shows "\<exists>w'. gpioInit p GPIO_OUTPUT w = Ret True w' \<and> script w' = script w \<and> hw.more w' = hw.more w"
    and "\<exists>w'. gpioInit p GPIO_INPUT_PULLUP w = Ret True w' \<and> script w' = script w \<and> hw.more w' = hw.more w"
    and "\<exists>w'. gpioWrite p v w = Ret True w' \<and> script w' = script w \<and> hw.more w' = hw.more w"
proof -
  have "length gpioPinsInit = 46" by (simp add: gpioPinsInit_def)
  then have "gpioObtainPinInit p = Some (gpioPinsInit ! nat p)" using assms by (auto simp: gpioObtainPinInit_def)
  then obtain a b f g h where e: "gpioObtainPinInit p = Some ((a, b), f, g, h)" by (metis prod.collapse)
  have n: "p \<noteq> VCC" "p \<noteq> GND" using assms by (simp_all add: VCC_def GND_def)
  note d = gpioInit_def gpioInit_in_def gpioWrite_def Chip_SCU_PinMux_def Chip_GPIO_SetDir_def Chip_GPIO_SetPinState_def
  show "\<exists>w'. gpioInit p GPIO_OUTPUT w = Ret True w' \<and> script w' = script w \<and> hw.more w' = hw.more w"
    by (simp add: d e n bind_apply)
  show "\<exists>w'. gpioInit p GPIO_INPUT_PULLUP w = Ret True w' \<and> script w' = script w \<and> hw.more w' = hw.more w"
    by (simp add: d e n bind_apply)
  show "\<exists>w'. gpioWrite p v w = Ret True w' \<and> script w' = script w \<and> hw.more w' = hw.more w"
    by (simp add: d e n bind_apply)
qed

lemma midiendo_more:
  assumes "script w' = script w" and "hw.more w' = hw.more w"
  shows "midiendo a t sc w' = midiendo a t sc w" and "dht11Pin w' = dht11Pin w"
  using assms by (cases w, cases w', simp add: midiendo_def)+

lemma pedido:
  assumes "midiendo a t sc w"
  shows "\<exists>w'. block [dht11_GPIO_Low, delayInaccurateMs 20, dht11_GPIO_High] w = Ret () w' \<and> midiendo a t sc w'"
proof -
  define p where "p = dht11Pin w"
  have p: "0 \<le> p" "p < 46" using assms by (simp_all add: midiendo_def p_def)
  obtain w1 where w1: "gpioInit p GPIO_OUTPUT w = Ret True w1" "midiendo a t sc w1" "dht11Pin w1 = p"
    using pin_dht(1) [OF p] midiendo_more assms p_def by metis
  obtain w2 where w2: "gpioWrite p False w1 = Ret True w2" "midiendo a t sc w2" "dht11Pin w2 = p"
    using pin_dht(3) [OF p] midiendo_more w1 by metis
  let ?w3 = "w2\<lparr>gpioLog := Busy (INACCURATE_TO_MS * 20) # gpioLog w2\<rparr>"
  have w3: "midiendo a t sc ?w3" "dht11Pin ?w3 = p" using w2 by (simp_all add: midiendo_def)
  obtain w4 where "gpioInit p GPIO_INPUT_PULLUP ?w3 = Ret True w4" "midiendo a t sc w4"
    using pin_dht(2) [OF p] midiendo_more w3 by metis
  with w1 w2 w3 show ?thesis
    by (simp add: dht11_GPIO_Low_def dht11_GPIO_High_def delayInaccurateMs_def busy_def void_def bind_apply p_def [symmetric])
qed

lemma largo_senal: "list_all (\<lambda>n. 0 < n \<and> n \<le> 1000) r \<Longrightarrow> length r < length (senal v r @ sc)"
proof (induction r arbitrary: v)
  case (Cons n r)
  from Cons.IH [of "\<not> v"] Cons.prems show ?case by auto
qed simp

lemma lee_intervalos:
  assumes r: "list_all (\<lambda>n. 0 < n \<and> n \<le> 1000) r" "length r = 82" and a: "length a = 82" and k: "k < 1000"
    and w: "midiendo a t (replicate k (muestra True) @ senal False r @ sc) w"
  shows "\<exists>w' t'. dht11_StartRead w = Ret True w' \<and> midiendo (map of_nat r) t' sc w'"
proof -
  obtain w1 where w1: "block [dht11_GPIO_Low, delayInaccurateMs 20, dht11_GPIO_High] w = Ret () w1"
    "midiendo a t (replicate k (muestra True) @ senal False r @ sc) w1"
    using pedido [OF w] by blast
  define n where "n = length (script w1)"
  have "script w1 = replicate k (muestra True) @ senal False r @ sc" using w1(2) by (simp add: midiendo_def)
  then have n: "82 < n" using largo_senal [OF r(1), of False sc] r(2) by (simp add: n_def)
  obtain w2 where w2: "dht11_TimeOutReset DHT11_TIMEOUT_MAX w1 = Ret () w2"
    "midiendo a 1000 (replicate k (muestra True) @ senal False r @ sc) w2"
    using plazo_inicial w1(2) by blast
  have ne: "r \<noteq> []" using r(2) by auto
  have s: "senal False r @ sc = muestra False # (tl (senal False r) @ sc)"
    using r by (cases r; cases "hd r") auto
  obtain w3 t3 where w3: "dht_esperar_start w2 = Ret Dht_low w3" "midiendo a t3 (tl (senal False r) @ sc) w3"
    using espera [OF w2(2) [unfolded s] k] by blast
  have v: "dht_vuelta (Dht_start, 0, 0) w1 = Ret (Inl (estado_nivel False, 0, 0)) w3"
    using w2(1) w3(1) by (simp add: dht_vuelta_def bind_apply estado_nivel_def DHT11_LEN_dht11_ticks_array_def)
  obtain w4 t4 where w4: "iter (n + 2) dht_vuelta (estado_nivel False, 0, 0) w3 = Ret 82 w4"
    "midiendo (map of_nat r) t4 sc w4"
    using vueltas [OF r(1) ne _ a w3(2), of 0 "n + 2"] r(2) n by auto
  have "iter (n + 3) dht_vuelta (Dht_start, 0, 0) w1 = Ret 82 w4"
    using v w4(1) by (simp add: iter.simps bind_apply numeral_3_eq_3)
  with w1(1) w4(2) show ?thesis
    unfolding dht11_StartRead_def bind_Ret [where m = "block _", OF w1(1)]
    by (auto simp: bind_apply n_def)
qed

text \<open>The bits.\<close>

lemma un_bit_mas:
  "(if bit b n then push_bit 1 (drop_bit (Suc n) b) OR 1 else push_bit 1 (drop_bit (Suc n) b)) = drop_bit n (b :: u8)"
proof (rule bit_eqI)
  fix i
  assume "possible_bit TYPE(u8) i"
  then show "bit (if bit b n then push_bit 1 (drop_bit (Suc n) b) OR 1 else push_bit 1 (drop_bit (Suc n) b)) i =
      bit (drop_bit n b) i"
    by (cases i) (auto simp: bit_simps simp del: push_bit_Suc One_nat_def dest: bit_imp_le_length)
qed

lemma dht_bits_n:
  assumes "\<forall>i < n. (\<not> a ! (s + 2 * i + 1) < a ! (s + 2 * i)) = bit b (n - 1 - i)" and "c = drop_bit n b"
  shows "dht_bits n a s c = b"
  using assms
proof (induction n arbitrary: s c)
  case (Suc n)
  have "(\<not> a ! (s + 1) < a ! s) = bit b n" using Suc.prems(1) [rule_format, of 0] by simp
  then have c: "(if a ! (s + 1) < a ! s then push_bit 1 c else push_bit 1 c OR 0x01) = drop_bit n b"
    using un_bit_mas [of b n] by (cases "bit b n") (simp_all add: Suc.prems(2) del: push_bit_Suc One_nat_def)
  have "\<forall>i < n. (\<not> a ! (s + 2 + 2 * i + 1) < a ! (s + 2 + 2 * i)) = bit b (n - 1 - i)"
  proof (intro allI impI)
    fix i assume "i < n"
    then show "(\<not> a ! (s + 2 + 2 * i + 1) < a ! (s + 2 + 2 * i)) = bit b (n - 1 - i)"
      using Suc.prems(1) [rule_format, of "Suc i"] by (simp add: add.commute add.left_commute)
  qed
  from Suc.IH [OF this c] show ?case by simp
qed simp

lemma dht_bits_8:
  assumes "\<forall>i < 8. (\<not> a ! (s + 2 * i + 1) < a ! (s + 2 * i)) = bit (b :: u8) (7 - i)"
  shows "dht_bits 8 a s 0 = b"
proof (rule dht_bits_n)
  show "0 = drop_bit 8 b" by (rule bit_eqI) (auto simp: bit_simps dest: bit_imp_le_length)
qed (use assms in simp)

text \<open>
  The intervals \<open>r\<close> transmit five bytes: none takes a thousand samples, the first two are longer than all that
  follow, and the high interval of a bit is at least as long as its low one exactly when the bit is set.
\<close>

definition transmite :: "nat list \<Rightarrow> u8 list \<Rightarrow> bool" where
  "transmite r bs \<longleftrightarrow> length r = 82 \<and> length bs = 5 \<and> list_all (\<lambda>n. 0 < n \<and> n \<le> 1000) r \<and>
     (\<forall>i \<in> set [2..<82]. r ! i < r ! 0 \<and> r ! i < r ! 1) \<and>
     (\<forall>j \<in> set [0..<5]. \<forall>i \<in> set [0..<8].
        (r ! (2 + 16 * j + 2 * i) \<le> r ! (2 + 16 * j + 2 * i + 1)) = bit (bs ! j) (7 - i))"

lemma menor_intervalo:
  assumes "list_all (\<lambda>n. 0 < n \<and> n \<le> 1000) r" and "i < length r" and "j < length r"
  shows "(map of_nat r ! i :: u32) < map of_nat r ! j \<longleftrightarrow> r ! i < r ! j"
proof -
  have "r ! i \<le> 1000" "r ! j \<le> 1000" using assms by (auto simp: list_all_length)
  then show ?thesis using assms(2,3) by (simp add: word_less_nat_alt unat_of_nat)
qed

lemma procesa:
  assumes "transmite r bs" and "dht11_ticks_array w = map of_nat r"
  shows "\<exists>w'. dht11_ProcessData w = Ret (bs ! 0 + bs ! 1 + bs ! 2 + bs ! 3 = bs ! 4) w' \<and> dht11_byte w' = bs"
proof -
  note t = assms(1) [unfolded transmite_def]
  have less: "(map of_nat r ! i :: u32) < map of_nat r ! j \<longleftrightarrow> r ! i < r ! j" if "i < 82" "j < 82" for i j
    by (rule menor_intervalo) (use t that in auto)
  have c: "\<not> (\<exists>i \<in> set [2..<81]. (map of_nat r ! 0 :: u32) \<le> map of_nat r ! i \<or> map of_nat r ! 1 \<le> (map of_nat r ! i :: u32))"
  proof (rule notI, elim bexE)
    fix i assume i: "i \<in> set [2..<81]"
      and l: "(map of_nat r ! 0 :: u32) \<le> map of_nat r ! i \<or> map of_nat r ! 1 \<le> (map of_nat r ! i :: u32)"
    from i have i: "i < 82" "i \<in> set [2..<82]" unfolding set_upt by simp_all
    from t i(2) have "r ! i < r ! 0" "r ! i < r ! 1" by blast+
    then have "(map of_nat r ! i :: u32) < map of_nat r ! 0" "(map of_nat r ! i :: u32) < map of_nat r ! 1"
      using less [OF i(1), of 0] less [OF i(1), of 1] by simp_all
    with l show False by (simp add: not_le [symmetric])
  qed
  have b: "dht_bits 8 (map of_nat r) (2 + 16 * j) 0 = bs ! j" if "j < 5" for j
  proof (rule dht_bits_8, intro allI impI)
    fix i :: nat assume "i < 8"
    then have lt: "2 + 16 * j + 2 * i + 1 < 82" "2 + 16 * j + 2 * i < 82" using that by simp_all
    have "j \<in> set [0..<5]" "i \<in> set [0..<8]" using that \<open>i < 8\<close> unfolding set_upt by simp_all
    then have bit_i: "(r ! (2 + 16 * j + 2 * i) \<le> r ! (2 + 16 * j + 2 * i + 1)) = bit (bs ! j) (7 - i)"
      using t by blast
    from lt have "(map of_nat r ! (2 + 16 * j + 2 * i + 1) :: u32) < map of_nat r ! (2 + 16 * j + 2 * i) \<longleftrightarrow>
        r ! (2 + 16 * j + 2 * i + 1) < r ! (2 + 16 * j + 2 * i)" by (rule less)
    then show "(\<not> (map of_nat r ! (2 + 16 * j + 2 * i + 1) :: u32) < map of_nat r ! (2 + 16 * j + 2 * i)) =
        bit (bs ! j) (7 - i)"
      using bit_i by (simp add: not_less)
  qed
  have "map (\<lambda>j. dht_bits 8 (map of_nat r) (2 + 16 * j) 0) [0..<5] = map ((!) bs) [0..<5]"
    by (rule map_cong [OF refl], rule b, unfold set_upt, simp)
  also have "\<dots> = bs" using t map_nth [of bs] by simp
  finally have e: "map (\<lambda>j. dht_bits 8 (map of_nat r) (2 + 16 * j) 0) [0..<5] = bs" .
  show ?thesis
    unfolding dht11_ProcessData_def bind_gets assms(2) if_not_P [OF c] Let_def DHT11_LEN_dht11_byte_def e bind_modify
    by simp
qed

text \<open>C37: The driver reads what the sensor sends. If the line is high for less than a thousand samples and then
  has the intervals of five bytes, \<^verbatim>\<open>dht11Read\<close> succeeds exactly when the fifth byte is the sum of the
  others, and then the bytes are those transmitted. The lengths of the intervals may vary from bit to bit.\<close>

theorem dht11_lee_lo_enviado:
  assumes "transmite r bs" and "0 \<le> dht11Pin w" and "dht11Pin w < 46" and "length (dht11_ticks_array w) = 82"
    and "script w = replicate k (muestra True) @ senal False r @ sc" and "k < 1000"
  shows "\<exists>w'. dht11Read w = Ret (if bs ! 0 + bs ! 1 + bs ! 2 + bs ! 3 = bs ! 4 then Some bs else None) w'"
proof -
  have r: "list_all (\<lambda>n. 0 < n \<and> n \<le> 1000) r" "length r = 82" using assms(1) by (simp_all add: transmite_def)
  have "midiendo (dht11_ticks_array w) (unat (dht11_timeout w)) (replicate k (muestra True) @ senal False r @ sc) w"
    using assms by (simp add: midiendo_def)
  from lee_intervalos [OF r assms(4,6) this] obtain w1 t where w1: "dht11_StartRead w = Ret True w1"
    "midiendo (map of_nat r) t sc w1" by blast
  obtain w2 where "dht11_ProcessData w1 = Ret (bs ! 0 + bs ! 1 + bs ! 2 + bs ! 3 = bs ! 4) w2" "dht11_byte w2 = bs"
    using procesa [OF assms(1)] w1(2) by (auto simp: midiendo_def)
  with w1(1) show ?thesis by (simp add: dht11Read_def bind_apply)
qed

definition senal_ejemplo :: "nat list" where
  "senal_ejemplo = [90, 90] @ concat (map (\<lambda>b. concat (map (\<lambda>i. [50, if bit b (7 - i) then 70 else 25]) [0..<8]))
     [45, 0, 23, 5, 73 :: u8])"

definition dht_ejemplo :: dht where
  "dht_ejemplo = hw0 (replicate 3 (muestra True) @ senal False senal_ejemplo)
     \<lparr>dht11Pin = 0, dht11_ticks_array = replicate 82 0, dht11_byte = replicate 5 0, dht11_timeout = 0, dht11_timeout_max = 0\<rparr>"

theorem dht11_lee_lo_enviado_witness:
  "\<exists>w'. dht11Read dht_ejemplo = Ret (Some [45, 0, 23, 5, 73]) w'"
proof -
  have "transmite senal_ejemplo [45, 0, 23, 5, 73]" by code_simp
  from dht11_lee_lo_enviado [OF this, of dht_ejemplo 3 "[]"] show ?thesis
    by (simp add: dht_ejemplo_def hw0_def)
qed

section \<open>In every environment\<close>

text \<open>
  Whatever the wire does, the driver stays inside its array and every loop ends: by its time limit, or because
  82 intervals are in.
\<close>

definition dht_ok :: "'z dht_scheme \<Rightarrow> bool" where
  "dht_ok w \<longleftrightarrow> 0 \<le> dht11Pin w \<and> dht11Pin w < 46 \<and> length (dht11_ticks_array w) = 82"

lemma env_frame_dht:
  "env_frame w w' \<Longrightarrow> dht11Pin w' = dht11Pin w \<and> dht11_ticks_array w' = dht11_ticks_array w"
  unfolding env_frame_def by (cases w, cases w') simp

lemma dht_ok_poll: "poll w = Ret () w' \<Longrightarrow> dht_ok w' = dht_ok w"
  using within_Ret [OF within_poll_frame [OF env_frame_dht]] by (fastforce simp: dht_ok_def)

lemma sat_leer:
  assumes "dht_ok w"
  shows "sat {} (\<lambda>_ w'. dht_ok w' \<and> length (script w') < length (script w)) (\<lambda>_. True) (dht11_GPIO_Read w)"
proof -
  have "length gpioPinsInit = 46" by (simp add: gpioPinsInit_def)
  then have "gpioObtainPinInit (dht11Pin w) = Some (gpioPinsInit ! nat (dht11Pin w))"
    using assms by (auto simp: dht_ok_def gpioObtainPinInit_def)
  then obtain x y g h where e: "gpioObtainPinInit (dht11Pin w) = Some (x, y, g, h)" by (metis prod.collapse)
  have "dht11_GPIO_Read w = bind poll (\<lambda>_. gets (\<lambda>w. wire w (pinOut w) (g, h))) w"
    using assms e by (simp add: dht11_GPIO_Read_def gpioRead_def dht_ok_def VCC_def GND_def Chip_GPIO_GetPinState_def bind_gets)
  moreover have "poll w = More w \<or> (\<exists>w'. poll w = Ret () w')" by (simp add: poll_def split: list.split)
  moreover have "length (script w') < length (script w)" if "poll w = Ret () w'" for w'
    using consumes_poll that unfolding consumes_def by blast
  ultimately show ?thesis using assms dht_ok_poll [of w] by (auto simp: bind_apply)
qed

lemma sat_plazo:
  "dht_ok w \<Longrightarrow> sat {} (\<lambda>_ w'. dht_ok w' \<and> script w' = script w) (\<lambda>_. True) (dht11_TimeOutCheck w)"
  "dht_ok w \<Longrightarrow> sat {} (\<lambda>_ w'. dht_ok w' \<and> script w' = script w) (\<lambda>_. True) (dht11_TimeOutReset d w)"
  by (simp_all add: dht11_TimeOutCheck_def dht11_TimeOutReset_def dht_ok_def bind_apply Let_def)

lemma sat_guarda:
  "dht_ok w \<Longrightarrow> n < 82 \<Longrightarrow> sat {} (\<lambda>_ w'. dht_ok w' \<and> script w' = script w) (\<lambda>_. True) (dht_store n x w)"
  by (simp add: dht_store_def dht_ok_def bind_apply)

lemma sat_esperar:
  assumes "dht_ok w"
  shows "sat {} (\<lambda>s w'. dht_ok w' \<and> s \<in> {Dht_low, Dht_timeout} \<and> length (script w') < length (script w)) (\<lambda>_. True)
    (dht_esperar_start w)"
  unfolding dht_esperar_start_def loop_def
proof (rule sat_iter [where I = "\<lambda>_ v. dht_ok v \<and> length (script v) \<le> length (script w)"
      and \<mu> = "\<lambda>w. length (script w)"], goal_cases)
  case (3 x v)
  then show ?case
    by (intro sat_bind sat_weaken [OF sat_leer], simp, simp only: Let_def, intro sat_bind sat_weaken [OF sat_plazo(1)])
      auto
qed (use assms in simp_all)

lemma sat_medir:
  assumes "dht_ok w" and "n_bit < 82" and "sig \<noteq> act" and "act \<noteq> Dht_timeout"
  shows "sat {} (\<lambda>(s, _, k) w'. dht_ok w' \<and> s \<in> {sig, Dht_timeout} \<and> k \<le> 82 \<and> length (script w') < length (script w))
    (\<lambda>_. True) (dht_medir act v sig n_tick n_bit w)"
  unfolding dht_medir_def loop_def
proof (rule sat_iter [where I = "\<lambda>(_, k) v. dht_ok v \<and> k < 82 \<and> length (script v) \<le> length (script w)"
      and \<mu> = "\<lambda>w. length (script w)"], goal_cases)
  case (3 x u)
  obtain nt k where x: "x = (nt, k)" by (cases x)
  have u: "dht_ok u" "k < 82" "length (script u) \<le> length (script w)" using 3 by (simp_all add: x)
  have m: "sat {} (\<lambda>(s, _, k') w2. dht_ok w2 \<and> script w2 = script w1 \<and> s \<in> {sig, act} \<and> k' \<le> 82 \<and> (s = act \<longrightarrow> k' < 82))
      (\<lambda>_. True) ((if y = v then bind (dht_store k (nt + 1)) (\<lambda>_. ret (sig, 0, k + 1)) else ret (act, nt + 1, k)) w1)"
    if "dht_ok w1" for w1 y
    using that u(2) assms(3) by (auto intro!: sat_bind sat_weaken [OF sat_guarda])
  show ?case
    unfolding x split_conv Let_def
  proof (rule sat_bind, rule sat_weaken [OF sat_leer [OF u(1)]], elim conjE, rule sat_bind, rule sat_weaken [OF m],
      assumption, goal_cases)
    case (1 y w1 z w2)
    obtain st nt' k' where zz: "z = (st, nt', k')" by (cases z)
    show ?case
      unfolding zz split_conv using 1 u(3) assms(4)
      by (intro sat_bind sat_weaken [OF sat_plazo(1)]) (auto simp: zz)
  qed simp_all
qed (use assms in simp_all)

text \<open>A rule for loops whose measure looks at the local variables too.\<close>

lemma sat_iter_local:
  assumes "I x s" and "\<mu> x s < n"
    and step: "\<And>x s. I x s \<Longrightarrow>
      sat E (\<lambda>r s'. case r of Inl y \<Rightarrow> I y s' \<and> \<mu> y s' < \<mu> x s | Inr z \<Rightarrow> Q z s') R (body x s)"
  shows "sat E Q R (iter n body x s)"
  using assms(1,2)
proof (induction n arbitrary: x s)
  case (Suc n)
  show ?case unfolding iter.simps
    by (rule sat_bind, rule sat_weaken [OF step [OF Suc.prems(1)]])
      (use Suc.prems(2) in \<open>auto split: sum.splits intro: Suc.IH\<close>)
qed simp

definition dht_peso :: "dht11_state_e \<Rightarrow> nat" where
  "dht_peso s = (case s of Dht_end \<Rightarrow> 0 | Dht_timeout \<Rightarrow> 1 | Dht_error \<Rightarrow> 1 | _ \<Rightarrow> 2)"

lemma sat_vuelta:
  assumes "dht_ok w" and "s = Dht_low \<or> s = Dht_high \<longrightarrow> n_bit < 82" and "n_bit \<le> 82"
  shows "sat {} (\<lambda>r w'. case r of
      Inl (s', _, n') \<Rightarrow> dht_ok w' \<and> (s' = Dht_low \<or> s' = Dht_high \<longrightarrow> n' < 82) \<and> n' \<le> 82 \<and>
        length (script w') + dht_peso s' < length (script w) + dht_peso s
    | Inr n' \<Rightarrow> dht_ok w' \<and> n' \<le> 82) (\<lambda>_. True) (dht_vuelta (s, n_tick, n_bit) w)"
proof -
  let ?Q = "\<lambda>(fin, s', _, n') w'. dht_ok w' \<and> n' \<le> 82 \<and>
      (fin \<or> length (script w') + dht_peso s' < length (script w) + dht_peso s)"
  have e: "sat {} ?Q (\<lambda>_. True) (bind (dht11_TimeOutReset d) (\<lambda>_. bind dht_esperar_start (\<lambda>s. ret (False, s, n_tick, n_bit))) w)"
    if "dht_peso s = 2" for d
    using that assms(3)
    by (intro sat_bind sat_weaken [OF sat_plazo(2) [OF assms(1)]] sat_weaken [OF sat_esperar])
      (auto simp: dht_peso_def)
  have m: "sat {} ?Q (\<lambda>_. True)
      (bind (dht11_TimeOutReset d) (\<lambda>_. bind (dht_medir s v sig n_tick n_bit) (\<lambda>r. ret (False, r))) w)"
    if "dht_peso s = 2" "n_bit < 82" "sig \<noteq> s" "s \<noteq> Dht_timeout" "dht_peso sig = 2" for d v sig
    using that
    by (intro sat_bind sat_weaken [OF sat_plazo(2) [OF assms(1)]] sat_weaken [OF sat_medir])
      (auto simp: dht_peso_def split: prod.splits)
  have "sat {} ?Q (\<lambda>_. True) ((case s of
         Dht_start \<Rightarrow>
           bind (dht11_TimeOutReset DHT11_TIMEOUT_MAX) (\<lambda>_.
           bind dht_esperar_start (\<lambda>s. ret (False, s, n_tick, n_bit)))
       | Dht_low \<Rightarrow>
           bind (dht11_TimeOutReset 0) (\<lambda>_.
           bind (dht_medir Dht_low True Dht_high n_tick n_bit) (\<lambda>r. ret (False, r)))
       | Dht_high \<Rightarrow>
           bind (dht11_TimeOutReset 0) (\<lambda>_.
           bind (dht_medir Dht_high False Dht_low n_tick n_bit) (\<lambda>r. ret (False, r)))
       | Dht_timeout \<Rightarrow> ret (False, Dht_end, n_tick, n_bit)
       | Dht_end \<Rightarrow> ret (True, Dht_end, n_tick, n_bit)
       | Dht_error \<Rightarrow> ret (False, Dht_end, n_tick, n_bit)) w)"
    using e m assms by (cases s) (simp_all add: dht_peso_def)
  then show ?thesis
    unfolding dht_vuelta_def split_conv
    by (intro sat_bind, elim sat_weaken)
      (auto simp: Let_def DHT11_LEN_dht11_ticks_array_def dht_peso_def split: dht11_state_e.splits)
qed

lemma safe_StartRead:
  assumes "dht_ok w"
  shows "sat {} (\<lambda>_. dht_ok) (\<lambda>_. True) (dht11_StartRead w)"
proof -
  have "midiendo (dht11_ticks_array w) (unat (dht11_timeout w)) (script w) w"
    using assms by (simp add: midiendo_def dht_ok_def)
  then obtain w1 where w1: "block [dht11_GPIO_Low, delayInaccurateMs 20, dht11_GPIO_High] w = Ret () w1"
    "midiendo (dht11_ticks_array w) (unat (dht11_timeout w)) (script w) w1" using pedido by blast
  then have ok: "dht_ok w1" using assms by (simp add: midiendo_def dht_ok_def)
  have "sat {} (\<lambda>n' w'. dht_ok w' \<and> n' \<le> 82) (\<lambda>_. True) (iter (length (script w1) + 3) dht_vuelta (Dht_start, 0, 0) w1)"
  proof (rule sat_iter_local [where I = "\<lambda>(s, _, n) w. dht_ok w \<and> (s = Dht_low \<or> s = Dht_high \<longrightarrow> n < 82) \<and> n \<le> 82"
        and \<mu> = "\<lambda>(s, _) w. length (script w) + dht_peso s"], goal_cases)
    case (3 x u)
    obtain s nt n where x: "x = (s, nt, n)" by (cases x)
    show ?case
      unfolding x by (rule sat_weaken [OF sat_vuelta]) (use 3 in \<open>auto simp: x split: sum.splits\<close>)
  qed (simp_all add: ok dht_peso_def)
  then show ?thesis
    unfolding dht11_StartRead_def bind_Ret [where m = "block _", OF w1(1)] bind_gets
    by (intro sat_bind) (auto elim: sat_weaken)
qed

lemma sat_ProcessData:
  assumes "dht_ok w"
  shows "sat {} (\<lambda>_. dht_ok) (\<lambda>_. True) (dht11_ProcessData w)"
  using assms unfolding dht11_ProcessData_def bind_gets Let_def
  by (cases "\<exists>i \<in> set [2..<81]. dht11_ticks_array w ! 0 \<le> dht11_ticks_array w ! i \<or>
      dht11_ticks_array w ! 1 \<le> dht11_ticks_array w ! i")
    (simp_all only: if_True if_False bind_modify, simp_all add: dht_ok_def)

lemma safe_dht11Read:
  assumes "dht_ok w"
  shows "sat {} (\<lambda>_. dht_ok) (\<lambda>_. True) (dht11Read w)"
  unfolding dht11Read_def
proof (rule sat_bind, rule sat_weaken [OF safe_StartRead [OF assms]])
  fix r u
  assume "dht_ok u"
  then show "sat {} (\<lambda>_. dht_ok) (\<lambda>_. True)
      ((if r then bind dht11_ProcessData (\<lambda>ok. if ok then bind (gets dht11_byte) (\<lambda>bs. ret (Some bs)) else ret None)
        else ret None) u)"
    by (cases r) (simp_all, rule sat_bind, rule sat_weaken [OF sat_ProcessData], auto simp: bind_gets)
qed simp

end
