(* ===== verification/Spec2Isabelle.thy ===== *)
theory Spec2Isabelle
  imports Mef_Props Mef_Apertura As608_Scan Sincronizacion Sapi_Buffer Sapi_Convert Sapi_Parser Sapi_Boton Sapi_Print Sapi_Irq
    Sapi_I2c_Soft Sapi_Eeprom Sapi_Dht11
begin

text \<open>
  Verification of the firmware of an electronic lock
  (\<^verbatim>\<open>proyecto/CerraduraElectronica\<close>) on the EDU-CIAA-NXP board, an LPC4337.

  \<^bold>\<open>The program.\<close> \<^verbatim>\<open>main\<close> initialises the board and the drivers and then calls
  \<^verbatim>\<open>mefUpdate\<close> for ever. \<^verbatim>\<open>mefUpdate\<close> (\<^verbatim>\<open>MEF.c\<close>) is a state machine: it waits for a PIN
  on the keypad (\<^verbatim>\<open>teclado.c\<close>), a card (\<^verbatim>\<open>rc522_drv.c\<close>, an MFRC522 on SPI) or a finger
  (\<^verbatim>\<open>as608.c\<close>, an AS608 on a UART), checks it against the user table (\<^verbatim>\<open>validacion.c\<close>),
  moves the bolt with a stepper motor (\<^verbatim>\<open>stepperMotor.c\<close>), waits for the door to
  close, and sleeps when nobody is there. An administrator's menu registers cards and
  fingerprints and deletes them. The table is replaced by the one of a server, over a
  WiFi module driven with AT commands (\<^verbatim>\<open>espAT.c\<close>). \<^verbatim>\<open>display.c\<close> drives an SSD1306 and
  \<^verbatim>\<open>alertas.c\<close> a buzzer. The drivers use the sAPI library (\<^verbatim>\<open>libs/sapi\<close>), of which the
  called functions are modelled, and those of its modules that are algorithms of their
  own. The server (\<^verbatim>\<open>Server/server.py\<close>) keeps the users in a database; an administrator
  edits them on its web page and the lock reports the cards and fingerprints it registers.

  \<^bold>\<open>How it is modelled.\<close> A C function is a program \<open>('a, 's) prog\<close> (theory Prelude): a
  function from the memory to an outcome. \<open>Ret\<close> is a return; \<open>Fault\<close> is undefined
  behaviour of C (buffer overflow, index out of range, uninitialised read, null
  pointer, division by zero, shift too far); \<open>More\<close> is a run that waits for an environment whose script has ended;
  \<open>Hang\<close> is a loop that turns without looking at the hardware. The memory is an
  extensible record that every component extends by its static variables: \<open>hw\<close>
  (Hardware), \<open>disp\<close>, \<open>tecl\<close>, \<open>as608\<close>, \<open>esp\<close>, \<open>val\<close>, \<open>mef\<close>. Machine integers are
  words of their width; \<^verbatim>\<open>long int\<close> has 32 bits.

  The environment is a script, one list of events for each moment the program looks
  at the hardware: ticks of the clock, bytes on a UART, levels on pins, answers on SPI
  and I2C, edges of the presence sensor. Interrupt handlers run at these moments.
  Every theorem holds for all scripts; where it could hold only because the script ends
  too early, it is stated with a script that is long enough, or with the existence of
  one (theories Mef\_Vida, Mef\_Posible and Mef\_Apertura). The bound of a loop is the length of the
  remaining script: a round that goes on has consumed an element, so the bound is
  never what ends the loop (lemmas \<open>sat_loop\<close> and \<open>loop_unfold\<close>), and \<open>Hang\<close> is
  excluded by proof. The bound of \<^verbatim>\<open>main\<close> is twice the script plus two, because one
  state may take a round without looking at the hardware (lemma \<open>mefUpdate_avanza\<close>).

  \<^bold>\<open>The theories.\<close>
  \<^item> Prelude: outcomes, statements and loops; the judgements \<open>sat\<close> (what an outcome
    satisfies), \<open>keeps\<close>, \<open>safe\<close> and \<open>respeta\<close> (a relation every statement respects); the
    locale \<open>stable\<close>. CString: \<^verbatim>\<open>string.h\<close>, number formats. Double: \<^verbatim>\<open>atof\<close> and
    comparison of C doubles.
  \<^item> Hardware, Sapi: registers, interrupts, the environment; \<^verbatim>\<open>sapi_tick\<close>, \<^verbatim>\<open>delay\<close>,
    \<^verbatim>\<open>gpio\<close>, \<^verbatim>\<open>uart\<close>, \<^verbatim>\<open>spi\<close>, \<^verbatim>\<open>i2c\<close>, \<^verbatim>\<open>keypad\<close>, \<^verbatim>\<open>board\<close>. The locale \<open>hw_stable\<close> and its
    extensions, one per driver, show once for every function which relations it
    respects; frame conditions and progress are interpretations of them.
  \<^item> Display, Actuadores (motor, alerts, pins), Teclado, Rc522, As608 and As608\_Scan,
    Usuarios (the table), Esp\_Json (the parser of the user list), Esp\_At (AT commands
    and requests), Validacion (the table in the memory, the synchronisation).
  \<^item> Mef: the state machine, one definition per case of the switch, and \<^verbatim>\<open>main\<close>.
  \<^item> Mef\_Frame: what the cases leave alone. Mef\_Seguridad: no movement without a
    credential. Mef\_Control, Mef\_Refina, Mef\_Registro: the abstraction \<open>ctl\<close> of the
    memory, the abstract machine \<open>paso\<close>, and the proof that each case implements it.
    Mef\_Arranque: power-up. Mef\_Posible: an environment in which power-up completes
    (\<open>puede\<close>). Mef\_Maquina: invariant, runs from power-up, progress of \<^verbatim>\<open>main\<close>.
    Mef\_Vida: reaction times with a running clock. Mef\_Elige, Mef\_Apertura: an environment
    that types a PIN on the keypad (\<open>logra\<close>), and with it the rounds of the machine from power-up
    to the open door and back. Mef\_Props: the properties of the
    running lock.
  \<^item> Servidor: the server, a record of its table and one function per route; its
    invariant over all histories of requests; that the changes of the lock and the
    requests it sends keep the two tables together; what a cut answer does.
    Sincronizacion: the lock and the server together.
  \<^item> Sapi\_Buffer, Sapi\_Convert, Sapi\_Print, Sapi\_Parser, Sapi\_Boton, Sapi\_Irq,
    Sapi\_I2c\_Soft, Sapi\_Eeprom, Sapi\_Dht11: the circular buffer, the number conversions and their
    printing, the pattern recogniser, the button, the interrupt callbacks, the I2C master on
    two pins (its specification is a decoder of the bus), the EEPROM driver (with a
    model of the chip on the bus) and the driver of the DHT11 sensor of sAPI, which the lock does not call. The locale
    \<open>cola_acotada\<close> is the contract of a bounded queue, with the circular buffer and
    the receive FIFO of a UART as its interpretations.

  \<^bold>\<open>What is shown.\<close> The machine implements its abstract specification and never hangs;
  the bolt is open exactly in the state that waits for the door, over all runs from
  power-up; it opens only for an active user's credential, and then within a bounded
  time, by PIN or by card; from power-up, and from every waiting state, a PIN can be typed on
  the keypad so that it opens; it closes when the door does; only the master PIN reaches the menu; using the
  lock does not change the table; synchronisation is all or nothing, and delivers the
  server's list when its document arrives whole; the lock's own changes leave the two
  tables equal, and the first user of the server is always the master. For the drivers:
  the keypad implements a PIN entry machine, the parser reads back what the server
  writes and never leaves its arrays, the packets of the fingerprint sensor decode to
  what was sent, waits are bounded. For the modules of sAPI: the circular buffer is a
  queue, the button debounces, the conversions agree with \<^verbatim>\<open>printf\<close> and read back, the
  recogniser finds subsequences, the I2C master puts the frames of a transfer on the bus,
  the EEPROM is an array of bytes except for its upper pages, the DHT11 driver reads the
  bytes the sensor sends. Undefined behaviour is excluded except where the
  code has it; these places are lemmas or theorems of their own (a greeting longer than its
  buffer, an answer of the card reader longer than its array, a short answer to the
  reset of the WiFi module) together with the limits of the 32 bit clocks.

  \<^bold>\<open>Not modelled.\<close> Debug output on the console; the depth of the sleep (\<^verbatim>\<open>SCB->SCR\<close>);
  the duration of statements other than waiting; noise on the motor (the position of
  the bolt is the number of steps the driver has seen). The functions of LPCOpen and
  CMSIS that access a register are the hardware model. The rest of the repository is
  the firmware framework (other libraries, examples, templates, build scripts) and the
  circuit board. Of sAPI the functions on \<^verbatim>\<open>float\<close>, the modules that only set
  registers (ADC, PWM, RTC, timers) and the drivers of other devices (displays, servos,
  inertial and pressure sensors) are left out, of the server its web pages.
\<close>

end
